(* ===== verification/Crank_Prelude.thy ===== *)
theory Crank_Prelude
  imports Main "HOL-Library.Word" "HOL-Library.List_Lexorder" "HOL-Library.Sublist"
begin

unbundle bit_operations_syntax

text \<open>
  Shared vocabulary of the development: Rust's integer types as words, their saturating
  operations, byte strings and little-endian reads, public keys with their byte order,
  results with a panic value, and the generic lemmas the components use.
\<close>

section \<open>Machine integers\<close>

type_synonym u8 = "8 word"
type_synonym u16 = "16 word"
type_synonym u32 = "32 word"
type_synonym u64 = "64 word"
type_synonym u128 = "128 word"

text \<open>Signed Rust integers are words read through \<^const>\<open>sint\<close>.\<close>

type_synonym i64 = "64 word"
type_synonym i128 = "128 word"

named_theorems int_ops "unfolding rules of the integer operations"

text \<open>Rust's \<open>saturating_add\<close>, \<open>saturating_sub\<close> and \<open>saturating_mul\<close> on unsigned words.\<close>

definition sat_add :: "'a::len word \<Rightarrow> 'a word \<Rightarrow> 'a word" where
  "sat_add a b = (if unat a + unat b < 2 ^ LENGTH('a) then a + b else - 1)"

definition sat_sub :: "'a::len word \<Rightarrow> 'a word \<Rightarrow> 'a word" where
  "sat_sub a b = (if b \<le> a then a - b else 0)"

definition sat_mul :: "'a::len word \<Rightarrow> 'a word \<Rightarrow> 'a word" where
  "sat_mul a b = (if unat a * unat b < 2 ^ LENGTH('a) then a * b else - 1)"

text \<open>\<open>i64::saturating_add\<close>, on the two's complement reading.\<close>

definition sat_add_i64 :: "i64 \<Rightarrow> i64 \<Rightarrow> i64" where
  "sat_add_i64 a b =
     (let r = sint a + sint b
      in if r > 2 ^ 63 - 1 then word_of_int (2 ^ 63 - 1)
         else if r < - (2 ^ 63) then word_of_int (- (2 ^ 63))
         else word_of_int r)"

lemma unat_less_exp: "unat (w :: 'a::len word) < 2 ^ LENGTH('a)"
  by (rule unsigned_less)

lemma unat_max_word: "unat (- 1 :: 'a::len word) = 2 ^ LENGTH('a) - 1"
  by (simp add: unsigned_minus_1_eq_mask mask_eq_exp_minus_1)

lemma unat_sat_add [int_ops]:
  fixes a b :: "'a::len word"
  shows "unat (sat_add a b) = min (unat a + unat b) (2 ^ LENGTH('a) - 1)"
proof (cases "unat a + unat b < 2 ^ LENGTH('a)")
  case True
  then have "unat (a + b) = unat a + unat b"
    by (simp add: unat_word_ariths)
  with True show ?thesis by (simp add: sat_add_def)
next
  case False
  then show ?thesis by (simp add: sat_add_def unat_max_word)
qed

lemma unat_sat_mul [int_ops]:
  fixes a b :: "'a::len word"
  shows "unat (sat_mul a b) = min (unat a * unat b) (2 ^ LENGTH('a) - 1)"
proof (cases "unat a * unat b < 2 ^ LENGTH('a)")
  case True
  then have "unat (a * b) = unat a * unat b"
    by (simp add: unat_word_ariths)
  with True show ?thesis by (simp add: sat_mul_def)
next
  case False
  then show ?thesis by (simp add: sat_mul_def unat_max_word)
qed

lemma unat_sat_sub [int_ops]: "unat (sat_sub a b) = unat a - unat b"
  by (simp add: sat_sub_def unat_sub word_le_nat_alt)

lemma sint_sat_add_i64:
  "sint (sat_add_i64 a b) = max (- (2 ^ 63)) (min (2 ^ 63 - 1) (sint a + sint b))"
proof -
  have *: "sint (word_of_int r :: i64) = r" if "- (2 ^ 63) \<le> r" "r < 2 ^ 63" for r
    using that by (simp add: signed_of_int signed_take_bit_int_eq_self)
  show ?thesis
    using * [of "sint a + sint b"] by (auto simp add: sat_add_i64_def Let_def *)
qed

section \<open>Byte strings\<close>

type_synonym bytes = "u8 list"

text \<open>\<open>slice.get(a..b)\<close>: \<open>None\<close> out of range. An indexing expression \<open>slice[a..b]\<close> panics there.\<close>

definition get_slice :: "'a list \<Rightarrow> nat \<Rightarrow> nat \<Rightarrow> 'a list option" where
  "get_slice xs a b =
     (if a \<le> b \<and> b \<le> length xs then Some (take (b - a) (drop a xs)) else None)"

lemma get_slice_Some [simp]:
  "a \<le> b \<Longrightarrow> b \<le> length xs \<Longrightarrow> get_slice xs a b = Some (take (b - a) (drop a xs))"
  by (simp add: get_slice_def)

lemma get_slice_None_iff: "get_slice xs a b = None \<longleftrightarrow> \<not> (a \<le> b \<and> b \<le> length xs)"
  by (simp add: get_slice_def)

lemma length_get_slice: "get_slice xs a b = Some ys \<Longrightarrow> length ys = b - a"
  by (auto simp: get_slice_def split: if_splits)

text \<open>\<open>uN::from_le_bytes\<close> and \<open>to_le_bytes\<close>.\<close>

fun le_nat :: "bytes \<Rightarrow> nat" where
  "le_nat [] = 0"
| "le_nat (b # bs) = unat b + 256 * le_nat bs"

definition from_le_bytes :: "bytes \<Rightarrow> 'a::len word" where
  "from_le_bytes bs = word_of_nat (le_nat bs)"

fun le_bytes :: "nat \<Rightarrow> nat \<Rightarrow> bytes" where
  "le_bytes 0 n = []"
| "le_bytes (Suc k) n = word_of_nat (n mod 256) # le_bytes k (n div 256)"

definition to_le_bytes :: "'a::len word \<Rightarrow> bytes" where
  "to_le_bytes w = le_bytes (LENGTH('a) div 8) (unat w)"

lemma length_le_bytes [simp]: "length (le_bytes k n) = k"
  by (induction k arbitrary: n) auto

lemma length_to_le_bytes [simp]: "length (to_le_bytes (w :: 'a::len word)) = LENGTH('a) div 8"
  by (simp add: to_le_bytes_def)

lemma le_nat_less: "le_nat bs < 256 ^ length bs"
proof (induction bs)
  case (Cons b bs)
  have "unat b < 256" using unsigned_less [of b] by simp
  with Cons show ?case by simp
qed simp

lemma le_nat_le_bytes: "le_nat (le_bytes k n) = n mod 256 ^ k"
proof (induction k arbitrary: n)
  case (Suc k)
  have "n mod 256 ^ Suc k = n mod 256 + 256 * (n div 256 mod 256 ^ k)"
    by (simp add: mod_mult2_eq)
  with Suc show ?case by (simp add: unat_of_nat)
qed simp

text \<open>Decoding what was encoded gives the value back, at every byte-sized width.\<close>

lemma from_to_le_bytes:
  fixes w :: "'a::len word"
  assumes "8 * k = LENGTH('a)"
  shows "from_le_bytes (to_le_bytes w) = w"
proof -
  have "(256 :: nat) ^ k = 2 ^ LENGTH('a)"
    using assms power_mult [of "2::nat" 8 k] by simp
  moreover have "LENGTH('a) div 8 = k"
    using assms by (metis nonzero_mult_div_cancel_left zero_neq_numeral)
  ultimately show ?thesis
    by (simp add: from_le_bytes_def to_le_bytes_def le_nat_le_bytes)
qed

section \<open>Public keys\<close>

text \<open>\<open>Pubkey\<close> is a 32-byte array; it is ordered and compared by its bytes.\<close>

datatype pubkey = Pubkey (to_bytes: bytes)

definition default_pubkey :: pubkey where
  "default_pubkey = Pubkey (replicate 32 0)"

instantiation pubkey :: linorder
begin

definition less_eq_pubkey :: "pubkey \<Rightarrow> pubkey \<Rightarrow> bool" where
  "less_eq_pubkey a b \<longleftrightarrow> to_bytes a \<le> to_bytes b"

definition less_pubkey :: "pubkey \<Rightarrow> pubkey \<Rightarrow> bool" where
  "less_pubkey a b \<longleftrightarrow> to_bytes a < to_bytes b"

instance
  by standard (auto simp: less_eq_pubkey_def less_pubkey_def intro: pubkey.expand)

end

section \<open>Text\<close>

text \<open>
  Program text (environment values, error messages, URLs) is ASCII text here, so Rust's
  \<open>to_lowercase\<close> and \<open>trim\<close> are their ASCII restrictions.
\<close>

definition lower_char :: "char \<Rightarrow> char" where
  "lower_char c =
     (if 65 \<le> (of_char c :: nat) \<and> (of_char c :: nat) \<le> 90
      then char_of (of_char c + 32 :: nat) else c)"

definition to_lowercase :: "string \<Rightarrow> string" where
  "to_lowercase s = map lower_char s"

fun str_contains :: "string \<Rightarrow> string \<Rightarrow> bool" where
  "str_contains p [] = (p = [])"
| "str_contains p (c # cs) = (prefix p (c # cs) \<or> str_contains p cs)"

lemma str_contains_iff: "str_contains p s \<longleftrightarrow> sublist p s"
proof (induction s)
  case (Cons c cs)
  then show ?case by (auto simp: sublist_Cons_right)
qed (simp add: sublist_def)

lemma str_contains_append: "str_contains p s \<Longrightarrow> str_contains p (a @ s @ b)"
  by (auto simp: str_contains_iff sublist_def) (metis append.assoc)

definition is_space :: "char \<Rightarrow> bool" where
  "is_space ch \<longleftrightarrow> of_char ch \<in> {9, 10, 11, 12, 13, 32 :: nat}"

definition trim :: "string \<Rightarrow> string" where
  "trim s = rev (dropWhile is_space (rev (dropWhile is_space s)))"

text \<open>\<open>str::find\<close>.\<close>

fun find_str :: "string \<Rightarrow> string \<Rightarrow> nat option" where
  "find_str p [] = (if p = [] then Some 0 else None)"
| "find_str p (c # cs) = (if prefix p (c # cs) then Some 0 else map_option Suc (find_str p cs))"

lemma takeWhile_cut: "c \<notin> set a \<Longrightarrow> takeWhile (\<lambda>ch. ch \<noteq> c) (a @ c # b) = a"
  by (induction a) auto

lemma find_str_char:
  "c \<notin> set s \<Longrightarrow> find_str [c] (s @ c # t) = Some (length s)"
  by (induction s) auto

lemma find_str_char_None: "find_str [c] s = None \<longleftrightarrow> c \<notin> set s"
  by (induction s) auto

lemma find_str_skip:
  "c \<notin> set s \<Longrightarrow> find_str (c # p) (s @ c # p @ t) = Some (length s)"
  by (induction s) auto

section \<open>Results\<close>

text \<open>
  \<open>anyhow::Result\<close> with the third outcome a Rust function has: a panic, which the
  program's panic hook turns into a process exit.
\<close>

datatype ('a, 'e) rresult = Ok 'a | Err 'e | Panic

fun rbind :: "('a, 'e) rresult \<Rightarrow> ('a \<Rightarrow> ('b, 'e) rresult) \<Rightarrow> ('b, 'e) rresult" where
  "rbind (Ok a) f = f a"
| "rbind (Err e) f = Err e"
| "rbind Panic f = Panic"

fun is_ok :: "('a, 'e) rresult \<Rightarrow> bool" where
  "is_ok (Ok a) = True"
| "is_ok _ = False"

fun map_err :: "('e \<Rightarrow> 'f) \<Rightarrow> ('a, 'e) rresult \<Rightarrow> ('a, 'f) rresult" where
  "map_err h (Ok a) = Ok a"
| "map_err h (Err e) = Err (h e)"
| "map_err h Panic = Panic"

fun ok_or :: "'e \<Rightarrow> 'a option \<Rightarrow> ('a, 'e) rresult" where
  "ok_or e None = Err e"
| "ok_or e (Some a) = Ok a"

text \<open>An expression that panics where the model's partial operation has no value.\<close>

fun or_panic :: "'a option \<Rightarrow> ('a, 'e) rresult" where
  "or_panic None = Panic"
| "or_panic (Some a) = Ok a"

fun of_sum :: "'e + 'a \<Rightarrow> ('a, 'e) rresult" where
  "of_sum (Inl e) = Err e"
| "of_sum (Inr a) = Ok a"

lemma rbind_Ok_iff: "rbind r f = Ok b \<longleftrightarrow> (\<exists>a. r = Ok a \<and> f a = Ok b)"
  by (cases r) auto

text \<open>A \<open>for\<close> loop that collects one value per element and stops at the first failure.\<close>

fun rmap :: "('a \<Rightarrow> ('b, 'e) rresult) \<Rightarrow> 'a list \<Rightarrow> ('b list, 'e) rresult" where
  "rmap f [] = Ok []"
| "rmap f (x # xs) = rbind (f x) (\<lambda>y. rbind (rmap f xs) (\<lambda>ys. Ok (y # ys)))"

lemma rmap_Ok: "(\<And>x. x \<in> set xs \<Longrightarrow> f x = Ok (g x)) \<Longrightarrow> rmap f xs = Ok (map g xs)"
  by (induction xs) auto

lemma rmap_Ok_length: "rmap f xs = Ok ys \<Longrightarrow> length ys = length xs"
  by (induction xs arbitrary: ys) (auto simp: rbind_Ok_iff)

text \<open>A \<open>for\<close> loop that skips elements whose decoding is an error (\<open>else continue\<close>).\<close>

fun rcollect :: "('a \<Rightarrow> ('b, 'e) rresult) \<Rightarrow> 'a list \<Rightarrow> ('b list, 'e) rresult" where
  "rcollect f [] = Ok []"
| "rcollect f (x # xs) =
     (case f x of
        Ok y \<Rightarrow> rbind (rcollect f xs) (\<lambda>ys. Ok (y # ys))
      | Err e \<Rightarrow> rcollect f xs
      | Panic \<Rightarrow> Panic)"

fun ok_value :: "('b, 'e) rresult \<Rightarrow> 'b option" where
  "ok_value (Ok y) = Some y"
| "ok_value _ = None"

lemma rcollect_eq:
  "rcollect f xs = (if \<exists>x \<in> set xs. f x = Panic then Panic else Ok (List.map_filter (ok_value \<circ> f) xs))"
  by (induction xs) (auto simp: map_filter_simps comp_def split: rresult.splits)

lemma rcollect_not_Err [simp]: "rcollect f xs \<noteq> Err e"
  by (simp add: rcollect_eq)

lemma rbind_Panic_iff: "rbind r f = Panic \<longleftrightarrow> r = Panic \<or> (\<exists>a. r = Ok a \<and> f a = Panic)"
  by (cases r) auto

lemma rbind_assoc: "rbind (rbind r f) g = rbind r (\<lambda>a. rbind (f a) g)"
  by (cases r) auto

lemma ok_or_Ok_iff [simp]: "ok_or e x = Ok a \<longleftrightarrow> x = Some a"
  by (cases x) auto

lemma ok_or_not_Panic [simp]: "ok_or e x \<noteq> Panic"
  by (cases x) auto

lemma or_panic_Ok_iff [simp]: "or_panic x = Ok a \<longleftrightarrow> x = Some a"
  by (cases x) auto

lemma or_panic_Panic_iff [simp]: "or_panic x = Panic \<longleftrightarrow> x = None"
  by (cases x) auto

text \<open>A lock whose poisoned state the code can observe (\<open>RwLock\<close>, \<open>Mutex\<close>).\<close>

datatype 'a lock = Healthy (lock_val: 'a) | Poisoned (lock_val: 'a)

end
