(* ===== verification/Crank_Types.thy ===== *)
theory Crank_Types
  imports Crank_Prelude
begin

text \<open>
  The data the components exchange. First the types of the crates the program only calls
  (the Solana client and SDK, the \<open>ydelta\<close> program crate, Switchboard): their values are
  opaque or carry just what the source reads, and their functions are the fields of the
  records \<open>client\<close>, \<open>sdk\<close> and \<open>ydelta\<close>, parameters of every definition that
  uses them. Then the program's own structs, its errors, and its observable events.
\<close>

section \<open>Values of the external crates\<close>

type_synonym signature = bytes
type_synonym blockhash = bytes

record account_meta =
  meta_pubkey :: pubkey
  is_signer :: bool
  is_writable :: bool

record instruction =
  ix_program_id :: pubkey
  ix_accounts :: "account_meta list"
  ix_data :: bytes

record lookup_table =
  lut_key :: pubkey
  lut_addresses :: "pubkey list"

text \<open>A \<open>Keypair\<close> is its secret bytes; its public key is computed by the SDK.\<close>

datatype keypair = Keypair (kp_bytes: bytes)

text \<open>
  A transaction as the program builds it: a legacy or a v0 message with the given
  instructions, the payer, the blockhash, and the signatures the SDK computed.
\<close>

datatype transaction =
    LegacyTx (tx_ixs: "instruction list") (tx_payer: pubkey) (tx_blockhash: blockhash)
      (tx_signatures: "signature list")
  | V0Tx (tx_ixs: "instruction list") (tx_luts: "lookup_table list") (tx_payer: pubkey)
      (tx_blockhash: blockhash) (tx_signatures: "signature list")

record account =
  acct_data :: bytes
  acct_owner :: pubkey

text \<open>
  \<open>ClientErrorKind\<close> as far as the source tells its cases apart, each with the text that
  \<open>Display\<close> prints.
\<close>

datatype rpc_error =
    ForUser string
  | RpcResponseError int
  | OtherRpcError

datatype client_error_kind =
    IoError
  | ReqwestError
  | RpcErrorKind rpc_error
  | OtherKind

datatype client_error = ClientError (ce_kind: client_error_kind) (ce_display: string)

datatype tx_status = TxStatus (status_err: "string option")

record sim_value =
  sv_err :: "string option"
  sv_logs :: "string list option"

text \<open>A \<open>getProgramAccounts\<close> filter; the transport encodings (base58, raw) denote bytes.\<close>

datatype rpc_filter = Memcmp nat bytes | DataSize nat

section \<open>The program's structs\<close>

text \<open>\<open>chain_reader.rs\<close>\<close>

record market_view =
  mv_address :: pubkey
  mv_debt_mint :: pubkey
  mv_collateral_mint :: pubkey
  mv_debt_bank :: pubkey
  mv_collateral_bank :: pubkey
  mv_is_paused :: bool
  mv_admin :: pubkey
  mv_grace_period_seconds :: u32
  mv_liquidation_keeper_bps :: u16
  mv_liquidation_protocol_bps :: u16

record loan_view =
  lv_address :: pubkey
  lv_market :: pubkey
  lv_state :: u8
  lv_loan_type :: u8
  lv_principal_debt_atoms :: u64
  lv_outstanding_debt_atoms :: u64
  lv_matures_at_unix :: i64
  lv_matched_loan_sequence :: u64
  lv_lender_kind :: u8
  lv_lender_global_vault :: pubkey
  lv_lender_sub_vault_id :: u16
  lv_borrower_rate_bps :: u16
  lv_lender_rate_bps :: u16

record order_view =
  ov_sequence :: u64
  ov_side :: u8
  ov_rate_bps :: u16
  ov_term_seconds :: u32
  ov_principal_atoms :: u64
  ov_owner :: pubkey
  ov_owner_kind :: u8
  ov_sub_vault_id :: u16

record pending_matched_loan =
  pm_market :: pubkey
  pm_sequence :: u64
  pm_flags :: u8
  pm_loan_type :: u8
  pm_lender_seat_index :: u32
  pm_borrower_seat_index :: u32
  pm_principal_atoms :: u64
  pm_origination_atoms :: u64

record seat_view =
  st_owner :: pubkey
  st_owner_kind :: u8
  st_sub_vault_id :: u16

record sub_vault_view =
  sv_vault :: pubkey
  sv_vault_mint :: pubkey
  sv_vault_bank :: pubkey
  sv_sub_vault_id :: u16
  sv_curator :: pubkey
  sv_accumulated_curator_fee_atoms :: u64
  sv_vault_is_paused :: bool
  sv_pending_claim_atoms :: u64
  sv_is_sunset :: bool

record pending_vault_claim =
  pc_market :: pubkey
  pc_debt_mint :: pubkey
  pc_debt_bank :: pubkey
  pc_lender_global_vault :: pubkey
  pc_sub_vault_id :: u16
  pc_debt_withdrawable_shares :: u128

record market_cache =
  fetched_at :: nat
  cached_markets :: "market_view list"

text \<open>\<open>bank_registry.rs\<close>. The \<open>HashMap\<close> is an association list in iteration order.\<close>

record bank_info =
  bi_mint :: pubkey
  bi_bank :: pubkey
  bi_liquidity_vault :: pubkey
  bi_liquidity_vault_authority :: pubkey
  bi_oracles :: "pubkey list"
  bi_token_program :: pubkey
  bi_oracle_setup :: u8

type_synonym bank_registry = "(pubkey \<times> bank_info) list"

text \<open>\<open>config.rs\<close>. Durations configured in seconds are kept in seconds.\<close>

datatype keypair_source = PathSource string | Base58Source string

datatype network = Localhost | Mainnet

record handlers_config =
  promoter_enabled :: bool
  claimer_enabled :: bool
  liquidator_enabled :: bool
  curator_fee_claimer_enabled :: bool
  match_cranker_enabled :: bool
  promoter_interval :: u64
  claimer_interval :: u64
  liquidator_interval :: u64
  curator_fee_claimer_interval :: u64
  match_cranker_interval :: u64
  match_cranker_max_fills :: u32

record thresholds_config =
  min_liquidation_profit_atoms :: u64
  maturity_extra_buffer :: u64
  min_curator_fee_claim_atoms :: u64

record config =
  cfg_network :: network
  cfg_rpc_url :: string
  cfg_program_id :: pubkey
  cfg_marginfi_program_id :: pubkey
  cfg_marginfi_group :: pubkey
  cfg_fee_payer_keypair :: keypair_source
  cfg_fee_payer_expected_pubkey :: "pubkey option"
  cfg_handlers :: handlers_config
  cfg_thresholds :: thresholds_config
  cfg_priority_fee_micro_lamports :: u64
  cfg_compute_unit_limit :: u32
  cfg_min_signer_balance_lamports :: u64
  cfg_banks_refresh_interval :: u64
  cfg_curator_keypairs_base58 :: "string list"

text \<open>\<open>signer.rs\<close>\<close>

record signers =
  fee_payer :: keypair
  curators :: "(pubkey \<times> keypair) list"

text \<open>\<open>rpc.rs\<close>: the settings of \<open>Rpc\<close>; \<open>stop_wired\<close> is \<open>stop.is_some()\<close>.\<close>

record rpc =
  priority_fee_micro_lamports :: u64
  compute_unit_limit :: u32
  stop_wired :: bool

record simulation_result =
  sim_ok :: bool
  sim_error :: "string option"
  sim_logs :: "string list"

section \<open>Errors\<close>

text \<open>
  One constructor per \<open>anyhow!\<close> / \<open>bail!\<close> site, grouped by source file, and
  \<open>Context\<close> for \<open>.context\<close>.
\<close>

datatype rpc_err =
    NoSigners string
  | ShutdownBeforeSend
  | TxHasNoSignature
  | SendFailed client_error

datatype chain_err =
    MarketNotFound pubkey
  | MarketTooSmall nat nat
  | MarketDiscriminatorMismatch u64
  | LoanTooSmall nat nat
  | LoanDiscriminatorMismatch u64
  | SeatIndexNil

datatype bank_err =
    BankTooSmall nat nat
  | BankDiscriminatorMismatch
  | DebtBankDisagrees pubkey pubkey pubkey pubkey
  | CollateralBankDisagrees pubkey pubkey pubkey pubkey
  | BankNotFound pubkey
  | BankOwnedBy pubkey pubkey pubkey pubkey
  | BankMintMismatch pubkey pubkey pubkey
  | MintNotFound pubkey
  | MintOwnerUnknown pubkey pubkey
  | OracleCount pubkey pubkey nat
  | BanksLockPoisoned

datatype handler_err =
    NoBankForDebtMint pubkey
  | NoBankForCollateralMint pubkey
  | NoBankForVaultMint pubkey pubkey
  | VaultBankDisagrees pubkey pubkey pubkey
  | AtaDataTooSmall
  | MarketDisappeared pubkey
  | VaultPdaMismatch pubkey pubkey pubkey

datatype boot_err =
    FeePayerMismatch pubkey pubkey
  | NoCuratorKeypairs
  | KeypairTooPermissive string nat
  | KeypairBadLength nat
  | KeypairInvalid string
  | BadNetwork string
  | MissingVar string
  | BadPubkey string
  | BothKeypairSources
  | NoKeypairSource
  | BadBool string string
  | BadInt string string
  | BadCuratorJson string

datatype err =
    Context string err
  | ClientErr client_error
  | ExternalErr string
  | RpcErr rpc_err
  | ChainErr chain_err
  | BankErr bank_err
  | HandlerErr handler_err
  | NoGateways
  | AllGatewaysFailed nat "err option"
  | BootErr boot_err

type_synonym 'a res = "('a, err) rresult"

section \<open>Observable events\<close>

text \<open>
  What the program does to the outside: simulations with their verdict, submitted
  transactions, status queries, sleeps, and the Prometheus counters.
\<close>

datatype event =
    EvSim "instruction list" "lookup_table list" pubkey bool
  | EvSend transaction
  | EvStatus signature
  | EvSleep nat
  | EvIxMetric string bool
  | EvTick string string
  | EvFailure string string

end
