(* ===== verification/Crank_World.thy ===== *)
theory Crank_World
  imports Crank_Types
begin

text \<open>
  The world the program runs in and the shape of its effectful code. The Solana client,
  the SDK, the \<open>ydelta\<close> crate and the Switchboard gateways are records of functions: no
  definition of this development says what they compute. A program step is a function on
  a state that carries an arbitrary external world, the memory shared by the tasks, the
  handler's own memory and the trace of events. Every awaited call lets the other tasks
  change the shared memory (\<open>c_interfere\<close>), so a theorem about all clients is a theorem
  about all interleavings.
\<close>

section \<open>Accounts of the \<open>ydelta\<close> program, as far as the source reads them\<close>

record market_fixed =
  mf_discriminator :: u64
  mf_debt_mint :: pubkey
  mf_collateral_mint :: pubkey
  mf_debt_lending_pool :: pubkey
  mf_collateral_lending_pool :: pubkey
  mf_is_paused :: u8
  mf_admin :: pubkey
  mf_grace_period_seconds :: u32
  mf_liquidation_keeper_bps :: u16
  mf_liquidation_protocol_bps :: u16
  mf_matched_loans_root_index :: u32
  mf_claimed_seats_root_index :: u32
  mf_asks_root_index :: u32
  mf_asks_best_index :: u32
  mf_bids_best_index :: u32

record loan_fixed =
  lf_discriminator :: u64
  lf_market :: pubkey
  lf_state :: u8
  lf_loan_type :: u8
  lf_principal_debt_atoms :: u64
  lf_outstanding_debt_atoms :: u64
  lf_matures_at_unix :: i64
  lf_matched_loan_sequence :: u64
  lf_lender_kind :: u8
  lf_lender_global_vault :: pubkey
  lf_lender_sub_vault_id :: u16
  lf_borrower_rate_bps :: u16
  lf_lender_rate_bps :: u16

record global_vault_fixed =
  gv_discriminator :: u64
  gv_sub_vaults_root_index :: u32
  gv_mint :: pubkey
  gv_lending_pool :: pubkey
  gv_is_paused :: u8

record sub_vault =
  sub_id :: u16
  sub_curator :: pubkey
  sub_accumulated_curator_fee_atoms :: u64
  sub_pending_claim_atoms :: u64
  sub_is_sunset :: u8

record claimed_seat =
  seat_owner :: pubkey
  seat_owner_kind :: u8
  seat_sub_vault_id :: u16
  seat_debt_withdrawable_shares :: u128

record resting_order =
  ro_trader_seat_index :: u32
  ro_sequence_number :: u64
  ro_side :: u8
  ro_rate_bps :: u16
  ro_term_seconds :: u32
  ro_principal_atoms :: u64

record matched_loan =
  ml_sequence :: u64
  ml_flags :: u8
  ml_loan_type :: u8
  ml_lender_seat_index :: u32
  ml_borrower_seat_index :: u32
  ml_principal_atoms :: u64
  ml_origination_atoms :: u64

section \<open>Calls of the instruction builders, with their arguments\<close>

record vault_settle_addrs =
  vs_global_vault :: pubkey
  vs_global_vault_signer :: pubkey
  vs_global_vault_staging :: pubkey
  vs_global_vault_integration_account :: pubkey
  vs_market_debt_vault :: pubkey
  vs_market_lender_integration_account :: pubkey
  vs_market_signer :: pubkey
  vs_debt_liquidity_vault :: pubkey
  vs_debt_bank_liquidity_vault_authority :: pubkey
  vs_debt_oracles :: "pubkey list"
  vs_debt_mint :: pubkey
  vs_token_program :: pubkey
  vs_marginfi_group :: pubkey
  vs_marginfi_program :: pubkey

text \<open>The arguments \<open>settle_matured_loan_instruction\<close> and \<open>liquidate_loan_instruction\<close> share.\<close>

record close_args =
  ca_market :: pubkey
  ca_payer :: pubkey
  ca_sequence :: u64
  ca_debt_mint :: pubkey
  ca_collateral_mint :: pubkey
  ca_liquidator_debt_ata :: pubkey
  ca_liquidator_collateral_ata :: pubkey
  ca_debt_bank :: pubkey
  ca_collateral_bank :: pubkey
  ca_debt_liquidity_vault :: pubkey
  ca_collateral_liquidity_vault :: pubkey
  ca_collateral_lva :: pubkey
  ca_debt_oracles :: "pubkey list"
  ca_collateral_oracles :: "pubkey list"
  ca_token_program :: pubkey
  ca_marginfi_group :: pubkey
  ca_marginfi_program :: pubkey
  ca_repay_atoms_max :: u64
  ca_rent_refund :: pubkey
  ca_global_vault :: "pubkey option"

text \<open>
  One constructor per builder the handlers call; the arguments are those of the call (a
  constant \<open>None\<close> argument of \<open>process_matched_loan_instruction\<close> is left out).
\<close>

datatype ydelta_ix =
    ProcessMatchedLoan pubkey pubkey pubkey pubkey u64 "vault_settle_addrs option"
  | SettleMaturedLoan close_args
  | LiquidateLoan close_args
  | CheckMaturityLiquidatable pubkey pubkey u64 pubkey pubkey
  | CheckLtvLiquidatable pubkey pubkey u64 pubkey pubkey "pubkey list" "pubkey list" pubkey
  | ClaimRepaymentForSubVault pubkey pubkey u16 pubkey pubkey pubkey pubkey pubkey
      "pubkey list" pubkey pubkey pubkey pubkey
  | ClaimCuratorFee pubkey pubkey pubkey pubkey pubkey pubkey pubkey pubkey pubkey pubkey
      pubkey u16
  | MatchCrank pubkey pubkey pubkey pubkey pubkey pubkey "pubkey list" "pubkey list" u32

section \<open>The external crates\<close>

text \<open>\<open>solana_sdk\<close>, \<open>bs58\<close>, \<open>base64\<close>, \<open>serde_json\<close>. \<open>None\<close> from a signing function is its panic.\<close>

record sdk =
  set_compute_unit_limit :: "u32 \<Rightarrow> instruction"
  set_compute_unit_price :: "u64 \<Rightarrow> instruction"
  find_program_address :: "bytes list \<Rightarrow> pubkey \<Rightarrow> pubkey \<times> u8"
  create_program_address :: "bytes list \<Rightarrow> pubkey \<Rightarrow> string + pubkey"
  new_signed_with_payer ::
    "instruction list \<Rightarrow> pubkey \<Rightarrow> keypair list \<Rightarrow> blockhash \<Rightarrow> signature list option"
  v0_try_compile ::
    "pubkey \<Rightarrow> instruction list \<Rightarrow> lookup_table list \<Rightarrow> blockhash \<Rightarrow> string + nat"
  v0_try_sign ::
    "pubkey \<Rightarrow> instruction list \<Rightarrow> lookup_table list \<Rightarrow> blockhash \<Rightarrow> keypair list \<Rightarrow>
     string + signature list"
  kp_pubkey :: "keypair \<Rightarrow> pubkey"
  base64_decode :: "string \<Rightarrow> bytes option"
  pubkey_from_str :: "string \<Rightarrow> pubkey option"
  system_program_id :: pubkey

text \<open>
  The \<open>ydelta\<close> and \<open>hypertree\<close> crates. The casts are \<open>bytemuck\<close>'s, \<open>None\<close> where it
  refuses; the tree walks and node reads have no value where they panic.
\<close>

record ydelta =
  MARKET_FIXED_SIZE :: nat
  LOAN_FIXED_SIZE :: nat
  GLOBAL_VAULT_FIXED_SIZE :: nat
  MARKET_FIXED_DISCRIMINANT :: u64
  LOAN_FIXED_DISCRIMINANT :: u64
  GLOBAL_VAULT_FIXED_DISCRIMINANT :: u64
  NIL :: u32
  LoanState_Active :: u8
  LoanState_Repaid :: u8
  LoanType_P2Pool :: u8
  OWNER_KIND_SUB_VAULT :: u8
  MATCHED_LOAN_FLAG_VAULT_LENDER :: u8
  MATCHED_LOAN_FLAG_VAULT_PRESETTLED :: u8
  MatchCrankLog_discriminant :: bytes
  cast_market :: "bytes \<Rightarrow> market_fixed option"
  cast_loan :: "bytes \<Rightarrow> loan_fixed option"
  cast_global_vault :: "bytes \<Rightarrow> global_vault_fixed option"
  iter_matched_loans :: "bytes \<Rightarrow> u32 \<Rightarrow> u32 \<Rightarrow> (u32 \<times> matched_loan) list option"
  iter_claimed_seats :: "bytes \<Rightarrow> u32 \<Rightarrow> u32 \<Rightarrow> (u32 \<times> claimed_seat) list option"
  iter_sub_vaults :: "bytes \<Rightarrow> u32 \<Rightarrow> u32 \<Rightarrow> (u32 \<times> sub_vault) list option"
  iter_orders :: "bytes \<Rightarrow> u32 \<Rightarrow> u32 \<Rightarrow> (u32 \<times> resting_order) list option"
  get_helper_seat :: "bytes \<Rightarrow> u32 \<Rightarrow> claimed_seat option"
  get_helper_order :: "bytes \<Rightarrow> u32 \<Rightarrow> resting_order option"
  build_ix :: "ydelta_ix \<Rightarrow> instruction"
  global_vault_pda :: "pubkey \<Rightarrow> pubkey \<times> u8"
  global_vault_signer_pda :: "pubkey \<Rightarrow> pubkey \<times> u8"
  global_vault_staging_pda :: "pubkey \<Rightarrow> pubkey \<times> u8"
  global_vault_integration_account_pda :: "pubkey \<Rightarrow> pubkey \<times> u8"
  get_vault_address :: "pubkey \<Rightarrow> pubkey \<Rightarrow> pubkey \<times> u8"
  get_lender_integration_account_address :: "pubkey \<Rightarrow> pubkey \<times> u8"
  get_market_signer_address :: "pubkey \<Rightarrow> pubkey \<times> u8"

section \<open>Memory shared by the tasks\<close>

record shared =
  stop :: bool
  fee_payer_low :: bool
  banks :: "bank_registry lock"
  markets_cache :: "market_cache option lock"
  ata_balances :: "(pubkey \<times> u64) list lock"

text \<open>
  The RPC client, the clocks (nanoseconds for \<open>Instant\<close>; \<open>None\<close> where the system clock is
  before the epoch), the Switchboard gateway call, and the other tasks.
\<close>

record 'w client =
  c_get_account :: "pubkey \<Rightarrow> 'w \<Rightarrow> (client_error + account) \<times> 'w"
  c_get_multiple_accounts ::
    "pubkey list \<Rightarrow> 'w \<Rightarrow> (client_error + account option list) \<times> 'w"
  c_get_program_accounts ::
    "pubkey \<Rightarrow> rpc_filter list \<Rightarrow> 'w \<Rightarrow> (client_error + (pubkey \<times> account) list) \<times> 'w"
  c_get_latest_blockhash :: "'w \<Rightarrow> (client_error + blockhash) \<times> 'w"
  c_get_signature_statuses ::
    "signature list \<Rightarrow> 'w \<Rightarrow> (client_error + tx_status option list) \<times> 'w"
  c_send_and_confirm :: "transaction \<Rightarrow> 'w \<Rightarrow> (client_error + signature) \<times> 'w"
  c_simulate :: "transaction \<Rightarrow> 'w \<Rightarrow> (client_error + sim_value) \<times> 'w"
  c_get_slot :: "'w \<Rightarrow> (client_error + u64) \<times> 'w"
  c_get_balance :: "pubkey \<Rightarrow> 'w \<Rightarrow> (client_error + u64) \<times> 'w"
  c_sleep :: "nat \<Rightarrow> 'w \<Rightarrow> 'w"
  c_instant :: "'w \<Rightarrow> nat \<times> 'w"
  c_unix_secs :: "'w \<Rightarrow> u64 option \<times> 'w"
  c_fetch_update ::
    "pubkey list \<Rightarrow> pubkey \<Rightarrow> nat \<Rightarrow> 'w \<Rightarrow>
     (string + instruction list \<times> lookup_table list) \<times> 'w"
  c_interfere :: "'w \<Rightarrow> shared \<Rightarrow> shared"

section \<open>States and programs\<close>

text \<open>
  What a task does, in order: observable events, and the points at which it is suspended, with
  the shared memory it leaves behind and the one it finds when it is resumed. The programs
  below only ever add to the list.
\<close>

datatype step = Did event | Switched shared shared

record ('w, 'h) sys =
  world :: 'w
  shm :: shared
  own :: 'h
  steps :: "step list"

primrec events :: "step list \<Rightarrow> event list" where
  "events [] = []"
| "events (st # sts) = (case st of Did ev \<Rightarrow> ev # events sts | Switched sh sh' \<Rightarrow> events sts)"

lemma events_append [simp]: "events (sts @ sts') = events sts @ events sts'"
  by (induction sts) (simp_all split: step.split)

definition trace :: "('w, 'h) sys \<Rightarrow> event list" where
  "trace s = events (steps s)"

lemma trace_update [simp]:
  "trace (s\<lparr>world := w\<rparr>) = trace s" "trace (s\<lparr>shm := sh\<rparr>) = trace s" "trace (s\<lparr>own := h\<rparr>) = trace s"
  "trace (s\<lparr>steps := sts\<rparr>) = events sts" "events (steps s) = trace s"
  "trace \<lparr>world = w, shm = sh, own = h, steps = sts\<rparr> = events sts"
  by (simp_all add: trace_def)

type_synonym ('w, 'h, 'r) prog = "('w, 'h) sys \<Rightarrow> 'r \<times> ('w, 'h) sys"

text \<open>Sequencing of result-valued programs: \<open>?\<close> is \<open>pbind\<close>, \<open>match\<close> on the result is \<open>ptry\<close>.\<close>

definition pdone :: "'r \<Rightarrow> ('w, 'h, 'r) prog" where
  "pdone r s = (r, s)"

definition pseq :: "('w, 'h, 'q) prog \<Rightarrow> ('q \<Rightarrow> ('w, 'h, 'r) prog) \<Rightarrow> ('w, 'h, 'r) prog" where
  "pseq m f s = (let (q, s') = m s in f q s')"

definition pbind ::
    "('w, 'h, 'a res) prog \<Rightarrow> ('a \<Rightarrow> ('w, 'h, 'b res) prog) \<Rightarrow> ('w, 'h, 'b res) prog" where
  "pbind m f = pseq m (\<lambda>r. case r of Ok a \<Rightarrow> f a | Err e \<Rightarrow> pdone (Err e) | Panic \<Rightarrow> pdone Panic)"

definition ptry ::
    "('w, 'h, 'a res) prog \<Rightarrow> ('a \<Rightarrow> ('w, 'h, 'b res) prog) \<Rightarrow> (err \<Rightarrow> ('w, 'h, 'b res) prog) \<Rightarrow>
     ('w, 'h, 'b res) prog" where
  "ptry m f g = pseq m (\<lambda>r. case r of Ok a \<Rightarrow> f a | Err e \<Rightarrow> g e | Panic \<Rightarrow> pdone Panic)"

text \<open>\<open>for x in xs\<close> with the loop's accumulator.\<close>

fun pfor :: "('x \<Rightarrow> 'a \<Rightarrow> ('w, 'h, 'a res) prog) \<Rightarrow> 'x list \<Rightarrow> 'a \<Rightarrow> ('w, 'h, 'a res) prog" where
  "pfor f [] a = pdone (Ok a)"
| "pfor f (x # xs) a = pbind (f x a) (pfor f xs)"

definition emit :: "event \<Rightarrow> ('w, 'h, unit) prog" where
  "emit ev s = ((), s\<lparr>steps := steps s @ [Did ev]\<rparr>)"

definition pctx :: "string \<Rightarrow> ('w, 'h, 'a res) prog \<Rightarrow> ('w, 'h, 'a res) prog" where
  "pctx c m = pseq m (\<lambda>r. pdone (map_err (Context c) r))"

text \<open>An awaited external call: the world answers and the other tasks run.\<close>

definition await :: "'w client \<Rightarrow> ('w \<Rightarrow> 'r \<times> 'w) \<Rightarrow> ('w, 'h, 'r) prog" where
  "await c f s =
     (let (r, w) = f (world s) in
      (r, s\<lparr>world := w, shm := c_interfere c w (shm s),
            steps := steps s @ [Switched (shm s) (c_interfere c w (shm s))]\<rparr>))"

definition call :: "'w client \<Rightarrow> ('w \<Rightarrow> (client_error + 'a) \<times> 'w) \<Rightarrow> ('w, 'h, 'a res) prog" where
  "call c f = pseq (await c f) (\<lambda>r. pdone (map_err ClientErr (of_sum r)))"

text \<open>A clock read: the world moves, no other task is scheduled in between.\<close>

definition sense :: "('w \<Rightarrow> 'r \<times> 'w) \<Rightarrow> ('w, 'h, 'r) prog" where
  "sense f s = (let (r, w) = f (world s) in (r, s\<lparr>world := w\<rparr>))"

definition gets :: "(shared \<Rightarrow> 'r) \<Rightarrow> ('w, 'h, 'r) prog" where
  "gets f s = (f (shm s), s)"

definition puts :: "(shared \<Rightarrow> shared) \<Rightarrow> ('w, 'h, unit) prog" where
  "puts f s = ((), s\<lparr>shm := f (shm s)\<rparr>)"

text \<open>\<open>tokio::time::sleep\<close> of a number of milliseconds; \<open>c_sleep\<close> takes nanoseconds.\<close>

definition sleep_ms :: "'w client \<Rightarrow> nat \<Rightarrow> ('w, 'h, unit) prog" where
  "sleep_ms c ms = pseq (emit (EvSleep ms)) (\<lambda>_. await c (\<lambda>w. ((), c_sleep c (ms * 1000000) w)))"

section \<open>Reasoning about effects\<close>

text \<open>
  \<open>emits m \<Phi>\<close>: from every state, \<open>m\<close> extends the trace, and \<open>\<Phi>\<close> relates its result to the
  events it added. \<open>keeps_own m\<close>: \<open>m\<close> leaves the handler's own memory alone.
\<close>

definition emits :: "('w, 'h, 'r) prog \<Rightarrow> ('r \<Rightarrow> event list \<Rightarrow> bool) \<Rightarrow> bool" where
  "emits m \<Phi> \<longleftrightarrow>
     (\<forall>s. \<exists>es. trace (snd (m s)) = trace s @ es \<and> \<Phi> (fst (m s)) es)"

definition keeps_own :: "('w, 'h, 'r) prog \<Rightarrow> bool" where
  "keeps_own m \<longleftrightarrow> (\<forall>s. own (snd (m s)) = own s)"

named_theorems emits_intro "introduction rules for emits"
named_theorems keeps_intro "introduction rules for keeps_own"

lemma emitsD: "emits m \<Phi> \<Longrightarrow> m s = (r, s') \<Longrightarrow> \<exists>es. trace s' = trace s @ es \<and> \<Phi> r es"
  unfolding emits_def by (metis fst_conv snd_conv)

lemma emits_mono: "emits m \<Phi> \<Longrightarrow> (\<And>r es. \<Phi> r es \<Longrightarrow> \<Psi> r es) \<Longrightarrow> emits m \<Psi>"
  unfolding emits_def by blast

lemma emits_pdone: "\<Phi> r [] \<Longrightarrow> emits (pdone r) \<Phi>"
  by (simp add: emits_def pdone_def)

lemma emits_emit: "\<Phi> () [ev] \<Longrightarrow> emits (emit ev) \<Phi>"
  by (simp add: emits_def emit_def)

lemma emits_await: "(\<And>r. \<Phi> r []) \<Longrightarrow> emits (await c f) \<Phi>"
  by (simp add: emits_def await_def Let_def split: prod.splits)

lemma emits_sense: "(\<And>r. \<Phi> r []) \<Longrightarrow> emits (sense f) \<Phi>"
  by (simp add: emits_def sense_def Let_def split: prod.splits)

lemma emits_gets: "(\<And>r. \<Phi> r []) \<Longrightarrow> emits (gets f) \<Phi>"
  by (simp add: emits_def gets_def)

lemma emits_pseq:
  assumes "emits m \<Phi>" and "\<And>q es. \<Phi> q es \<Longrightarrow> emits (f q) (\<lambda>r es'. \<Psi> r (es @ es'))"
  shows "emits (pseq m f) \<Psi>"
  unfolding emits_def
proof
  fix s
  obtain q s' where m: "m s = (q, s')" by fastforce
  then obtain es where es: "trace s' = trace s @ es" "\<Phi> q es"
    using emitsD [OF assms(1)] by blast
  obtain r s'' where f: "f q s' = (r, s'')" by fastforce
  obtain es' where "trace s'' = trace s' @ es'" "\<Psi> r (es @ es')"
    using emitsD [OF assms(2) [OF es(2)] f] by blast
  with m f es show "\<exists>es. trace (snd (pseq m f s)) = trace s @ es \<and> \<Psi> (fst (pseq m f s)) es"
    by (auto simp: pseq_def)
qed

lemma emits_ptry:
  assumes "emits m \<Phi>"
    and "\<And>a es. \<Phi> (Ok a) es \<Longrightarrow> emits (f a) (\<lambda>r es'. \<Psi> r (es @ es'))"
    and "\<And>e es. \<Phi> (Err e) es \<Longrightarrow> emits (g e) (\<lambda>r es'. \<Psi> r (es @ es'))"
    and "\<And>es. \<Phi> Panic es \<Longrightarrow> \<Psi> Panic es"
  shows "emits (ptry m f g) \<Psi>"
  unfolding ptry_def
proof (rule emits_pseq [OF assms(1)])
  fix q es assume "\<Phi> q es"
  then show "emits (case q of Ok a \<Rightarrow> f a | Err e \<Rightarrow> g e | Panic \<Rightarrow> pdone Panic)
      (\<lambda>r es'. \<Psi> r (es @ es'))"
    using assms(2-4) by (cases q) (auto intro: emits_pdone)
qed

lemma emits_pbind:
  assumes "emits m \<Phi>"
    and "\<And>a es. \<Phi> (Ok a) es \<Longrightarrow> emits (f a) (\<lambda>r es'. \<Psi> r (es @ es'))"
    and "\<And>e es. \<Phi> (Err e) es \<Longrightarrow> \<Psi> (Err e) es"
    and "\<And>es. \<Phi> Panic es \<Longrightarrow> \<Psi> Panic es"
  shows "emits (pbind m f) \<Psi>"
  unfolding pbind_def ptry_def [symmetric]
  using assms by (auto intro!: emits_ptry [OF assms(1)] emits_pdone)

lemma emits_pfor:
  assumes step: "\<And>x a. x \<in> set xs \<Longrightarrow> emits (f x a) (\<lambda>_ es. Q es)"
    and "Q []" and app: "\<And>es es'. Q es \<Longrightarrow> Q es' \<Longrightarrow> Q (es @ es')"
  shows "emits (pfor f xs a) (\<lambda>_ es. Q es)"
  using step
proof (induction xs arbitrary: a)
  case Nil
  then show ?case using assms(2) by (simp add: emits_pdone)
next
  case (Cons x xs)
  have fx: "emits (f x a) (\<lambda>_ es. Q es)" using Cons.prems by simp
  have rest: "emits (pfor f xs b) (\<lambda>_ es. Q es)" for b using Cons by simp
  have "emits (pbind (f x a) (pfor f xs)) (\<lambda>_ es. Q es)"
    by (rule emits_pbind [OF fx]) (auto intro: emits_mono [OF rest] app)
  then show ?case by simp
qed

text \<open>Programs that neither simulate nor send: their events are nothing.\<close>

definition silent :: "('w, 'h, 'r) prog \<Rightarrow> bool" where
  "silent m \<longleftrightarrow> emits m (\<lambda>_ es. es = [])"

lemma silent_pdone [emits_intro]: "silent (pdone r)"
  by (simp add: silent_def emits_pdone)

lemma silent_await [emits_intro]: "silent (await c f)"
  by (simp add: silent_def emits_await)

lemma silent_sense [emits_intro]: "silent (sense f)"
  by (simp add: silent_def emits_sense)

lemma silent_gets [emits_intro]: "silent (gets f)"
  by (simp add: silent_def emits_gets)

lemma silent_puts [emits_intro]: "silent (puts f)"
  by (simp add: silent_def emits_def puts_def)

lemma silent_pseq [emits_intro]: "silent m \<Longrightarrow> (\<And>q. silent (f q)) \<Longrightarrow> silent (pseq m f)"
  unfolding silent_def by (rule emits_pseq [where \<Phi> = "\<lambda>_ es. es = []"]) auto

lemma silent_pbind [emits_intro]: "silent m \<Longrightarrow> (\<And>a. silent (f a)) \<Longrightarrow> silent (pbind m f)"
  unfolding silent_def by (rule emits_pbind [where \<Phi> = "\<lambda>_ es. es = []"]) auto

lemma silent_ptry [emits_intro]:
  "silent m \<Longrightarrow> (\<And>a. silent (f a)) \<Longrightarrow> (\<And>e. silent (g e)) \<Longrightarrow> silent (ptry m f g)"
  unfolding silent_def by (rule emits_ptry [where \<Phi> = "\<lambda>_ es. es = []"]) auto

lemma silent_pctx [emits_intro]: "silent m \<Longrightarrow> silent (pctx c m)"
  unfolding pctx_def by (intro emits_intro)

lemma silent_call [emits_intro]: "silent (call c f)"
  unfolding call_def by (intro emits_intro)

lemma silent_if [emits_intro]: "silent m \<Longrightarrow> silent n \<Longrightarrow> silent (if b then m else n)"
  by simp

lemma silent_pfor [emits_intro]: "(\<And>x a. silent (f x a)) \<Longrightarrow> silent (pfor f xs a)"
  unfolding silent_def by (rule emits_pfor) auto

lemma emits_silent: "silent m \<Longrightarrow> (\<And>r. \<Phi> r []) \<Longrightarrow> emits m \<Phi>"
  unfolding silent_def by (erule emits_mono) auto

text \<open>A silent first step can be skipped when reasoning about the events of the rest.\<close>

lemma emits_after_silent:
  "silent m \<Longrightarrow> (\<And>q. emits (f q) \<Psi>) \<Longrightarrow> emits (pseq m f) \<Psi>"
  unfolding silent_def by (rule emits_pseq [where \<Phi> = "\<lambda>_ es. es = []"]) auto

lemma emits_bind_silent:
  "silent m \<Longrightarrow> (\<And>a. emits (f a) \<Psi>) \<Longrightarrow> (\<And>e. \<Psi> (Err e) []) \<Longrightarrow> \<Psi> Panic [] \<Longrightarrow> emits (pbind m f) \<Psi>"
  unfolding silent_def by (rule emits_pbind [where \<Phi> = "\<lambda>_ es. es = []"]) auto

lemma emits_if: "(b \<Longrightarrow> emits m \<Psi>) \<Longrightarrow> (\<not> b \<Longrightarrow> emits n \<Psi>) \<Longrightarrow> emits (if b then m else n) \<Psi>"
  by simp

lemma emits_case_prod: "(\<And>a b. x = (a, b) \<Longrightarrow> emits (f a b) \<Psi>) \<Longrightarrow> emits (case x of (a, b) \<Rightarrow> f a b) \<Psi>"
  by (cases x) auto

lemma emits_pctx: "emits m (\<lambda>r es. \<Phi> (map_err (Context x) r) es) \<Longrightarrow> emits (pctx x m) \<Phi>"
  unfolding pctx_def by (erule emits_pseq) (auto intro: emits_pdone)

lemma emits_sleep_ms: "emits (sleep_ms c n) (\<lambda>_ es. es = [EvSleep n])"
  unfolding sleep_ms_def
  by (rule emits_pseq [OF emits_emit [where \<Phi> = "\<lambda>_ es. es = [EvSleep n]"]]) (auto intro: emits_await)

lemma keeps_pdone [keeps_intro]: "keeps_own (pdone r)"
  by (simp add: keeps_own_def pdone_def)

lemma keeps_emit [keeps_intro]: "keeps_own (emit ev)"
  by (simp add: keeps_own_def emit_def)

lemma keeps_await [keeps_intro]: "keeps_own (await c f)"
  by (simp add: keeps_own_def await_def Let_def split: prod.splits)

lemma keeps_sense [keeps_intro]: "keeps_own (sense f)"
  by (simp add: keeps_own_def sense_def Let_def split: prod.splits)

lemma keeps_gets [keeps_intro]: "keeps_own (gets f)"
  by (simp add: keeps_own_def gets_def)

lemma keeps_puts [keeps_intro]: "keeps_own (puts f)"
  by (simp add: keeps_own_def puts_def)

lemma keeps_pseq [keeps_intro]:
  "keeps_own m \<Longrightarrow> (\<And>q. keeps_own (f q)) \<Longrightarrow> keeps_own (pseq m f)"
  unfolding keeps_own_def pseq_def by (auto split: prod.splits) (metis snd_conv)

lemma keeps_ptry [keeps_intro]:
  "keeps_own m \<Longrightarrow> (\<And>a. keeps_own (f a)) \<Longrightarrow> (\<And>e. keeps_own (g e)) \<Longrightarrow> keeps_own (ptry m f g)"
  unfolding ptry_def by (intro keeps_pseq) (auto intro: keeps_pdone split: rresult.split)

lemma keeps_pbind [keeps_intro]:
  "keeps_own m \<Longrightarrow> (\<And>a. keeps_own (f a)) \<Longrightarrow> keeps_own (pbind m f)"
  unfolding pbind_def by (intro keeps_pseq) (auto intro: keeps_pdone split: rresult.split)

lemma keeps_pctx [keeps_intro]: "keeps_own m \<Longrightarrow> keeps_own (pctx c m)"
  unfolding pctx_def by (intro keeps_intro)

lemma keeps_call [keeps_intro]: "keeps_own (call c f)"
  unfolding call_def by (intro keeps_intro)

lemma keeps_sleep [keeps_intro]: "keeps_own (sleep_ms c n)"
  unfolding sleep_ms_def by (intro keeps_intro)

lemma keeps_if [keeps_intro]: "keeps_own m \<Longrightarrow> keeps_own n \<Longrightarrow> keeps_own (if b then m else n)"
  by simp

lemma keeps_pfor [keeps_intro]: "(\<And>x a. keeps_own (f x a)) \<Longrightarrow> keeps_own (pfor f xs a)"
  by (induction xs arbitrary: a) (auto intro: keeps_intro)

text \<open>
  Invariants of the shared memory. \<open>rely c I\<close>: the other tasks keep \<open>I\<close>; \<open>preserves I m\<close>:
  so does \<open>m\<close>.
\<close>

definition rely :: "'w client \<Rightarrow> (shared \<Rightarrow> bool) \<Rightarrow> bool" where
  "rely c I \<longleftrightarrow> (\<forall>w sh. I sh \<longrightarrow> I (c_interfere c w sh))"

definition preserves :: "(shared \<Rightarrow> bool) \<Rightarrow> ('w, 'h, 'r) prog \<Rightarrow> bool" where
  "preserves I m \<longleftrightarrow> (\<forall>s. I (shm s) \<longrightarrow> I (shm (snd (m s))))"

named_theorems preserves_intro "introduction rules for preserves"

lemma preserves_pdone [preserves_intro]: "preserves I (pdone r)"
  by (simp add: preserves_def pdone_def)

lemma preserves_emit [preserves_intro]: "preserves I (emit ev)"
  by (simp add: preserves_def emit_def)

lemma preserves_sense [preserves_intro]: "preserves I (sense f)"
  by (simp add: preserves_def sense_def Let_def split: prod.splits)

lemma preserves_gets [preserves_intro]: "preserves I (gets f)"
  by (simp add: preserves_def gets_def)

lemma preserves_puts: "(\<And>sh. I sh \<Longrightarrow> I (f sh)) \<Longrightarrow> preserves I (puts f)"
  by (simp add: preserves_def puts_def)

lemma preserves_await [preserves_intro]: "rely c I \<Longrightarrow> preserves I (await c f)"
  by (simp add: preserves_def rely_def await_def Let_def split: prod.splits)

lemma preserves_pseq [preserves_intro]:
  "preserves I m \<Longrightarrow> (\<And>q. preserves I (f q)) \<Longrightarrow> preserves I (pseq m f)"
  unfolding preserves_def pseq_def by (auto split: prod.splits)

lemma preserves_ptry [preserves_intro]:
  "preserves I m \<Longrightarrow> (\<And>a. preserves I (f a)) \<Longrightarrow> (\<And>e. preserves I (g e)) \<Longrightarrow> preserves I (ptry m f g)"
  unfolding ptry_def by (intro preserves_pseq) (auto intro: preserves_pdone split: rresult.split)

lemma preserves_pbind [preserves_intro]:
  "preserves I m \<Longrightarrow> (\<And>a. preserves I (f a)) \<Longrightarrow> preserves I (pbind m f)"
  unfolding pbind_def by (intro preserves_pseq) (auto intro: preserves_pdone split: rresult.split)

lemma preserves_pctx [preserves_intro]: "preserves I m \<Longrightarrow> preserves I (pctx x m)"
  unfolding pctx_def by (intro preserves_intro)

lemma preserves_call [preserves_intro]: "rely c I \<Longrightarrow> preserves I (call c f)"
  unfolding call_def by (intro preserves_intro)

lemma preserves_if [preserves_intro]: "preserves I m \<Longrightarrow> preserves I n \<Longrightarrow> preserves I (if b then m else n)"
  by simp

lemma preserves_case_option [preserves_intro]:
  "preserves I m \<Longrightarrow> (\<And>x. preserves I (f x)) \<Longrightarrow> preserves I (case x of None \<Rightarrow> m | Some x \<Rightarrow> f x)"
  by (cases x) auto

lemma keeps_case_option [keeps_intro]:
  "keeps_own m \<Longrightarrow> (\<And>x. keeps_own (f x)) \<Longrightarrow> keeps_own (case x of None \<Rightarrow> m | Some x \<Rightarrow> f x)"
  by (cases x) auto

lemma keeps_case_sum [keeps_intro]:
  "(\<And>x. keeps_own (f x)) \<Longrightarrow> (\<And>x. keeps_own (g x)) \<Longrightarrow> keeps_own (case x of Inl a \<Rightarrow> f a | Inr b \<Rightarrow> g b)"
  by (cases x) auto

lemma keeps_case_prod [keeps_intro]:
  "(\<And>a b. keeps_own (f a b)) \<Longrightarrow> keeps_own (case x of (a, b) \<Rightarrow> f a b)"
  by (cases x) auto

lemma silent_case_option [emits_intro]:
  "silent m \<Longrightarrow> (\<And>x. silent (f x)) \<Longrightarrow> silent (case x of None \<Rightarrow> m | Some x \<Rightarrow> f x)"
  by (cases x) auto

lemma silent_case_sum [emits_intro]:
  "(\<And>x. silent (f x)) \<Longrightarrow> (\<And>x. silent (g x)) \<Longrightarrow> silent (case x of Inl a \<Rightarrow> f a | Inr b \<Rightarrow> g b)"
  by (cases x) auto

lemma silent_case_prod [emits_intro]:
  "(\<And>a b. silent (f a b)) \<Longrightarrow> silent (case x of (a, b) \<Rightarrow> f a b)"
  by (cases x) auto

text \<open>Evaluation equations for concrete runs.\<close>

lemma pbind_run:
  "pbind m f s = (case m s of (Ok a, s') \<Rightarrow> f a s' | (Err e, s') \<Rightarrow> (Err e, s') | (Panic, s') \<Rightarrow> (Panic, s'))"
  by (auto simp: pbind_def pseq_def pdone_def split: prod.splits rresult.splits)

lemma ptry_run:
  "ptry m f g s = (case m s of (Ok a, s') \<Rightarrow> f a s' | (Err e, s') \<Rightarrow> g e s' | (Panic, s') \<Rightarrow> (Panic, s'))"
  by (auto simp: ptry_def pseq_def pdone_def split: prod.splits rresult.splits)

lemma pseq_run: "pseq m f s = (case m s of (q, s') \<Rightarrow> f q s')"
  by (simp add: pseq_def split: prod.splits)

lemmas prog_run = pbind_run ptry_run pseq_run pdone_def emit_def await_def sense_def gets_def
  puts_def call_def sleep_ms_def pctx_def Let_def

end
