(* ===== verification/Crank_Rpc.thy ===== *)
theory Crank_Rpc
  imports Crank_World
begin

text \<open>
  \<open>rpc.rs\<close>: account reads, chunked batch reads, simulation, and signed submission with
  its bounded retry. The legacy and the v0 retry loops of the source differ only in how
  they build the transaction; \<open>retry_loop\<close> takes that step as an argument.
\<close>

section \<open>Definitions\<close>

definition V0_COMPUTE_UNIT_LIMIT :: u32 where
  "V0_COMPUTE_UNIT_LIMIT = 1400000"

definition rpc_new :: "u64 \<Rightarrow> u32 \<Rightarrow> rpc" where
  "rpc_new fee cu = \<lparr>priority_fee_micro_lamports = fee, compute_unit_limit = cu, stop_wired = False\<rparr>"

definition with_stop_signal :: "rpc \<Rightarrow> rpc" where
  "with_stop_signal r = r\<lparr>stop_wired := True\<rparr>"

definition stopped :: "rpc \<Rightarrow> ('w, 'h, bool) prog" where
  "stopped r = gets (\<lambda>sh. stop_wired r \<and> stop sh)"

definition priority_fee_preamble :: "sdk \<Rightarrow> rpc \<Rightarrow> u32 \<Rightarrow> instruction list" where
  "priority_fee_preamble k r cu_limit =
     set_compute_unit_limit k cu_limit #
     (if 0 < priority_fee_micro_lamports r
      then [set_compute_unit_price k (priority_fee_micro_lamports r)] else [])"

fun is_transient :: "client_error \<Rightarrow> bool" where
  "is_transient (ClientError IoError d) = True"
| "is_transient (ClientError ReqwestError d) = True"
| "is_transient (ClientError (RpcErrorKind (ForUser msg)) d) = str_contains ''Blockhash not found'' msg"
| "is_transient (ClientError (RpcErrorKind (RpcResponseError code)) d) =
     (-32099 \<le> code \<and> code \<le> -32000)"
| "is_transient (ClientError (RpcErrorKind OtherRpcError) d) = False"
| "is_transient (ClientError OtherKind d) = False"

definition get_account_data :: "'w client \<Rightarrow> pubkey \<Rightarrow> ('w, 'h, bytes option res) prog" where
  "get_account_data c pk =
     pseq (await c (c_get_account c pk)) (\<lambda>r. pdone (case r of
         Inr acct \<Rightarrow> if acct_data acct \<noteq> [] then Ok (Some (acct_data acct)) else Ok None
       | Inl e \<Rightarrow> if str_contains ''AccountNotFound'' (ce_display e) then Ok None
                  else Err (ClientErr e)))"

text \<open>Batched reads: 100-account chunks, whose answers arrive in any order.\<close>

definition CHUNK_SIZE :: nat where "CHUNK_SIZE = 100"

function chunks :: "nat \<Rightarrow> 'a list \<Rightarrow> 'a list list" where
  "chunks n xs = (if xs = [] \<or> n = 0 then [] else take n xs # chunks n (drop n xs))"
  by pat_completeness auto
termination
  by (relation "measure (\<lambda>(n, xs). length xs)") auto

declare chunks.simps [simp del]

lemma chunks_Nil [simp]: "chunks n [] = []"
  by (simp add: chunks.simps)

fun write_chunk :: "'a list \<Rightarrow> nat \<Rightarrow> 'a list \<Rightarrow> 'a list res" where
  "write_chunk output i [] = Ok output"
| "write_chunk output i (a # as) =
     (if i < length output then write_chunk (output[i := a]) (Suc i) as else Panic)"

text \<open>
  \<open>order\<close> lists the chunk indices in the order in which their tasks are joined. The first
  failed chunk fails the batch.
\<close>

definition batch_get_multiple_accounts ::
    "'w client \<Rightarrow> nat list \<Rightarrow> pubkey list \<Rightarrow> ('w, 'h, account option list res) prog" where
  "batch_get_multiple_accounts c order addresses =
     (if addresses = [] then pdone (Ok [])
      else pfor (\<lambda>idx output.
              pbind (pctx ''batch_get_multiple_accounts chunk''
                       (call c (c_get_multiple_accounts c (chunks CHUNK_SIZE addresses ! idx))))
                (\<lambda>accounts. pdone (write_chunk output (idx * CHUNK_SIZE) accounts)))
             order (replicate (length addresses) None))"

text \<open>Submission.\<close>

definition check_previous :: "'w client \<Rightarrow> signature option \<Rightarrow> ('w, 'h, signature option) prog" where
  "check_previous c last_sig =
     (case last_sig of
        None \<Rightarrow> pdone None
      | Some prev \<Rightarrow>
          pseq (emit (EvStatus prev)) (\<lambda>_.
          pseq (await c (c_get_signature_statuses c [prev])) (\<lambda>r. pdone (case r of
              Inr (Some status # rest) \<Rightarrow> Some prev
            | _ \<Rightarrow> None))))"

fun first_signature :: "transaction \<Rightarrow> signature res" where
  "first_signature tx =
     (case tx_signatures tx of [] \<Rightarrow> Err (RpcErr TxHasNoSignature) | sg # _ \<Rightarrow> Ok sg)"

declare first_signature.simps [simp del]

fun retry_loop ::
    "'w client \<Rightarrow> rpc \<Rightarrow> (blockhash \<Rightarrow> transaction res) \<Rightarrow> nat list \<Rightarrow> signature option \<Rightarrow>
     ('w, 'h, signature res) prog" where
  "retry_loop c r mk [] last_sig = pdone Panic"
| "retry_loop c r mk (attempt # attempts) last_sig =
     pseq (stopped r) (\<lambda>halt. if halt then pdone (Err (RpcErr ShutdownBeforeSend)) else
     pseq (check_previous c last_sig) (\<lambda>landed. case landed of Some prev \<Rightarrow> pdone (Ok prev) | None \<Rightarrow>
     pbind (pctx ''get_latest_blockhash'' (call c (c_get_latest_blockhash c))) (\<lambda>bh.
     pbind (pdone (mk bh)) (\<lambda>tx.
     pbind (pdone (first_signature tx)) (\<lambda>sg.
     pseq (emit (EvSend tx)) (\<lambda>_.
     pseq (await c (c_send_and_confirm c tx)) (\<lambda>res. case res of
         Inr sg' \<Rightarrow> pdone (Ok sg')
       | Inl e \<Rightarrow>
           if \<not> is_transient e \<or> attempt = 2 then pdone (Err (RpcErr (SendFailed e)))
           else pseq (sleep_ms c 500) (\<lambda>_. retry_loop c r mk attempts (Some sg)))))))))"

definition legacy_tx ::
    "sdk \<Rightarrow> instruction list \<Rightarrow> pubkey \<Rightarrow> keypair list \<Rightarrow> blockhash \<Rightarrow> transaction res" where
  "legacy_tx k ixs payer signers bh =
     rbind (or_panic (new_signed_with_payer k ixs payer signers bh))
       (\<lambda>sigs. Ok (LegacyTx ixs payer bh sigs))"

definition v0_tx ::
    "sdk \<Rightarrow> instruction list \<Rightarrow> lookup_table list \<Rightarrow> pubkey \<Rightarrow> keypair list \<Rightarrow> blockhash \<Rightarrow>
     transaction res" where
  "v0_tx k ixs luts payer signers bh =
     rbind (map_err (\<lambda>e. Context ''v0::Message::try_compile'' (ExternalErr e))
              (of_sum (v0_try_compile k payer ixs luts bh))) (\<lambda>_.
     rbind (map_err (\<lambda>e. Context ''VersionedTransaction::try_new'' (ExternalErr e))
              (of_sum (v0_try_sign k payer ixs luts bh signers))) (\<lambda>sigs.
       Ok (V0Tx ixs luts payer bh sigs)))"

definition send_with_retry ::
    "'w client \<Rightarrow> sdk \<Rightarrow> rpc \<Rightarrow> instruction list \<Rightarrow> keypair list \<Rightarrow> keypair \<Rightarrow>
     ('w, 'h, signature res) prog" where
  "send_with_retry c k r all_ixs signers payer =
     retry_loop c r (legacy_tx k all_ixs (kp_pubkey k payer) signers) [0, 1, 2] None"

definition send_v0_with_retry ::
    "'w client \<Rightarrow> sdk \<Rightarrow> rpc \<Rightarrow> instruction list \<Rightarrow> lookup_table list \<Rightarrow> keypair list \<Rightarrow> keypair \<Rightarrow>
     ('w, 'h, signature res) prog" where
  "send_v0_with_retry c k r all_ixs luts signers payer =
     retry_loop c r (v0_tx k all_ixs luts (kp_pubkey k payer) signers) [0, 1, 2] None"

text \<open>The counter is bumped once per submission, unless the call panicked.\<close>

definition count_ix ::
    "string \<Rightarrow> ('w, 'h, 'a res) prog \<Rightarrow> ('w, 'h, 'a res) prog" where
  "count_ix label m = pseq m (\<lambda>res. case res of
       Panic \<Rightarrow> pdone Panic
     | _ \<Rightarrow> pseq (emit (EvIxMetric label (is_ok res))) (\<lambda>_. pdone res))"

fun send_signed_labeled ::
    "'w client \<Rightarrow> sdk \<Rightarrow> rpc \<Rightarrow> string \<Rightarrow> instruction list \<Rightarrow> keypair list \<Rightarrow>
     ('w, 'h, signature res) prog" where
  "send_signed_labeled c k r label ixs [] = pdone (Err (RpcErr (NoSigners ''send_signed'')))"
| "send_signed_labeled c k r label ixs (payer # signers) =
     count_ix label
       (send_with_retry c k r (priority_fee_preamble k r (compute_unit_limit r) @ ixs)
          (payer # signers) payer)"

definition send_signed ::
    "'w client \<Rightarrow> sdk \<Rightarrow> rpc \<Rightarrow> instruction list \<Rightarrow> keypair list \<Rightarrow> ('w, 'h, signature res) prog" where
  "send_signed c k r ixs signers = send_signed_labeled c k r ''untagged'' ixs signers"

fun send_signed_v0_labeled ::
    "'w client \<Rightarrow> sdk \<Rightarrow> rpc \<Rightarrow> string \<Rightarrow> instruction list \<Rightarrow> lookup_table list \<Rightarrow> keypair list \<Rightarrow>
     ('w, 'h, signature res) prog" where
  "send_signed_v0_labeled c k r label ixs luts [] =
     pdone (Err (RpcErr (NoSigners ''send_signed_v0'')))"
| "send_signed_v0_labeled c k r label ixs luts (payer # signers) =
     count_ix label
       (send_v0_with_retry c k r (priority_fee_preamble k r V0_COMPUTE_UNIT_LIMIT @ ixs) luts
          (payer # signers) payer)"

text \<open>Simulation: an unsigned v0 message with default signatures.\<close>

definition simulate_v0 ::
    "'w client \<Rightarrow> sdk \<Rightarrow> instruction list \<Rightarrow> lookup_table list \<Rightarrow> pubkey \<Rightarrow>
     ('w, 'h, simulation_result res) prog" where
  "simulate_v0 c k ixs luts payer =
     pbind (call c (c_get_latest_blockhash c)) (\<lambda>bh.
     pbind (pdone (map_err ExternalErr (of_sum (v0_try_compile k payer ixs luts bh)))) (\<lambda>n_sigs.
     pbind (call c (c_simulate c (V0Tx ixs luts payer bh (replicate n_sigs (replicate 64 0)))))
       (\<lambda>v. pseq (emit (EvSim ixs luts payer (sv_err v = None))) (\<lambda>_.
          pdone (Ok \<lparr>sim_ok = (sv_err v = None), sim_error = sv_err v,
                     sim_logs = (case sv_logs v of None \<Rightarrow> [] | Some ls \<Rightarrow> ls)\<rparr>)))))"

definition simulate ::
    "'w client \<Rightarrow> sdk \<Rightarrow> rpc \<Rightarrow> instruction list \<Rightarrow> pubkey \<Rightarrow> ('w, 'h, simulation_result res) prog" where
  "simulate c k r ixs payer =
     simulate_v0 c k (priority_fee_preamble k r (compute_unit_limit r) @ ixs) [] payer"

section \<open>Account reads\<close>

lemma silent_get_account_data [emits_intro]: "silent (get_account_data c pk)"
  unfolding get_account_data_def by (intro emits_intro)

lemma keeps_get_account_data [keeps_intro]: "keeps_own (get_account_data c pk)"
  unfolding get_account_data_def by (intro keeps_intro)

text \<open>A missing and an empty account are both \<open>None\<close>; data that is returned is never empty.\<close>

lemma get_account_data_nonempty: "fst (get_account_data c pk s) \<noteq> Ok (Some [])"
  by (auto simp: get_account_data_def prog_run split: prod.splits sum.splits)

section \<open>Batched reads\<close>

lemma concat_chunks: "0 < n \<Longrightarrow> concat (chunks n xs) = xs"
proof (induction n xs rule: chunks.induct)
  case (1 n xs)
  then show ?case by (cases "xs = []") (simp_all add: chunks.simps [of n xs])
qed

lemma chunks_nth:
  "0 < n \<Longrightarrow> i * n < length xs \<Longrightarrow> i < length (chunks n xs) \<and> chunks n xs ! i = take n (drop (i * n) xs)"
proof (induction n xs arbitrary: i rule: chunks.induct)
  case (1 n xs)
  from "1.prems" have *: "chunks n xs = take n xs # chunks n (drop n xs)"
    by (subst chunks.simps) auto
  show ?case
  proof (cases i)
    case 0
    then show ?thesis by (simp add: *)
  next
    case (Suc j)
    then have "j < length (chunks n (drop n xs)) \<and> chunks n (drop n xs) ! j = take n (drop (j * n) (drop n xs))"
      using "1.IH" "1.prems" by fastforce
    then show ?thesis by (simp add: * Suc add.commute)
  qed
qed

lemma write_chunk_splice:
  "i + length as \<le> length out \<Longrightarrow>
   write_chunk out i as = Ok (take i out @ as @ drop (i + length as) out)"
proof (induction as arbitrary: out i)
  case (Cons a as)
  then have i: "i < length out" by simp
  have "write_chunk (out[i := a]) (Suc i) as
      = Ok (take (Suc i) (out[i := a]) @ as @ drop (Suc i + length as) (out[i := a]))"
    using Cons.prems by (intro Cons.IH) simp
  moreover have "take (Suc i) (out[i := a]) = take i out @ [a]"
    using i by (simp add: take_Suc_conv_app_nth)
  ultimately show ?case using i by simp
qed simp

text \<open>An answer longer than the room left panics: the last chunk must not over-deliver.\<close>

lemma write_chunk_panic: "length out < i + length as \<Longrightarrow> as \<noteq> [] \<Longrightarrow> write_chunk out i as = Panic"
proof (induction as arbitrary: out i)
  case (Cons a as)
  then show ?case by (cases "as = []") auto
qed simp

definition filled :: "('k \<Rightarrow> 'a option) \<Rightarrow> 'k list \<Rightarrow> nat set \<Rightarrow> 'a option list" where
  "filled f xs D = map (\<lambda>p. if p div CHUNK_SIZE \<in> D then f (xs ! p) else None) [0..<length xs]"

lemma length_filled [simp]: "length (filled f xs D) = length xs"
  by (simp add: filled_def)

lemma write_chunk_filled:
  assumes "idx * CHUNK_SIZE < length xs"
  shows "write_chunk (filled f xs D) (idx * CHUNK_SIZE) (map f (chunks CHUNK_SIZE xs ! idx))
    = Ok (filled f xs (insert idx D))"
proof -
  let ?i = "idx * CHUNK_SIZE" and ?as = "map f (take CHUNK_SIZE (drop (idx * CHUNK_SIZE) xs))"
  have ch: "chunks CHUNK_SIZE xs ! idx = take CHUNK_SIZE (drop ?i xs)"
    using chunks_nth [of CHUNK_SIZE idx xs] assms by (simp add: CHUNK_SIZE_def)
  have room: "?i + length ?as \<le> length (filled f xs D)" using assms by simp
  have "take ?i (filled f xs D) @ ?as @ drop (?i + length ?as) (filled f xs D) = filled f xs (insert idx D)"
    (is "?l = ?r")
  proof (rule nth_equalityI)
    show "length ?l = length ?r" using room by simp
    fix p assume "p < length ?l"
    then have p: "p < length xs" using room by simp
    have "p div CHUNK_SIZE = idx \<longleftrightarrow> ?i \<le> p \<and> p < ?i + CHUNK_SIZE"
      by (auto simp: CHUNK_SIZE_def)
    then show "?l ! p = ?r ! p" using p assms by (auto simp: nth_append filled_def)
  qed
  then show ?thesis unfolding ch using write_chunk_splice [OF room] by simp
qed

lemma filled_all: "(\<And>p. p < length xs \<Longrightarrow> p div CHUNK_SIZE \<in> D) \<Longrightarrow> filled f xs D = map f xs"
  by (rule nth_equalityI) (auto simp: filled_def)

lemma batch_fold:
  fixes c :: "'w client"
  assumes answers: "\<And>ks w. fst (c_get_multiple_accounts c ks w) = Inr (map f ks)"
    and "\<And>i. i \<in> set order \<Longrightarrow> i * CHUNK_SIZE < length xs"
  shows "fst (pfor (\<lambda>idx output.
              pbind (pctx ctx (call c (c_get_multiple_accounts c (chunks CHUNK_SIZE xs ! idx))))
                (\<lambda>accounts. pdone (write_chunk output (idx * CHUNK_SIZE) accounts)))
            order (filled f xs D) (s :: ('w, 'h) sys)) = Ok (filled f xs (D \<union> set order))"
  using assms(2)
proof (induction order arbitrary: D s)
  case (Cons i order)
  obtain w where w: "c_get_multiple_accounts c (chunks CHUNK_SIZE xs ! i) (world s)
      = (Inr (map f (chunks CHUNK_SIZE xs ! i)), w)"
    using answers by (metis prod.collapse)
  show ?case
    using Cons by (simp add: prog_run w write_chunk_filled insert_commute)
qed (simp add: pdone_def)

lemma batch_any_order:
  fixes c :: "'w client" and s :: "('w, 'h) sys"
  assumes answers: "\<And>ks w. fst (c_get_multiple_accounts c ks w) = Inr (map f ks)"
    and order: "set order = {i. i * CHUNK_SIZE < length addresses}"
  shows "fst (batch_get_multiple_accounts c order addresses s) = Ok (map f addresses)"
proof (cases "addresses = []")
  case False
  have "filled f addresses {} = replicate (length addresses) None"
    by (simp add: filled_def map_replicate_const)
  then have "fst (batch_get_multiple_accounts c order addresses s) = Ok (filled f addresses (set order))"
    using batch_fold [of c f order addresses _ "{}" s, OF answers] order False
    by (simp add: batch_get_multiple_accounts_def)
  moreover have "filled f addresses (set order) = map f addresses"
    unfolding order
  proof (rule filled_all)
    fix p assume "p < length addresses"
    with div_times_less_eq_dividend [of p CHUNK_SIZE]
    have "p div CHUNK_SIZE * CHUNK_SIZE < length addresses" by (rule le_less_trans)
    then show "p div CHUNK_SIZE \<in> {i. i * CHUNK_SIZE < length addresses}" by simp
  qed
  ultimately show ?thesis by simp
qed (simp add: batch_get_multiple_accounts_def pdone_def)

text \<open>
  C18. The concurrent batch read is insensitive to scheduling: if the node answers every
  \<open>getMultipleAccounts\<close> request with one entry per requested key, then for every order in
  which the chunk tasks are joined the batch returns exactly one entry per address, in
  address order, and never panics.
\<close>

theorem batch_read_any_order:
  fixes c :: "'w client" and s :: "('w, 'h) sys"
  assumes answers: "\<And>ks w. fst (c_get_multiple_accounts c ks w) = Inr (map f ks)"
    and order: "set order = {i. i * CHUNK_SIZE < length addresses}"
  shows "fst (batch_get_multiple_accounts c order addresses s) = Ok (map f addresses)"
  by (rule batch_any_order [OF answers order])

section \<open>The retry loop\<close>

text \<open>
  The traces of at most \<open>n\<close> attempts: every attempt after the first comes after a pause
  and a status query for the signature of the attempt before.
\<close>

fun status_query :: "signature option \<Rightarrow> event list" where
  "status_query None = []"
| "status_query (Some prev) = [EvStatus prev]"

inductive retry_trace ::
    "(transaction \<Rightarrow> bool) \<Rightarrow> nat \<Rightarrow> signature option \<Rightarrow> event list \<Rightarrow> bool" for T where
  halted: "retry_trace T n last_sig []"
| queried: "retry_trace T n last_sig (status_query last_sig)"
| sent: "T tx \<Longrightarrow> retry_trace T (Suc n) last_sig (status_query last_sig @ [EvSend tx])"
| again: "T tx \<Longrightarrow> first_signature tx = Ok sg \<Longrightarrow> retry_trace T n (Some sg) es \<Longrightarrow>
    retry_trace T (Suc n) last_sig (status_query last_sig @ [EvSend tx, EvSleep 500] @ es)"

lemma retry_trace_queried: "retry_trace T n (Some prev) [EvStatus prev]"
  using retry_trace.queried [of T n "Some prev"] by simp

fun is_send :: "event \<Rightarrow> bool" where
  "is_send (EvSend tx) = True"
| "is_send _ = False"

abbreviation sends :: "event list \<Rightarrow> event list" where
  "sends es \<equiv> filter is_send es"

lemma sends_status_query [simp]: "sends (status_query l) = []"
  by (cases l) auto

lemma retry_trace_sends:
  "retry_trace T n l es \<Longrightarrow>
   length (sends es) \<le> n \<and> (\<forall>tx. EvSend tx \<in> set es \<longrightarrow> T tx) \<and> (\<forall>ixs luts p ok. EvSim ixs luts p ok \<notin> set es)"
proof (induction rule: retry_trace.induct)
  case (queried n last_sig)
  then show ?case by (cases last_sig) auto
next
  case (sent tx n last_sig)
  then show ?case by (cases last_sig) auto
next
  case (again tx sg n es last_sig)
  then show ?case by (cases last_sig) auto
qed simp

lemma retry_trace_mono:
  "retry_trace T n l es \<Longrightarrow> (\<And>tx. T tx \<Longrightarrow> U tx) \<Longrightarrow> retry_trace U n l es"
  by (induction rule: retry_trace.induct) (auto intro: retry_trace.intros [simplified])

lemma emits_check_previous:
  "emits (check_previous c l) (\<lambda>landed es. es = status_query l \<and> (landed = None \<or> landed = l))"
proof (cases l)
  case (Some prev)
  have "emits (pseq (await c (c_get_signature_statuses c [prev])) (\<lambda>r. pdone (case r of
        Inr (Some status # rest) \<Rightarrow> Some prev | _ \<Rightarrow> None)))
      (\<lambda>landed es. es = [] \<and> (landed = None \<or> landed = Some prev))"
    by (rule emits_pseq [OF emits_await [where \<Phi> = "\<lambda>_ es. es = []"]])
      (auto intro!: emits_pdone split: sum.splits list.splits option.splits)
  then show ?thesis
    unfolding check_previous_def Some
    by (auto intro!: emits_pseq [OF emits_emit [where \<Phi> = "\<lambda>_ es. es = [EvStatus prev]"]] elim: emits_mono)
qed (simp add: check_previous_def emits_pdone)

lemma emits_retry_loop:
  fixes c :: "'w client"
  shows "emits (retry_loop c r mk attempts l :: ('w, 'h, signature res) prog)
     (\<lambda>res es. retry_trace (\<lambda>tx. \<exists>bh. mk bh = Ok tx) (length attempts) l es \<and>
        (is_ok res \<longrightarrow> sends es \<noteq> [] \<or> l \<noteq> None))"
  (is "emits _ (\<lambda>res es. ?P (length attempts) l res es)")
proof (induction attempts arbitrary: l)
  case Nil
  then show ?case by (simp add: emits_pdone retry_trace.halted)
next
  case (Cons a attempts)
  let ?n = "length attempts"
  let ?again = "\<lambda>sg. retry_loop c r mk attempts (Some sg) :: ('w, 'h, signature res) prog"
  have after_send: "emits (case res of Inr sg' \<Rightarrow> pdone (Ok sg')
        | Inl e \<Rightarrow> if \<not> is_transient e \<or> a = 2 then pdone (Err (RpcErr (SendFailed e)))
            else pseq (sleep_ms c 500) (\<lambda>_. ?again sg))
      (\<lambda>res' es. ?P (Suc ?n) l res' (status_query l @ [EvSend tx] @ es))"
    if tx: "mk bh = Ok tx" "first_signature tx = Ok sg" for res tx bh sg
  proof -
    have T: "\<exists>bh. mk bh = Ok tx" using tx by blast
    have stop1: "?P (Suc ?n) l res' (status_query l @ [EvSend tx])" for res' :: "signature res"
      using T by (auto intro: retry_trace.sent)
    note emits_sleep_ms [of c 500]
    moreover have "emits (?again sg)
        (\<lambda>res' es'. ?P (Suc ?n) l res' (status_query l @ [EvSend tx] @ [EvSleep 500] @ es'))"
      by (rule emits_mono [OF Cons.IH]) (use T tx(2) in \<open>auto intro: retry_trace.again [simplified]\<close>)
    ultimately have again: "emits (pseq (sleep_ms c 500) (\<lambda>_. ?again sg))
        (\<lambda>res' es. ?P (Suc ?n) l res' (status_query l @ [EvSend tx] @ es))"
      by (auto elim!: emits_pseq)
    show ?thesis using stop1 again by (cases res) (auto intro!: emits_pdone)
  qed
  have attempt: "emits (pbind (pctx ''get_latest_blockhash'' (call c (c_get_latest_blockhash c))) (\<lambda>bh.
       pbind (pdone (mk bh)) (\<lambda>tx. pbind (pdone (first_signature tx)) (\<lambda>sg.
       pseq (emit (EvSend tx)) (\<lambda>_. pseq (await c (c_send_and_confirm c tx)) (\<lambda>res. case res of
         Inr sg' \<Rightarrow> pdone (Ok sg')
       | Inl e \<Rightarrow> if \<not> is_transient e \<or> a = 2 then pdone (Err (RpcErr (SendFailed e)))
           else pseq (sleep_ms c 500) (\<lambda>_. ?again sg)))))))
      (\<lambda>res es. ?P (Suc ?n) l res (status_query l @ es))"
    apply (rule emits_pbind [OF emits_silent [where \<Phi> = "\<lambda>_ es. es = []"]])
       apply (intro emits_intro)
      apply simp
     apply (rule emits_pbind [where \<Phi> = "\<lambda>x es. es = [] \<and> mk a = x" for a])
        apply (rule emits_pdone, simp)
       apply (rule emits_pbind [where \<Phi> = "\<lambda>x es. es = [] \<and> first_signature a = x" for a])
          apply (rule emits_pdone, simp)
         apply (rule emits_pseq [where \<Phi> = "\<lambda>_ es. es = [EvSend a]" for a])
          apply (rule emits_emit, simp)
         apply (rule emits_pseq [where \<Phi> = "\<lambda>_ es. es = []"])
          apply (rule emits_await, simp)
    using after_send apply fastforce
        apply (auto intro: retry_trace.queried)
    done
  have "emits (retry_loop c r mk (a # attempts) l :: ('w, 'h, signature res) prog) (?P (Suc ?n) l)"
    unfolding retry_loop.simps
    apply (rule emits_pseq [OF emits_silent [where \<Phi> = "\<lambda>_ es. es = []"]])
      apply (simp add: stopped_def silent_gets)
     apply simp
    apply (auto intro!: emits_pdone retry_trace.halted)
    apply (rule emits_pseq [OF emits_check_previous])
    using attempt apply (auto split: option.split intro!: emits_pdone retry_trace_queried)
    done
  then show ?case by simp
qed

lemma emits_send_with_retry:
  "emits (send_with_retry c k r ixs signers payer)
     (\<lambda>res es. retry_trace (\<lambda>tx. \<exists>bh sigs. tx = LegacyTx ixs (kp_pubkey k payer) bh sigs) 3 None es \<and>
        (is_ok res \<longrightarrow> sends es \<noteq> []))"
proof -
  have "retry_trace (\<lambda>tx. \<exists>bh sigs. tx = LegacyTx ixs (kp_pubkey k payer) bh sigs) n l es"
    if "retry_trace (\<lambda>tx. \<exists>bh. legacy_tx k ixs (kp_pubkey k payer) signers bh = Ok tx) n l es" for n l es
    using that
    by (rule retry_trace_mono) (auto simp: legacy_tx_def rbind_Ok_iff)
  then show ?thesis
    unfolding send_with_retry_def by (intro emits_mono [OF emits_retry_loop]) (simp add: numeral_3_eq_3)
qed

lemma emits_send_v0_with_retry:
  "emits (send_v0_with_retry c k r ixs luts signers payer)
     (\<lambda>res es. retry_trace (\<lambda>tx. \<exists>bh sigs. tx = V0Tx ixs luts (kp_pubkey k payer) bh sigs) 3 None es \<and>
        (is_ok res \<longrightarrow> sends es \<noteq> []))"
proof -
  have "retry_trace (\<lambda>tx. \<exists>bh sigs. tx = V0Tx ixs luts (kp_pubkey k payer) bh sigs) n l es"
    if "retry_trace (\<lambda>tx. \<exists>bh. v0_tx k ixs luts (kp_pubkey k payer) signers bh = Ok tx) n l es" for n l es
    using that
    by (rule retry_trace_mono) (auto simp: v0_tx_def rbind_Ok_iff)
  then show ?thesis
    unfolding send_v0_with_retry_def by (intro emits_mono [OF emits_retry_loop]) (simp add: numeral_3_eq_3)
qed

lemma emits_count_ix:
  assumes "emits m \<Phi>"
    and "\<And>res es. \<Phi> res es \<Longrightarrow> res \<noteq> Panic \<Longrightarrow> \<Psi> res (es @ [EvIxMetric label (is_ok res)])"
    and "\<And>es. \<Phi> Panic es \<Longrightarrow> \<Psi> Panic es"
  shows "emits (count_ix label m) \<Psi>"
  unfolding count_ix_def
proof (rule emits_pseq [OF assms(1)])
  fix res es assume R: "\<Phi> res es"
  have "emits (pseq (emit (EvIxMetric label (is_ok res))) (\<lambda>_. pdone res)) (\<lambda>r es'. \<Psi> r (es @ es'))"
    if "res \<noteq> Panic"
    by (rule emits_pseq [OF emits_emit [where \<Phi> = "\<lambda>_ es'. es' = [EvIxMetric label (is_ok res)]"]])
      (auto intro!: emits_pdone assms(2) R that)
  then show "emits (case res of Panic \<Rightarrow> pdone Panic
      | _ \<Rightarrow> pseq (emit (EvIxMetric label (is_ok res))) (\<lambda>_. pdone res)) (\<lambda>r es'. \<Psi> r (es @ es'))"
    using R assms(3) by (cases res) (auto intro: emits_pdone)
qed

lemma keeps_retry_loop [keeps_intro]: "keeps_own (retry_loop c r mk attempts l)"
proof (induction attempts arbitrary: l)
  case (Cons a attempts)
  have "keeps_own (check_previous c l)"
    by (cases l) (auto simp: check_previous_def intro: keeps_intro)
  then show ?case
    unfolding retry_loop.simps stopped_def
    by (intro keeps_intro Cons.IH)
qed (simp add: keeps_intro)

lemma keeps_send_with_retry [keeps_intro]: "keeps_own (send_with_retry c k r ixs signers payer)"
  unfolding send_with_retry_def by (rule keeps_retry_loop)

lemma keeps_send_v0_with_retry [keeps_intro]: "keeps_own (send_v0_with_retry c k r ixs luts signers payer)"
  unfolding send_v0_with_retry_def by (rule keeps_retry_loop)

lemma keeps_count_ix [keeps_intro]: "keeps_own m \<Longrightarrow> keeps_own (count_ix label m)"
  unfolding count_ix_def by (intro keeps_pseq) (auto intro!: keeps_intro split: rresult.splits)

lemma keeps_send_signed_labeled [keeps_intro]: "keeps_own (send_signed_labeled c k r label ixs signers)"
  by (cases signers) (auto intro: keeps_intro)

lemma keeps_send_signed_v0_labeled [keeps_intro]:
  "keeps_own (send_signed_v0_labeled c k r label ixs luts signers)"
  by (cases signers) (auto intro: keeps_intro)

lemma keeps_simulate_v0 [keeps_intro]: "keeps_own (simulate_v0 c k ixs luts payer)"
  unfolding simulate_v0_def by (intro keeps_intro)

lemma keeps_simulate [keeps_intro]: "keeps_own (simulate c k r ixs payer)"
  unfolding simulate_def by (intro keeps_intro)

section \<open>Simulation gates\<close>

text \<open>
  A trace is gated when every submission carries exactly the bundle of the last
  simulation before it, that simulation succeeded, and the submission adds only the
  compute-budget preamble \<open>pre\<close>. \<open>gate\<close> is the bundle the last simulation approved.
\<close>

fun luts_of :: "transaction \<Rightarrow> lookup_table list" where
  "luts_of (LegacyTx ixs p bh sigs) = []"
| "luts_of (V0Tx ixs luts p bh sigs) = luts"

type_synonym approved = "instruction list \<times> lookup_table list \<times> pubkey"

fun gate_after :: "approved option \<Rightarrow> event list \<Rightarrow> approved option" where
  "gate_after g [] = g"
| "gate_after g (EvSim ixs luts p ok # es) = gate_after (if ok then Some (ixs, luts, p) else None) es"
| "gate_after g (_ # es) = gate_after g es"

fun gated :: "instruction list \<Rightarrow> approved option \<Rightarrow> event list \<Rightarrow> bool" where
  "gated pre g [] = True"
| "gated pre g (EvSim ixs luts p ok # es) = gated pre (if ok then Some (ixs, luts, p) else None) es"
| "gated pre g (EvSend tx # es) =
     ((\<exists>ixs. g = Some (ixs, luts_of tx, tx_payer tx) \<and> tx_ixs tx = pre @ ixs) \<and> gated pre g es)"
| "gated pre g (_ # es) = gated pre g es"

definition self_gated :: "instruction list \<Rightarrow> event list \<Rightarrow> bool" where
  "self_gated pre es \<longleftrightarrow> (\<forall>g. gated pre g es)"

lemma gated_append: "gated pre g (es @ es') \<longleftrightarrow> gated pre g es \<and> gated pre (gate_after g es) es'"
  by (induction g es rule: gate_after.induct) auto

lemma self_gated_Nil [simp]: "self_gated pre []"
  by (simp add: self_gated_def)

lemma self_gated_append: "self_gated pre es \<Longrightarrow> self_gated pre es' \<Longrightarrow> self_gated pre (es @ es')"
  by (simp add: self_gated_def gated_append)

text \<open>Without a submission there is nothing to gate.\<close>

lemma gated_no_send: "sends es = [] \<Longrightarrow> gated pre g es"
  by (induction pre g es rule: gated.induct) auto

lemma self_gated_no_send: "sends es = [] \<Longrightarrow> self_gated pre es"
  by (simp add: self_gated_def gated_no_send)

lemma gated_sends:
  assumes "\<And>tx. EvSend tx \<in> set es \<Longrightarrow> \<exists>ixs. g = Some (ixs, luts_of tx, tx_payer tx) \<and> tx_ixs tx = pre @ ixs"
    and "\<And>ixs luts p ok. EvSim ixs luts p ok \<notin> set es"
  shows "gated pre g es"
  using assms
proof (induction es)
  case (Cons ev es)
  have IH: "gated pre g es" using Cons by (meson list.set_intros(2))
  show ?case
  proof (cases ev)
    case (EvSend tx)
    then show ?thesis using IH Cons.prems(1) [of tx] by simp
  next
    case (EvSim ixs luts p ok)
    then show ?thesis using Cons.prems(2) [of ixs luts p ok] by simp
  qed (use IH in simp_all)
qed simp

section \<open>Submission\<close>

text \<open>
  C3. Submitting a v0 bundle sends at most three transactions, all with exactly the given
  instructions and lookup tables behind the compute-budget preamble and paid by the first
  signer. After the first, each is sent only after a 500 ms pause and a status query for
  the signature of the one before; a reported success means that something was sent, and
  the submission counter is bumped once with the outcome.
\<close>

theorem send_v0_bounded_retry:
  "emits (send_signed_v0_labeled c k r label ixs luts (payer # signers))
     (\<lambda>res es. \<exists>es'.
        es = es' @ (if res = Panic then [] else [EvIxMetric label (is_ok res)]) \<and>
        retry_trace (\<lambda>tx. \<exists>bh sigs. tx =
            V0Tx (priority_fee_preamble k r V0_COMPUTE_UNIT_LIMIT @ ixs) luts (kp_pubkey k payer) bh sigs)
          3 None es' \<and>
        length (sends es) \<le> 3 \<and> (is_ok res \<longrightarrow> sends es \<noteq> []))"
  unfolding send_signed_v0_labeled.simps
  by (rule emits_count_ix [OF emits_send_v0_with_retry]) (fastforce dest: retry_trace_sends)+

text \<open>
  Once the stop flag is set, a wired \<open>Rpc\<close> sends nothing more: the submission fails
  at once with the shutdown error, touches neither the node nor the handler, and only its
  failure is counted.
\<close>

lemma send_refused_after_stop:
  assumes "stop_wired r" and "stop (shm s)"
  shows "send_signed_v0_labeled c k r label ixs luts (payer # signers) s
     = (Err (RpcErr ShutdownBeforeSend), s\<lparr>steps := steps s @ [Did (EvIxMetric label False)]\<rparr>) \<and>
    send_signed_labeled c k r label ixs (payer # signers) s
     = (Err (RpcErr ShutdownBeforeSend), s\<lparr>steps := steps s @ [Did (EvIxMetric label False)]\<rparr>)"
  using assms
  by (simp add: count_ix_def send_v0_with_retry_def send_with_retry_def stopped_def prog_run)

text \<open>
  C37. A retry treats any status of the previous signature as success: whatever the node
  reports in it, that the transaction succeeded or that it landed and failed, the loop returns
  that signature as \<open>Ok\<close> and sends nothing further. Only an answer without a status, or none,
  lets the attempt go on, as one that has no previous signature.
\<close>

theorem landed_failure_reported_ok:
  assumes "\<not> stop (shm s)" "c_get_signature_statuses c [prev] (world s) = (answer, w)"
  shows "if \<exists>status rest. answer = Inr (Some status # rest)
    then fst (retry_loop c r mk (attempt # attempts) (Some prev) s) = Ok prev \<and>
      trace (snd (retry_loop c r mk (attempt # attempts) (Some prev) s)) = trace s @ [EvStatus prev]
    else \<not> stop (c_interfere c w (shm s)) \<longrightarrow>
      retry_loop c r mk (attempt # attempts) (Some prev) s =
      retry_loop c r mk (attempt # attempts) None (s\<lparr>world := w, shm := c_interfere c w (shm s),
        steps := steps s @ [Did (EvStatus prev), Switched (shm s) (c_interfere c w (shm s))]\<rparr>)"
proof (cases "\<exists>status rest. answer = Inr (Some status # rest)")
  case True
  then show ?thesis using assms by (auto simp: stopped_def check_previous_def prog_run)
next
  case False
  then have "(case answer of Inr (Some status # rest) \<Rightarrow> Some prev | _ \<Rightarrow> None) = None"
    by (auto split: sum.splits list.splits option.splits)
  then show ?thesis using assms False by (auto simp: stopped_def check_previous_def prog_run)
qed

end
