(* ===== verification/Chain_Reader.thy ===== *)
theory Chain_Reader
  imports Crank_Rpc "HOL-Library.Multiset"
begin

text \<open>
  \<open>chain_reader.rs\<close>: every read of protocol state. Account bytes come from the node,
  their casts and tree walks from the \<open>ydelta\<close> crate; the reader's own work is the
  filters it asks for, the size and discriminator checks, the selection and projection of
  rows, and the 30 second market cache.
\<close>

section \<open>Definitions\<close>

definition MARKET_CACHE_TTL :: nat where
  "MARKET_CACHE_TTL = 30 * 10 ^ 9"

definition off_MARKET :: nat where "off_MARKET = 8"
definition off_STATE :: nat where "off_STATE = 196"
definition off_LENDER_KIND :: nat where "off_LENDER_KIND = 201"

definition loan_is_active :: "ydelta \<Rightarrow> loan_view \<Rightarrow> bool" where
  "loan_is_active y l \<longleftrightarrow> lv_state l = LoanState_Active y"

definition loan_is_repaid :: "ydelta \<Rightarrow> loan_view \<Rightarrow> bool" where
  "loan_is_repaid y l \<longleftrightarrow> lv_state l = LoanState_Repaid y"

definition loan_is_p2pool :: "ydelta \<Rightarrow> loan_view \<Rightarrow> bool" where
  "loan_is_p2pool y l \<longleftrightarrow> lv_loan_type l = LoanType_P2Pool y"

definition has_vault_lender :: "ydelta \<Rightarrow> pending_matched_loan \<Rightarrow> bool" where
  "has_vault_lender y e \<longleftrightarrow> pm_flags e AND MATCHED_LOAN_FLAG_VAULT_LENDER y \<noteq> 0"

definition is_vault_presettled :: "ydelta \<Rightarrow> pending_matched_loan \<Rightarrow> bool" where
  "is_vault_presettled y e \<longleftrightarrow> pm_flags e AND MATCHED_LOAN_FLAG_VAULT_PRESETTLED y \<noteq> 0"

definition pending_is_p2pool :: "ydelta \<Rightarrow> pending_matched_loan \<Rightarrow> bool" where
  "pending_is_p2pool y e \<longleftrightarrow> pm_loan_type e = LoanType_P2Pool y"

definition market_view_from_fixed :: "pubkey \<Rightarrow> market_fixed \<Rightarrow> market_view" where
  "market_view_from_fixed address fixed =
     \<lparr>mv_address = address, mv_debt_mint = mf_debt_mint fixed,
      mv_collateral_mint = mf_collateral_mint fixed, mv_debt_bank = mf_debt_lending_pool fixed,
      mv_collateral_bank = mf_collateral_lending_pool fixed,
      mv_is_paused = (mf_is_paused fixed \<noteq> 0), mv_admin = mf_admin fixed,
      mv_grace_period_seconds = mf_grace_period_seconds fixed,
      mv_liquidation_keeper_bps = mf_liquidation_keeper_bps fixed,
      mv_liquidation_protocol_bps = mf_liquidation_protocol_bps fixed\<rparr>"

definition decode_market_fixed :: "ydelta \<Rightarrow> bytes \<Rightarrow> market_fixed res" where
  "decode_market_fixed y data =
     (if length data < MARKET_FIXED_SIZE y
      then Err (ChainErr (MarketTooSmall (length data) (MARKET_FIXED_SIZE y)))
      else rbind (or_panic (cast_market y (take (MARKET_FIXED_SIZE y) data))) (\<lambda>fixed.
        if mf_discriminator fixed \<noteq> MARKET_FIXED_DISCRIMINANT y
        then Err (ChainErr (MarketDiscriminatorMismatch (mf_discriminator fixed)))
        else Ok fixed))"

definition decode_loan_fixed :: "ydelta \<Rightarrow> bytes \<Rightarrow> loan_fixed res" where
  "decode_loan_fixed y data =
     (if length data < LOAN_FIXED_SIZE y
      then Err (ChainErr (LoanTooSmall (length data) (LOAN_FIXED_SIZE y)))
      else rbind (or_panic (cast_loan y (take (LOAN_FIXED_SIZE y) data))) (\<lambda>loan.
        if lf_discriminator loan \<noteq> LOAN_FIXED_DISCRIMINANT y
        then Err (ChainErr (LoanDiscriminatorMismatch (lf_discriminator loan)))
        else Ok loan))"

definition split_market :: "ydelta \<Rightarrow> bytes \<Rightarrow> (market_fixed \<times> bytes) res" where
  "split_market y data =
     rbind (decode_market_fixed y data) (\<lambda>fixed. Ok (fixed, drop (MARKET_FIXED_SIZE y) data))"

definition program_accounts ::
    "'w client \<Rightarrow> pubkey \<Rightarrow> rpc_filter list \<Rightarrow> ('w, 'h, (pubkey \<times> account) list res) prog" where
  "program_accounts c program_id filters =
     pctx ''getProgramAccounts'' (call c (c_get_program_accounts c program_id filters))"

definition chain_health :: "'w client \<Rightarrow> ('w, 'h, unit res) prog" where
  "chain_health c = pbind (pctx ''rpc.get_slot'' (call c (c_get_slot c))) (\<lambda>slot. pdone (Ok ()))"

text \<open>The markets.\<close>

definition decode_markets :: "ydelta \<Rightarrow> (pubkey \<times> account) list \<Rightarrow> market_view list res" where
  "decode_markets y accounts =
     rbind (rcollect (\<lambda>(pk, acct). rbind (decode_market_fixed y (acct_data acct))
              (\<lambda>fixed. Ok (market_view_from_fixed pk fixed))) accounts)
       (\<lambda>out. Ok (sort_key mv_address out))"

definition fetch_markets :: "'w client \<Rightarrow> ydelta \<Rightarrow> pubkey \<Rightarrow> ('w, 'h, market_view list res) prog" where
  "fetch_markets c y pid =
     pbind (program_accounts c pid [Memcmp 0 (to_le_bytes (MARKET_FIXED_DISCRIMINANT y))])
       (\<lambda>accounts. pdone (decode_markets y accounts))"

definition markets_cache_get :: "'w client \<Rightarrow> ('w, 'h, market_view list option) prog" where
  "markets_cache_get c =
     pseq (gets markets_cache) (\<lambda>guard. case guard of
         Poisoned _ \<Rightarrow> pdone None
       | Healthy entry \<Rightarrow> (case entry of
           None \<Rightarrow> pdone None
         | Some cache \<Rightarrow> pseq (sense (c_instant c)) (\<lambda>now. pdone
             (if now - fetched_at cache < MARKET_CACHE_TTL then Some (cached_markets cache)
              else None))))"

definition markets_cache_stale :: "('w, 'h, market_view list option) prog" where
  "markets_cache_stale =
     gets (\<lambda>sh. case markets_cache sh of
         Poisoned _ \<Rightarrow> None
       | Healthy entry \<Rightarrow> map_option cached_markets entry)"

definition markets_cache_put :: "'w client \<Rightarrow> market_view list \<Rightarrow> ('w, 'h, unit) prog" where
  "markets_cache_put c markets =
     pseq (gets markets_cache) (\<lambda>guard. case guard of
         Poisoned _ \<Rightarrow> pdone ()
       | Healthy _ \<Rightarrow> pseq (sense (c_instant c)) (\<lambda>now.
           puts (\<lambda>sh. sh\<lparr>markets_cache :=
             Healthy (Some \<lparr>fetched_at = now, cached_markets = markets\<rparr>)\<rparr>)))"

definition list_markets :: "'w client \<Rightarrow> ydelta \<Rightarrow> pubkey \<Rightarrow> ('w, 'h, market_view list res) prog" where
  "list_markets c y pid =
     pseq (markets_cache_get c) (\<lambda>hit. case hit of
         Some cached \<Rightarrow> pdone (Ok cached)
       | None \<Rightarrow> pbind (fetch_markets c y pid) (\<lambda>fresh.
           if fresh = [] then
             pseq markets_cache_stale (\<lambda>old. case old of
               Some stale \<Rightarrow> pdone (Ok stale)
             | None \<Rightarrow> pdone (Ok fresh))
           else pseq (markets_cache_put c fresh) (\<lambda>_. pdone (Ok fresh))))"

definition refresh_markets :: "'w client \<Rightarrow> ydelta \<Rightarrow> pubkey \<Rightarrow> ('w, 'h, market_view list res) prog" where
  "refresh_markets c y pid =
     pbind (fetch_markets c y pid) (\<lambda>fresh.
       if fresh \<noteq> [] then pseq (markets_cache_put c fresh) (\<lambda>_. pdone (Ok fresh))
       else pdone (Ok fresh))"

text \<open>One account that must exist.\<close>

definition require_account :: "'w client \<Rightarrow> err \<Rightarrow> pubkey \<Rightarrow> ('w, 'h, bytes res) prog" where
  "require_account c e pk = pbind (get_account_data c pk) (\<lambda>d. pdone (ok_or e d))"

definition read_market :: "'w client \<Rightarrow> ydelta \<Rightarrow> pubkey \<Rightarrow> ('w, 'h, market_view res) prog" where
  "read_market c y market =
     pbind (require_account c (ChainErr (MarketNotFound market)) market) (\<lambda>data.
     pbind (pdone (decode_market_fixed y data)) (\<lambda>fixed.
     pdone (Ok (market_view_from_fixed market fixed))))"

text \<open>The loans.\<close>

definition loan_view_from_fixed :: "pubkey \<Rightarrow> loan_fixed \<Rightarrow> loan_view" where
  "loan_view_from_fixed pk loan =
     \<lparr>lv_address = pk, lv_market = lf_market loan, lv_state = lf_state loan,
      lv_loan_type = lf_loan_type loan,
      lv_principal_debt_atoms = lf_principal_debt_atoms loan,
      lv_outstanding_debt_atoms = lf_outstanding_debt_atoms loan,
      lv_matures_at_unix = lf_matures_at_unix loan,
      lv_matched_loan_sequence = lf_matched_loan_sequence loan,
      lv_lender_kind = lf_lender_kind loan,
      lv_lender_global_vault = lf_lender_global_vault loan,
      lv_lender_sub_vault_id = lf_lender_sub_vault_id loan,
      lv_borrower_rate_bps = lf_borrower_rate_bps loan,
      lv_lender_rate_bps = lf_lender_rate_bps loan\<rparr>"

definition decode_loans :: "ydelta \<Rightarrow> (pubkey \<times> account) list \<Rightarrow> loan_view list res" where
  "decode_loans y accts =
     rcollect (\<lambda>(pk, acct). rbind (decode_loan_fixed y (acct_data acct))
       (\<lambda>loan. Ok (loan_view_from_fixed pk loan))) accts"

definition loan_discriminator_filter :: "ydelta \<Rightarrow> rpc_filter" where
  "loan_discriminator_filter y = Memcmp 0 (to_le_bytes (LOAN_FIXED_DISCRIMINANT y))"

definition list_loans_for_market ::
    "'w client \<Rightarrow> ydelta \<Rightarrow> pubkey \<Rightarrow> pubkey \<Rightarrow> ('w, 'h, loan_view list res) prog" where
  "list_loans_for_market c y pid market =
     pbind (program_accounts c pid
              [DataSize (LOAN_FIXED_SIZE y), loan_discriminator_filter y,
               Memcmp off_MARKET (to_bytes market)])
       (\<lambda>accts. pdone (decode_loans y accts))"

definition list_repaid_vault_loans ::
    "'w client \<Rightarrow> ydelta \<Rightarrow> pubkey \<Rightarrow> ('w, 'h, loan_view list res) prog" where
  "list_repaid_vault_loans c y pid =
     pbind (program_accounts c pid
              [DataSize (LOAN_FIXED_SIZE y), loan_discriminator_filter y,
               Memcmp off_STATE [LoanState_Repaid y],
               Memcmp off_LENDER_KIND [OWNER_KIND_SUB_VAULT y]])
       (\<lambda>accts. pdone (decode_loans y accts))"

text \<open>The queue of matched loans and the seats of a market.\<close>

definition pending_from_node :: "pubkey \<Rightarrow> matched_loan \<Rightarrow> pending_matched_loan" where
  "pending_from_node market node =
     \<lparr>pm_market = market, pm_sequence = ml_sequence node, pm_flags = ml_flags node,
      pm_loan_type = ml_loan_type node, pm_lender_seat_index = ml_lender_seat_index node,
      pm_borrower_seat_index = ml_borrower_seat_index node,
      pm_principal_atoms = ml_principal_atoms node,
      pm_origination_atoms = ml_origination_atoms node\<rparr>"

definition read_pending_matched_loans ::
    "'w client \<Rightarrow> ydelta \<Rightarrow> pubkey \<Rightarrow> ('w, 'h, pending_matched_loan list res) prog" where
  "read_pending_matched_loans c y market =
     pbind (require_account c (ChainErr (MarketNotFound market)) market) (\<lambda>data.
     pbind (pdone (split_market y data)) (\<lambda>(fixed, dynamic).
     let root = mf_matched_loans_root_index fixed in
     if root = NIL y then pdone (Ok [])
     else pbind (pdone (or_panic (iter_matched_loans y dynamic root (NIL y)))) (\<lambda>nodes.
       pdone (Ok (map (\<lambda>(index, node). pending_from_node market node) nodes)))))"

definition seat_view_from :: "claimed_seat \<Rightarrow> seat_view" where
  "seat_view_from seat =
     \<lparr>st_owner = seat_owner seat, st_owner_kind = seat_owner_kind seat,
      st_sub_vault_id = seat_sub_vault_id seat\<rparr>"

definition read_seat_at :: "ydelta \<Rightarrow> bytes \<Rightarrow> u32 \<Rightarrow> seat_view res" where
  "read_seat_at y market_data index =
     (if index = NIL y then Err (ChainErr SeatIndexNil)
      else if length market_data < MARKET_FIXED_SIZE y then Panic
      else rbind (or_panic (get_helper_seat y (drop (MARKET_FIXED_SIZE y) market_data) index))
             (\<lambda>seat. Ok (seat_view_from seat)))"

text \<open>The sub-vaults of one vault account; an unreadable account has none.\<close>

definition sub_vault_view_from ::
    "pubkey \<Rightarrow> global_vault_fixed \<Rightarrow> sub_vault \<Rightarrow> sub_vault_view" where
  "sub_vault_view_from pk header sub =
     \<lparr>sv_vault = pk, sv_vault_mint = gv_mint header, sv_vault_bank = gv_lending_pool header,
      sv_sub_vault_id = sub_id sub, sv_curator = sub_curator sub,
      sv_accumulated_curator_fee_atoms = sub_accumulated_curator_fee_atoms sub,
      sv_vault_is_paused = (gv_is_paused header \<noteq> 0),
      sv_pending_claim_atoms = sub_pending_claim_atoms sub,
      sv_is_sunset = (sub_is_sunset sub \<noteq> 0)\<rparr>"

definition sub_vaults_of_account :: "ydelta \<Rightarrow> pubkey \<Rightarrow> account \<Rightarrow> sub_vault_view list res" where
  "sub_vaults_of_account y pk acct =
     (if length (acct_data acct) < GLOBAL_VAULT_FIXED_SIZE y then Ok []
      else case cast_global_vault y (take (GLOBAL_VAULT_FIXED_SIZE y) (acct_data acct)) of
          None \<Rightarrow> Ok []
        | Some header \<Rightarrow>
            if gv_discriminator header \<noteq> GLOBAL_VAULT_FIXED_DISCRIMINANT y then Ok []
            else if gv_sub_vaults_root_index header = NIL y then Ok []
            else rbind (or_panic (iter_sub_vaults y (drop (GLOBAL_VAULT_FIXED_SIZE y) (acct_data acct))
                          (gv_sub_vaults_root_index header) (NIL y)))
                   (\<lambda>subs. Ok (map (\<lambda>(idx, sub). sub_vault_view_from pk header sub) subs)))"

definition list_sub_vaults :: "'w client \<Rightarrow> ydelta \<Rightarrow> pubkey \<Rightarrow> ('w, 'h, sub_vault_view list res) prog" where
  "list_sub_vaults c y pid =
     pbind (program_accounts c pid [Memcmp 0 (to_le_bytes (GLOBAL_VAULT_FIXED_DISCRIMINANT y))])
       (\<lambda>accts. pdone (rbind (rmap (\<lambda>(pk, acct). sub_vaults_of_account y pk acct) accts)
          (\<lambda>outs. Ok (concat outs))))"

text \<open>The seats with shares to sweep.\<close>

definition claims_of_market :: "ydelta \<Rightarrow> market_view \<Rightarrow> bytes option \<Rightarrow> pending_vault_claim list res" where
  "claims_of_market y market account_data =
     (case account_data of
        None \<Rightarrow> Ok []
      | Some data \<Rightarrow> (case split_market y data of
          Panic \<Rightarrow> Panic
        | Err _ \<Rightarrow> Ok []
        | Ok (fixed, dynamic) \<Rightarrow>
            if mf_claimed_seats_root_index fixed = NIL y then Ok []
            else rbind (or_panic (iter_claimed_seats y dynamic (mf_claimed_seats_root_index fixed) (NIL y)))
              (\<lambda>seats. Ok (map (\<lambda>(idx, seat).
                  \<lparr>pc_market = mv_address market, pc_debt_mint = mv_debt_mint market,
                   pc_debt_bank = mv_debt_bank market, pc_lender_global_vault = seat_owner seat,
                   pc_sub_vault_id = seat_sub_vault_id seat,
                   pc_debt_withdrawable_shares = seat_debt_withdrawable_shares seat\<rparr>)
                (filter (\<lambda>(idx, seat). seat_owner_kind seat = OWNER_KIND_SUB_VAULT y \<and>
                                      seat_debt_withdrawable_shares seat \<noteq> 0) seats)))))"

definition list_pending_vault_claims ::
    "'w client \<Rightarrow> ydelta \<Rightarrow> market_view list \<Rightarrow> ('w, 'h, pending_vault_claim list res) prog" where
  "list_pending_vault_claims c y markets =
     pfor (\<lambda>market out.
        if mv_is_paused market then pdone (Ok out)
        else pbind (get_account_data c (mv_address market)) (\<lambda>data.
          pdone (rbind (claims_of_market y market data) (\<lambda>rows. Ok (out @ rows)))))
       markets []"

text \<open>The resting orders.\<close>

definition join_order_with_seat :: "ydelta \<Rightarrow> bytes \<Rightarrow> resting_order \<Rightarrow> order_view option res" where
  "join_order_with_seat y dynamic order =
     (if ro_trader_seat_index order = NIL y then Ok None
      else rbind (or_panic (get_helper_seat y dynamic (ro_trader_seat_index order))) (\<lambda>seat.
        Ok (Some \<lparr>ov_sequence = ro_sequence_number order, ov_side = ro_side order,
                  ov_rate_bps = ro_rate_bps order, ov_term_seconds = ro_term_seconds order,
                  ov_principal_atoms = ro_principal_atoms order, ov_owner = seat_owner seat,
                  ov_owner_kind = seat_owner_kind seat,
                  ov_sub_vault_id = seat_sub_vault_id seat\<rparr>)))"

definition list_market_orders ::
    "'w client \<Rightarrow> ydelta \<Rightarrow> pubkey \<Rightarrow> ('w, 'h, order_view list res) prog" where
  "list_market_orders c y market =
     pbind (require_account c (ChainErr (MarketNotFound market)) market) (\<lambda>data.
     pbind (pdone (split_market y data)) (\<lambda>(fixed, dynamic).
     if mf_asks_root_index fixed \<noteq> NIL y then
       pdone (rbind (or_panic (iter_orders y dynamic (mf_asks_root_index fixed) (mf_asks_best_index fixed)))
         (\<lambda>orders. rbind (rmap (\<lambda>(idx, order). join_order_with_seat y dynamic order) orders)
           (\<lambda>views. Ok (List.map_filter id views))))
     else pdone (Ok [])))"

definition market_is_rate_crossed :: "'w client \<Rightarrow> ydelta \<Rightarrow> pubkey \<Rightarrow> ('w, 'h, bool res) prog" where
  "market_is_rate_crossed c y market =
     pbind (require_account c (ChainErr (MarketNotFound market)) market) (\<lambda>data.
     pbind (pdone (split_market y data)) (\<lambda>(fixed, dynamic).
     if mf_bids_best_index fixed = NIL y \<or> mf_asks_best_index fixed = NIL y then pdone (Ok False)
     else
       pbind (pdone (or_panic (get_helper_order y dynamic (mf_bids_best_index fixed)))) (\<lambda>best_bid.
       pbind (pdone (or_panic (get_helper_order y dynamic (mf_asks_best_index fixed)))) (\<lambda>best_ask.
       pdone (Ok (ro_rate_bps best_bid \<ge> ro_rate_bps best_ask))))))"

section \<open>Typed decoding of program accounts\<close>

text \<open>
  What the reader relies on from a decoder of fixed headers: a full-size header of the
  right kind decodes to its cast, a short or foreign account is an error, and only a cast
  that refuses its bytes panics.
\<close>

locale account_decoder =
  fixes size :: nat and cast :: "bytes \<Rightarrow> 'a option" and disc :: "'a \<Rightarrow> u64" and magic :: u64
    and decode :: "bytes \<Rightarrow> 'a res"
  assumes short: "length data < size \<Longrightarrow> \<exists>e. decode data = Err e"
    and refused: "size \<le> length data \<Longrightarrow> cast (take size data) = None \<Longrightarrow> decode data = Panic"
    and foreign: "size \<le> length data \<Longrightarrow> cast (take size data) = Some x \<Longrightarrow> disc x \<noteq> magic \<Longrightarrow>
                  \<exists>e. decode data = Err e"
    and genuine: "size \<le> length data \<Longrightarrow> cast (take size data) = Some x \<Longrightarrow> disc x = magic \<Longrightarrow>
                  decode data = Ok x"
begin

definition readable :: "bytes \<Rightarrow> 'a option" where
  "readable data =
     (if size \<le> length data
      then case cast (take size data) of Some x \<Rightarrow> if disc x = magic then Some x else None | None \<Rightarrow> None
      else None)"

lemma ok_value_decode: "ok_value (decode data) = readable data"
proof (cases "size \<le> length data")
  case True
  then show ?thesis
    using refused [OF True] foreign [OF True] genuine [OF True]
    by (cases "cast (take size data)") (force simp: readable_def)+
next
  case False
  then obtain e where "decode data = Err e" using short [of data] by auto
  then show ?thesis using False by (simp add: readable_def)
qed

lemma decode_Ok_iff: "decode data = Ok x \<longleftrightarrow> readable data = Some x"
  using ok_value_decode [of data] by (cases "decode data") auto

lemma decode_Panic_iff: "decode data = Panic \<longleftrightarrow> size \<le> length data \<and> cast (take size data) = None"
proof (cases "size \<le> length data")
  case True
  then show ?thesis
    using refused [OF True] foreign [OF True] genuine [OF True]
    by (cases "cast (take size data)") force+
next
  case False
  then obtain e where "decode data = Err e" using short [of data] by auto
  then show ?thesis using False by simp
qed

text \<open>Skipping the unreadable accounts of a listing leaves the views of the readable ones, in order.\<close>

lemma collect_views:
  assumes "\<And>b. length b = size \<Longrightarrow> cast b \<noteq> None"
  shows "rcollect (\<lambda>(pk, acct). rbind (decode (acct_data acct)) (\<lambda>x. Ok (view pk x))) accts
    = Ok (List.map_filter (\<lambda>(pk, acct). map_option (view pk) (readable (acct_data acct))) accts)"
proof -
  have np: "decode data \<noteq> Panic" for data
    using assms [of "take size data"] by (auto simp: decode_Panic_iff)
  have row: "rbind (decode data) (\<lambda>x. Ok (view pk x)) \<noteq> Panic \<and>
      ok_value (rbind (decode data) (\<lambda>x. Ok (view pk x))) = map_option (view pk) (readable data)" for pk data
    using np [of data] ok_value_decode [of data, symmetric] by (cases "decode data") auto
  show ?thesis
    by (simp add: rcollect_eq row comp_def case_prod_unfold)
qed

end

interpretation market: account_decoder "MARKET_FIXED_SIZE y" "cast_market y" mf_discriminator
    "MARKET_FIXED_DISCRIMINANT y" "decode_market_fixed y" for y
  by unfold_locales (auto simp: decode_market_fixed_def)

interpretation loan: account_decoder "LOAN_FIXED_SIZE y" "cast_loan y" lf_discriminator
    "LOAN_FIXED_DISCRIMINANT y" "decode_loan_fixed y" for y
  by unfold_locales (auto simp: decode_loan_fixed_def)

section \<open>Effects of the reads\<close>

lemma silent_program_accounts [emits_intro]: "silent (program_accounts c pid fs)"
  unfolding program_accounts_def by (intro emits_intro)

lemma silent_fetch_markets [emits_intro]: "silent (fetch_markets c y pid)"
  unfolding fetch_markets_def by (intro emits_intro)

lemma silent_case_lock [emits_intro]:
  "(\<And>x. silent (f x)) \<Longrightarrow> (\<And>x. silent (g x)) \<Longrightarrow>
   silent (case l of Healthy x \<Rightarrow> f x | Poisoned x \<Rightarrow> g x)"
  by (cases l) auto

lemma keeps_case_lock [keeps_intro]:
  "(\<And>x. keeps_own (f x)) \<Longrightarrow> (\<And>x. keeps_own (g x)) \<Longrightarrow>
   keeps_own (case l of Healthy x \<Rightarrow> f x | Poisoned x \<Rightarrow> g x)"
  by (cases l) auto

lemma silent_list_markets [emits_intro]: "silent (list_markets c y pid)"
  unfolding list_markets_def markets_cache_get_def markets_cache_stale_def markets_cache_put_def
  by (intro emits_intro)

lemma silent_refresh_markets [emits_intro]: "silent (refresh_markets c y pid)"
  unfolding refresh_markets_def markets_cache_put_def by (intro emits_intro)

lemma silent_require_account [emits_intro]: "silent (require_account c e pk)"
  unfolding require_account_def by (intro emits_intro)

lemma silent_list_loans_for_market [emits_intro]: "silent (list_loans_for_market c y pid m)"
  unfolding list_loans_for_market_def by (intro emits_intro)

lemma silent_read_pending_matched_loans [emits_intro]: "silent (read_pending_matched_loans c y m)"
  unfolding read_pending_matched_loans_def Let_def by (intro emits_intro)

lemma silent_list_sub_vaults [emits_intro]: "silent (list_sub_vaults c y pid)"
  unfolding list_sub_vaults_def by (intro emits_intro)

lemma silent_list_pending_vault_claims [emits_intro]: "silent (list_pending_vault_claims c y ms)"
  unfolding list_pending_vault_claims_def by (intro emits_intro)

lemma silent_market_is_rate_crossed [emits_intro]: "silent (market_is_rate_crossed c y m)"
  unfolding market_is_rate_crossed_def by (intro emits_intro)

lemma keeps_program_accounts [keeps_intro]: "keeps_own (program_accounts c pid fs)"
  unfolding program_accounts_def by (intro keeps_intro)

lemma keeps_list_markets [keeps_intro]: "keeps_own (list_markets c y pid)"
  unfolding list_markets_def markets_cache_get_def markets_cache_stale_def markets_cache_put_def
    fetch_markets_def
  by (intro keeps_intro)

lemma keeps_require_account [keeps_intro]: "keeps_own (require_account c e pk)"
  unfolding require_account_def by (intro keeps_intro)

lemma keeps_list_loans_for_market [keeps_intro]: "keeps_own (list_loans_for_market c y pid m)"
  unfolding list_loans_for_market_def by (intro keeps_intro)

lemma keeps_read_pending_matched_loans [keeps_intro]: "keeps_own (read_pending_matched_loans c y m)"
  unfolding read_pending_matched_loans_def Let_def by (intro keeps_intro)

lemma keeps_list_sub_vaults [keeps_intro]: "keeps_own (list_sub_vaults c y pid)"
  unfolding list_sub_vaults_def by (intro keeps_intro)

lemma keeps_list_pending_vault_claims [keeps_intro]: "keeps_own (list_pending_vault_claims c y ms)"
  unfolding list_pending_vault_claims_def by (intro keeps_intro)

lemma keeps_market_is_rate_crossed [keeps_intro]: "keeps_own (market_is_rate_crossed c y m)"
  unfolding market_is_rate_crossed_def by (intro keeps_intro)

section \<open>The market listing and its cache\<close>

text \<open>
  C30. Provided that \<open>bytemuck\<close> accepts every header-sized slice, the market listing is
  total: it is sorted by address and holds, with multiplicity, one view for each account of
  full size with the market discriminator. Malformed accounts are skipped, never an error.
\<close>

theorem decode_markets_correct:
  assumes "\<And>b. length b = MARKET_FIXED_SIZE y \<Longrightarrow> cast_market y b \<noteq> None"
  shows "\<exists>ms. decode_markets y accts = Ok ms \<and> sorted (map mv_address ms) \<and>
    mset ms = mset (concat (map (\<lambda>(pk, acct).
       if MARKET_FIXED_SIZE y \<le> length (acct_data acct) then
         (case cast_market y (take (MARKET_FIXED_SIZE y) (acct_data acct)) of
            Some m \<Rightarrow> if mf_discriminator m = MARKET_FIXED_DISCRIMINANT y
                      then [market_view_from_fixed pk m] else []
          | None \<Rightarrow> [])
       else []) accts))"
proof -
  have "List.map_filter (\<lambda>(pk, acct). map_option (market_view_from_fixed pk) (market.readable y (acct_data acct))) accts
    = concat (map (\<lambda>(pk, acct).
       if MARKET_FIXED_SIZE y \<le> length (acct_data acct) then
         (case cast_market y (take (MARKET_FIXED_SIZE y) (acct_data acct)) of
            Some m \<Rightarrow> if mf_discriminator m = MARKET_FIXED_DISCRIMINANT y
                      then [market_view_from_fixed pk m] else []
          | None \<Rightarrow> [])
       else []) accts)"
    by (induction accts) (auto simp: map_filter_simps market.readable_def split: option.splits if_splits)
  then show ?thesis
    by (simp add: decode_markets_def market.collect_views [of y market_view_from_fixed accts] assms)
qed

lemma decode_markets_sorted: "decode_markets y accts = Ok ms \<Longrightarrow> sorted (map mv_address ms)"
  by (auto simp: decode_markets_def rbind_Ok_iff)

lemma fetch_markets_sorted: "fetch_markets c y pid s = (Ok ms, s') \<Longrightarrow> sorted (map mv_address ms)"
  by (auto simp: fetch_markets_def program_accounts_def prog_run decode_markets_sorted
      split: prod.splits rresult.splits)

text \<open>A snapshot worth serving.\<close>

definition has_snapshot :: "shared \<Rightarrow> bool" where
  "has_snapshot sh = (case markets_cache sh of
       Healthy (Some m) \<Rightarrow> cached_markets m \<noteq> [] \<and> sorted (map mv_address (cached_markets m))
     | _ \<Rightarrow> False)"

lemma has_snapshotE:
  assumes "has_snapshot sh"
  obtains m where "markets_cache sh = Healthy (Some m)" "cached_markets m \<noteq> []"
    "sorted (map mv_address (cached_markets m))"
  using assms by (auto simp: has_snapshot_def split: lock.splits option.splits)

lemma preserves_fetch_markets [preserves_intro]: "rely c I \<Longrightarrow> preserves I (fetch_markets c y pid)"
  unfolding fetch_markets_def program_accounts_def by (intro preserves_intro)

lemma markets_cache_get_run:
  assumes "markets_cache_get c s = (r, s')"
  shows "shm s' = shm s \<and>
    (\<forall>ms. r = Some ms \<longrightarrow> (\<exists>m. markets_cache (shm s) = Healthy (Some m) \<and> ms = cached_markets m))"
  using assms
  by (auto simp: markets_cache_get_def prog_run split: lock.splits option.splits prod.splits if_splits)

lemma markets_cache_put_run:
  assumes "has_snapshot (shm s)" "ms \<noteq> []" "sorted (map mv_address ms)" "markets_cache_put c ms s = (r, s')"
  shows "has_snapshot (shm s')"
  using assms
  by (auto simp: markets_cache_put_def has_snapshot_def prog_run
      split: lock.splits option.splits prod.splits if_splits)

text \<open>
  C17. Once a non-empty snapshot of the markets is cached and no other task destroys it,
  \<open>list_markets\<close> leaves one in place, and every listing it returns is non-empty and
  sorted: an empty answer of the node is never served and never replaces the snapshot.
\<close>

theorem list_markets_never_wiped:
  assumes "rely c has_snapshot" "has_snapshot (shm s)" "list_markets c y pid s = (r, s')"
  shows "has_snapshot (shm s') \<and> (\<forall>ms. r = Ok ms \<longrightarrow> ms \<noteq> [] \<and> sorted (map mv_address ms))"
proof -
  obtain hit s1 where g: "markets_cache_get c s = (hit, s1)" by fastforce
  note G = markets_cache_get_run [OF g]
  obtain f s2 where f: "fetch_markets c y pid s1 = (f, s2)" by fastforce
  have P: "preserves has_snapshot (fetch_markets c y pid :: ('a, 'b, market_view list res) prog)"
    using assms(1) by (rule preserves_fetch_markets)
  have s2: "has_snapshot (shm s2)"
    using assms(2) f G P unfolding preserves_def by (metis snd_conv)
  show ?thesis
  proof (cases hit)
    case (Some ms)
    then show ?thesis using assms(2,3) g G
      by (auto simp: list_markets_def prog_run elim: has_snapshotE)
  next
    case None
    show ?thesis
    proof (cases f)
      case (Ok fresh)
      then have "sorted (map mv_address fresh)" using f fetch_markets_sorted by blast
      moreover obtain m where "markets_cache (shm s2) = Healthy (Some m)" "cached_markets m \<noteq> []"
        "sorted (map mv_address (cached_markets m))"
        using has_snapshotE [OF s2] .
      ultimately show ?thesis
        using assms(3) g None f Ok s2 markets_cache_put_run [OF s2, of fresh c]
        by (auto simp: list_markets_def prog_run markets_cache_stale_def split: if_splits prod.splits)
    qed (use assms(3) g None f s2 in \<open>auto simp: list_markets_def prog_run\<close>)
  qed
qed

text \<open>
  A snapshot younger than 30 seconds is served as it is: the call reads the clock,
  asks the node nothing and changes no memory.
\<close>

lemma list_markets_cache_hit:
  assumes "markets_cache (shm s) = Healthy (Some m)" "c_instant c (world s) = (now, w)"
    "now - fetched_at m < 30 * 10 ^ 9"
  shows "list_markets c y pid s = (Ok (cached_markets m), s\<lparr>world := w\<rparr>)"
  using assms by (simp add: list_markets_def markets_cache_get_def MARKET_CACHE_TTL_def prog_run)

section \<open>Rows for the handlers\<close>

lemma claims_of_market_row:
  assumes "claims_of_market y market d = Ok rows" "row \<in> set rows"
  shows "pc_market row = mv_address market \<and> pc_debt_mint row = mv_debt_mint market \<and>
    pc_debt_bank row = mv_debt_bank market \<and> pc_debt_withdrawable_shares row \<noteq> 0"
  using assms
  by (auto simp: claims_of_market_def rbind_Ok_iff split: option.splits rresult.splits if_splits)

text \<open>
  C31. Every row the claimer is given belongs to a market of the listing that is not paused,
  carries that market's debt mint and bank, and has shares left to sweep.
\<close>

theorem pending_claims_sound:
  assumes "list_pending_vault_claims c y markets s = (Ok rows, s')"
  shows "\<forall>row \<in> set rows. pc_debt_withdrawable_shares row \<noteq> 0 \<and>
    (\<exists>m \<in> set markets. \<not> mv_is_paused m \<and> pc_market row = mv_address m \<and>
       pc_debt_mint row = mv_debt_mint m \<and> pc_debt_bank row = mv_debt_bank m)"
proof -
  let ?step = "\<lambda>market out.
        if mv_is_paused market then pdone (Ok out)
        else pbind (get_account_data c (mv_address market)) (\<lambda>data.
          pdone (rbind (claims_of_market y market data) (\<lambda>rows. Ok (out @ rows))))"
  have "row \<in> set out \<or> (pc_debt_withdrawable_shares row \<noteq> 0 \<and>
      (\<exists>m \<in> set markets. \<not> mv_is_paused m \<and> pc_market row = mv_address m \<and>
         pc_debt_mint row = mv_debt_mint m \<and> pc_debt_bank row = mv_debt_bank m))"
    if "pfor ?step markets out s = (Ok rows, s')" "row \<in> set rows" for row out
    using that
  proof (induction markets arbitrary: out s)
    case (Cons m ms)
    obtain q s1 where q: "?step m out s = (q, s1)" by fastforce
    with Cons.prems obtain out1 where o1: "q = Ok out1" "pfor ?step ms out1 s1 = (Ok rows, s')"
      by (auto simp: pbind_run split: rresult.splits)
    show ?case
    proof (cases "mv_is_paused m")
      case True
      then show ?thesis using q o1 Cons.IH [OF o1(2)] Cons.prems(2) by (auto simp: pdone_def)
    next
      case False
      then obtain d new where new: "claims_of_market y m d = Ok new" "out1 = out @ new"
        using q o1(1) by (auto simp: pbind_run pdone_def rbind_Ok_iff split: rresult.splits prod.splits)
      from Cons.IH [OF o1(2) Cons.prems(2)] show ?thesis
        using False claims_of_market_row [OF new(1)] unfolding new(2) by auto
    qed
  qed (auto simp: pdone_def)
  from this [of "[]"] show ?thesis using assms by (auto simp: list_pending_vault_claims_def)
qed

text \<open>
  C32. The match gate says yes exactly when both sides have a best order and the best bid's
  rate is at least the best ask's; a market without bids or without asks is not crossed.
\<close>

theorem rate_crossed_correct:
  assumes "c_get_account c market (world s) = (Inr acct, w)" "acct_data acct \<noteq> []"
    "decode_market_fixed y (acct_data acct) = Ok fixed"
    "mf_bids_best_index fixed \<noteq> NIL y \<Longrightarrow>
       get_helper_order y (drop (MARKET_FIXED_SIZE y) (acct_data acct)) (mf_bids_best_index fixed) = Some bid"
    "mf_asks_best_index fixed \<noteq> NIL y \<Longrightarrow>
       get_helper_order y (drop (MARKET_FIXED_SIZE y) (acct_data acct)) (mf_asks_best_index fixed) = Some ask"
  shows "fst (market_is_rate_crossed c y market s) =
    Ok (mf_bids_best_index fixed \<noteq> NIL y \<and> mf_asks_best_index fixed \<noteq> NIL y \<and>
        unat (ro_rate_bps ask) \<le> unat (ro_rate_bps bid))"
  using assms
  by (auto simp: market_is_rate_crossed_def require_account_def get_account_data_def split_market_def
      prog_run word_le_nat_alt)

end
