(* ===== verification/Marginfi_Bank.thy ===== *)
theory Marginfi_Bank
  imports Crank_World
begin

text \<open>
  \<open>marginfi_bank.rs\<close>: the decoder of the marginfi \<open>Bank\<close> account, which reads fixed
  offsets of the account's bytes. Every index expression of the source that could be out
  of range is modelled as one that panics; \<open>try_from_account_data\<close> is shown never to.
  The documented field-by-field layout of the account is written down separately
  (\<open>bank_layout\<close>), and the decoder is shown to read it.
\<close>

section \<open>Offsets\<close>

definition DISCRIMINATOR_LEN :: nat where "DISCRIMINATOR_LEN = 8"
definition BANK_ACCOUNT_SIZE :: nat where "BANK_ACCOUNT_SIZE = 1864"
definition BANK_BODY_SIZE :: nat where "BANK_BODY_SIZE = 1856"
definition OFF_MINT :: nat where "OFF_MINT = 0"
definition OFF_ASSET_SHARE_VALUE :: nat where "OFF_ASSET_SHARE_VALUE = 72"
definition OFF_LIABILITY_SHARE_VALUE :: nat where "OFF_LIABILITY_SHARE_VALUE = 88"
definition OFF_LIQUIDITY_VAULT :: nat where "OFF_LIQUIDITY_VAULT = 104"
definition OFF_LVA_BUMP :: nat where "OFF_LVA_BUMP = 137"
definition OFF_TOTAL_LIABILITY_SHARES :: nat where "OFF_TOTAL_LIABILITY_SHARES = 248"
definition OFF_TOTAL_ASSET_SHARES :: nat where "OFF_TOTAL_ASSET_SHARES = 264"
definition BANK_CONFIG_OFFSET :: nat where "BANK_CONFIG_OFFSET = 288"
definition OFF_INTEREST_RATE_CONFIG :: nat where "OFF_INTEREST_RATE_CONFIG = BANK_CONFIG_OFFSET + 72"
definition OFF_OPTIMAL_UTIL :: nat where "OFF_OPTIMAL_UTIL = OFF_INTEREST_RATE_CONFIG"
definition OFF_PLATEAU :: nat where "OFF_PLATEAU = OFF_INTEREST_RATE_CONFIG + 16"
definition OFF_MAX_IR :: nat where "OFF_MAX_IR = OFF_INTEREST_RATE_CONFIG + 32"
definition OFF_PROTOCOL_IR_FEE :: nat where "OFF_PROTOCOL_IR_FEE = OFF_INTEREST_RATE_CONFIG + 96"
definition OFF_ZERO_UTIL_RATE :: nat where "OFF_ZERO_UTIL_RATE = OFF_INTEREST_RATE_CONFIG + 128"
definition OFF_HUNDRED_UTIL_RATE :: nat where "OFF_HUNDRED_UTIL_RATE = OFF_INTEREST_RATE_CONFIG + 132"
definition OFF_POINTS :: nat where "OFF_POINTS = OFF_INTEREST_RATE_CONFIG + 136"
definition OFF_CURVE_TYPE :: nat where "OFF_CURVE_TYPE = OFF_INTEREST_RATE_CONFIG + 176"
definition NUM_CURVE_POINTS :: nat where "NUM_CURVE_POINTS = 5"
definition OFF_ORACLE_SETUP :: nat where "OFF_ORACLE_SETUP = BANK_CONFIG_OFFSET + 313"
definition OFF_ORACLE_KEYS :: nat where "OFF_ORACLE_KEYS = BANK_CONFIG_OFFSET + 314"
definition MAX_ORACLE_KEYS :: nat where "MAX_ORACLE_KEYS = 5"

definition BANK_DISCRIMINATOR :: bytes where
  "BANK_DISCRIMINATOR = [142, 49, 166, 242, 50, 66, 97, 188]"

lemmas bank_offsets =
  DISCRIMINATOR_LEN_def BANK_ACCOUNT_SIZE_def BANK_BODY_SIZE_def OFF_MINT_def
  OFF_ASSET_SHARE_VALUE_def OFF_LIABILITY_SHARE_VALUE_def OFF_LIQUIDITY_VAULT_def
  OFF_LVA_BUMP_def OFF_TOTAL_LIABILITY_SHARES_def OFF_TOTAL_ASSET_SHARES_def
  BANK_CONFIG_OFFSET_def OFF_INTEREST_RATE_CONFIG_def OFF_OPTIMAL_UTIL_def OFF_PLATEAU_def
  OFF_MAX_IR_def OFF_PROTOCOL_IR_FEE_def OFF_ZERO_UTIL_RATE_def OFF_HUNDRED_UTIL_RATE_def
  OFF_POINTS_def OFF_CURVE_TYPE_def NUM_CURVE_POINTS_def OFF_ORACLE_SETUP_def
  OFF_ORACLE_KEYS_def MAX_ORACLE_KEYS_def

section \<open>The decoder\<close>

record bank_view =
  bv_mint :: pubkey
  bv_liquidity_vault :: pubkey
  bv_lva_bump :: u8
  bv_asset_share_value_fp48 :: i128
  bv_liability_share_value_fp48 :: i128
  bv_total_asset_shares_fp48 :: i128
  bv_total_liability_shares_fp48 :: i128
  bv_optimal_utilization_fp48 :: i128
  bv_plateau_interest_rate_fp48 :: i128
  bv_max_interest_rate_fp48 :: i128
  bv_protocol_ir_fee_fp48 :: i128
  bv_curve_type :: u8
  bv_zero_util_rate_u32 :: u32
  bv_hundred_util_rate_u32 :: u32
  bv_points :: "(u32 \<times> u32) list"
  bv_oracle_setup :: u8
  bv_oracles :: "pubkey list"

definition read_pubkey :: "bytes \<Rightarrow> nat \<Rightarrow> pubkey res" where
  "read_pubkey body off = rbind (or_panic (get_slice body off (off + 32))) (\<lambda>b. Ok (Pubkey b))"

definition read_i128 :: "bytes \<Rightarrow> nat \<Rightarrow> i128 res" where
  "read_i128 body off = rbind (or_panic (get_slice body off (off + 16))) (\<lambda>b. Ok (from_le_bytes b))"

definition read_u32 :: "bytes \<Rightarrow> nat \<Rightarrow> u32 res" where
  "read_u32 body off = rbind (or_panic (get_slice body off (off + 4))) (\<lambda>b. Ok (from_le_bytes b))"

definition read_u8 :: "bytes \<Rightarrow> nat \<Rightarrow> u8 res" where
  "read_u8 body off = (if off < length body then Ok (body ! off) else Panic)"

definition read_point :: "bytes \<Rightarrow> nat \<Rightarrow> (u32 \<times> u32) res" where
  "read_point body off =
     rbind (read_u32 body off) (\<lambda>util. rbind (read_u32 body (off + 4)) (\<lambda>rate. Ok (util, rate)))"

definition read_points :: "bytes \<Rightarrow> (u32 \<times> u32) list res" where
  "read_points body = rmap (\<lambda>i. read_point body (OFF_POINTS + i * 8)) [0..<NUM_CURVE_POINTS]"

definition read_oracles :: "bytes \<Rightarrow> pubkey list res" where
  "read_oracles body =
     rbind (rmap (\<lambda>i. read_pubkey body (OFF_ORACLE_KEYS + i * 32)) [0..<MAX_ORACLE_KEYS])
       (\<lambda>pks. Ok (filter (\<lambda>pk. pk \<noteq> default_pubkey) pks))"

definition read_body :: "bytes \<Rightarrow> bank_view res" where
  "read_body body =
     rbind (read_pubkey body OFF_MINT) (\<lambda>mint.
     rbind (read_pubkey body OFF_LIQUIDITY_VAULT) (\<lambda>liquidity_vault.
     rbind (read_u8 body OFF_LVA_BUMP) (\<lambda>lva_bump.
     rbind (read_i128 body OFF_ASSET_SHARE_VALUE) (\<lambda>asset_share_value.
     rbind (read_i128 body OFF_LIABILITY_SHARE_VALUE) (\<lambda>liability_share_value.
     rbind (read_i128 body OFF_TOTAL_ASSET_SHARES) (\<lambda>total_asset_shares.
     rbind (read_i128 body OFF_TOTAL_LIABILITY_SHARES) (\<lambda>total_liability_shares.
     rbind (read_i128 body OFF_OPTIMAL_UTIL) (\<lambda>optimal_utilization.
     rbind (read_i128 body OFF_PLATEAU) (\<lambda>plateau.
     rbind (read_i128 body OFF_MAX_IR) (\<lambda>max_ir.
     rbind (read_i128 body OFF_PROTOCOL_IR_FEE) (\<lambda>protocol_ir_fee.
     rbind (read_u8 body OFF_CURVE_TYPE) (\<lambda>curve_type.
     rbind (read_u32 body OFF_ZERO_UTIL_RATE) (\<lambda>zero_util_rate.
     rbind (read_u32 body OFF_HUNDRED_UTIL_RATE) (\<lambda>hundred_util_rate.
     rbind (read_points body) (\<lambda>points.
     rbind (read_u8 body OFF_ORACLE_SETUP) (\<lambda>oracle_setup.
     rbind (read_oracles body) (\<lambda>oracles.
       Ok \<lparr>bv_mint = mint, bv_liquidity_vault = liquidity_vault, bv_lva_bump = lva_bump,
           bv_asset_share_value_fp48 = asset_share_value,
           bv_liability_share_value_fp48 = liability_share_value,
           bv_total_asset_shares_fp48 = total_asset_shares,
           bv_total_liability_shares_fp48 = total_liability_shares,
           bv_optimal_utilization_fp48 = optimal_utilization,
           bv_plateau_interest_rate_fp48 = plateau,
           bv_max_interest_rate_fp48 = max_ir,
           bv_protocol_ir_fee_fp48 = protocol_ir_fee,
           bv_curve_type = curve_type,
           bv_zero_util_rate_u32 = zero_util_rate,
           bv_hundred_util_rate_u32 = hundred_util_rate,
           bv_points = points, bv_oracle_setup = oracle_setup,
           bv_oracles = oracles\<rparr>)))))))))))))))))"

definition try_from_account_data :: "bytes \<Rightarrow> bank_view res" where
  "try_from_account_data data =
     (if length data < BANK_ACCOUNT_SIZE
      then Err (BankErr (BankTooSmall (length data) BANK_ACCOUNT_SIZE))
      else rbind (or_panic (get_slice data 0 DISCRIMINATOR_LEN)) (\<lambda>disc.
        if disc \<noteq> BANK_DISCRIMINATOR then Err (BankErr BankDiscriminatorMismatch)
        else rbind (or_panic (get_slice data DISCRIMINATOR_LEN (DISCRIMINATOR_LEN + BANK_BODY_SIZE)))
               read_body))"

section \<open>The documented layout\<close>

text \<open>
  The account as the layout table of the source lists it: the fields the cranker reads,
  typed, and the others (\<open>gap1\<close> to \<open>gap9\<close>) as raw bytes of the documented total width.
\<close>

record bank_layout =
  bl_mint :: pubkey
  bl_gap1 :: bytes \<comment> \<open>mint_decimals, group, _pad0: 40\<close>
  bl_asset_share_value :: i128
  bl_liability_share_value :: i128
  bl_liquidity_vault :: pubkey
  bl_liquidity_vault_bump :: u8
  bl_lva_bump :: u8
  bl_gap2 :: bytes \<comment> \<open>insurance vault, fees, fee vault, group fees: 110\<close>
  bl_total_liability_shares :: i128
  bl_total_asset_shares :: i128
  bl_gap3 :: bytes \<comment> \<open>last_update, asset and liability weights, deposit_limit: 80\<close>
  bl_optimal_utilization_rate :: i128
  bl_plateau_interest_rate :: i128
  bl_max_interest_rate :: i128
  bl_gap4 :: bytes \<comment> \<open>insurance_fee_fixed_apr, insurance_ir_fee, protocol_fixed_fee_apr: 48\<close>
  bl_protocol_ir_fee :: i128
  bl_gap5 :: bytes \<comment> \<open>protocol_origination_fee: 16\<close>
  bl_zero_util_rate :: u32
  bl_hundred_util_rate :: u32
  bl_points :: "(u32 \<times> u32) list" \<comment> \<open>5 points\<close>
  bl_curve_type :: u8
  bl_gap6 :: bytes \<comment> \<open>paddings, operational_state: 64\<close>
  bl_oracle_setup :: u8
  bl_oracle_keys :: "pubkey list" \<comment> \<open>5 keys\<close>
  bl_gap7 :: bytes \<comment> \<open>the rest of the 1856-byte body: 1094\<close>

definition wf_layout :: "bank_layout \<Rightarrow> bool" where
  "wf_layout l \<longleftrightarrow>
     length (to_bytes (bl_mint l)) = 32 \<and> length (bl_gap1 l) = 40 \<and>
     length (to_bytes (bl_liquidity_vault l)) = 32 \<and> length (bl_gap2 l) = 110 \<and>
     length (bl_gap3 l) = 80 \<and> length (bl_gap4 l) = 48 \<and> length (bl_gap5 l) = 16 \<and>
     length (bl_points l) = 5 \<and> length (bl_gap6 l) = 64 \<and>
     length (bl_oracle_keys l) = 5 \<and> (\<forall>k \<in> set (bl_oracle_keys l). length (to_bytes k) = 32) \<and>
     length (bl_gap7 l) = 1094"

fun encode_point :: "u32 \<times> u32 \<Rightarrow> bytes" where
  "encode_point (u, r) = to_le_bytes u @ to_le_bytes r"

definition encode_bank :: "bank_layout \<Rightarrow> bytes" where
  "encode_bank l =
     to_bytes (bl_mint l) @ bl_gap1 l @ to_le_bytes (bl_asset_share_value l) @
     to_le_bytes (bl_liability_share_value l) @ to_bytes (bl_liquidity_vault l) @
     [bl_liquidity_vault_bump l, bl_lva_bump l] @ bl_gap2 l @
     to_le_bytes (bl_total_liability_shares l) @ to_le_bytes (bl_total_asset_shares l) @
     bl_gap3 l @ to_le_bytes (bl_optimal_utilization_rate l) @
     to_le_bytes (bl_plateau_interest_rate l) @ to_le_bytes (bl_max_interest_rate l) @
     bl_gap4 l @ to_le_bytes (bl_protocol_ir_fee l) @ bl_gap5 l @
     to_le_bytes (bl_zero_util_rate l) @ to_le_bytes (bl_hundred_util_rate l) @
     concat (map encode_point (bl_points l)) @ [bl_curve_type l] @ bl_gap6 l @ [bl_oracle_setup l] @
     concat (map to_bytes (bl_oracle_keys l)) @ bl_gap7 l"

definition view_of_layout :: "bank_layout \<Rightarrow> bank_view" where
  "view_of_layout l =
     \<lparr>bv_mint = bl_mint l, bv_liquidity_vault = bl_liquidity_vault l, bv_lva_bump = bl_lva_bump l,
      bv_asset_share_value_fp48 = bl_asset_share_value l,
      bv_liability_share_value_fp48 = bl_liability_share_value l,
      bv_total_asset_shares_fp48 = bl_total_asset_shares l,
      bv_total_liability_shares_fp48 = bl_total_liability_shares l,
      bv_optimal_utilization_fp48 = bl_optimal_utilization_rate l,
      bv_plateau_interest_rate_fp48 = bl_plateau_interest_rate l,
      bv_max_interest_rate_fp48 = bl_max_interest_rate l,
      bv_protocol_ir_fee_fp48 = bl_protocol_ir_fee l,
      bv_curve_type = bl_curve_type l,
      bv_zero_util_rate_u32 = bl_zero_util_rate l,
      bv_hundred_util_rate_u32 = bl_hundred_util_rate l,
      bv_points = bl_points l, bv_oracle_setup = bl_oracle_setup l,
      bv_oracles = filter (\<lambda>k. k \<noteq> default_pubkey) (bl_oracle_keys l)\<rparr>"

section \<open>Fixed-width fields\<close>

text \<open>
  What a field reader promises: it returns what the encoder wrote at that offset, and it
  panics exactly where the field does not fit.
\<close>

locale field_codec =
  fixes read :: "bytes \<Rightarrow> nat \<Rightarrow> 'a res"
    and put :: "'a \<Rightarrow> bytes"
    and width :: nat
    and valid :: "'a \<Rightarrow> bool"
  assumes read_at: "valid v \<Longrightarrow> off + width \<le> length body \<Longrightarrow> take width (drop off body) = put v \<Longrightarrow>
      read body off = Ok v"
    and read_total: "off + width \<le> length body \<Longrightarrow>
      \<exists>v. read body off = Ok v \<and> valid v \<and> take width (drop off body) = put v"
    and read_range: "length body < off + width \<Longrightarrow> read body off = Panic"
    and put_length: "valid v \<Longrightarrow> length (put v) = width"
begin

lemma read_ok_iff: "(\<exists>v. read body off = Ok v) \<longleftrightarrow> off + width \<le> length body"
  using read_total [of off body] read_range [of body off] by fastforce

lemma read_put: "valid v \<Longrightarrow> length pre = off \<Longrightarrow> read (pre @ put v @ post) off = Ok v"
  by (rule read_at) (simp_all add: put_length)

lemma read_append:
  assumes "off + width \<le> length body"
  shows "read (body @ extra) off = read body off"
proof -
  obtain v where v: "read body off = Ok v" "valid v" "take width (drop off body) = put v"
    using read_total [OF assms] by blast
  have "read (body @ extra) off = Ok v"
    by (rule read_at) (use v assms in simp_all)
  with v show ?thesis by simp
qed

text \<open>An array of fields, read in a loop.\<close>

lemma length_puts: "(\<forall>v \<in> set vs. valid v) \<Longrightarrow> length (concat (map put vs)) = length vs * width"
  by (induction vs) (auto simp: put_length)

lemma read_array:
  assumes "\<forall>v \<in> set vs. valid v" "off + length vs * width \<le> length body"
    and "take (length vs * width) (drop off body) = concat (map put vs)"
  shows "rmap (\<lambda>i. read body (off + i * width)) [0..<length vs] = Ok vs"
proof -
  have item: "read body (off + i * width) = Ok (vs ! i)" if i: "i < length vs" for i
  proof (rule read_at)
    show "valid (vs ! i)" using assms(1) i by simp
    have room: "i * width + width \<le> length vs * width"
      using i by (metis Suc_leI mult_Suc mult_le_mono1 add.commute)
    with assms(2) show "off + i * width + width \<le> length body" by simp
    have "take width (drop (i * width) (concat (map put vs))) = put (vs ! i)"
    proof -
      have "concat (map put vs) = concat (map put (take i vs)) @ put (vs ! i) @ concat (map put (drop (Suc i) vs))"
        using i by (metis append_assoc concat_append concat.simps list.map map_append append_Nil2 id_take_nth_drop)
      moreover have "length (concat (map put (take i vs))) = i * width"
        using assms(1) i by (subst length_puts) (auto dest: in_set_takeD)
      ultimately show ?thesis using put_length [OF \<open>valid (vs ! i)\<close>] by simp
    qed
    moreover have "take width (drop (i * width) (take (length vs * width) (drop off body)))
        = take width (drop (off + i * width) body)"
      using room by (simp add: drop_take take_take min_def add.commute)
    ultimately show "take width (drop (off + i * width) body) = put (vs ! i)"
      using assms(3) by simp
  qed
  then have "rmap (\<lambda>i. read body (off + i * width)) [0..<length vs] = Ok (map ((!) vs) [0..<length vs])"
    by (intro rmap_Ok) simp
  then show ?thesis by (simp add: map_nth)
qed

end

text \<open>The readers of the decoder satisfy the contract.\<close>

lemma to_from_le_bytes_word:
  fixes b :: bytes
  assumes "8 * length b = LENGTH('a::len)"
  shows "to_le_bytes (from_le_bytes b :: 'a word) = b"
proof -
  have le: "le_bytes (length b) (le_nat b) = b" for b :: bytes
  proof (induction b)
    case (Cons x xs)
    have "unat x < 256" using unat_less_exp [of x] by simp
    with Cons show ?case by simp
  qed simp
  have "(256 :: nat) ^ length b = 2 ^ LENGTH('a)"
    using assms power_mult [of "2::nat" 8 "length b"] by simp
  then have "unat (word_of_nat (le_nat b) :: 'a word) = le_nat b"
    using le_nat_less [of b] by (simp add: unat_of_nat)
  moreover have "LENGTH('a) div 8 = length b"
    using assms by (metis nonzero_mult_div_cancel_left zero_neq_numeral)
  ultimately show ?thesis by (simp add: to_le_bytes_def from_le_bytes_def le)
qed

interpretation pubkey_field: field_codec read_pubkey to_bytes 32 "\<lambda>k. length (to_bytes k) = 32"
  by unfold_locales (auto simp: read_pubkey_def get_slice_def)

interpretation i128_field: field_codec read_i128 to_le_bytes 16 "\<lambda>_. True"
proof unfold_locales
  fix v :: i128 and off body
  assume "off + 16 \<le> length body" "take 16 (drop off body) = to_le_bytes v"
  then show "read_i128 body off = Ok v"
    by (simp add: read_i128_def from_to_le_bytes [where k = 16])
next
  fix off and body :: bytes
  assume "off + 16 \<le> length body"
  then show "\<exists>v. read_i128 body off = Ok v \<and> True \<and> take 16 (drop off body) = to_le_bytes v"
    by (simp add: read_i128_def to_from_le_bytes_word)
qed (simp_all add: read_i128_def get_slice_def)

interpretation u32_field: field_codec read_u32 to_le_bytes 4 "\<lambda>_. True"
proof unfold_locales
  fix v :: u32 and off body
  assume "off + 4 \<le> length body" "take 4 (drop off body) = to_le_bytes v"
  then show "read_u32 body off = Ok v"
    by (simp add: read_u32_def from_to_le_bytes [where k = 4])
next
  fix off and body :: bytes
  assume "off + 4 \<le> length body"
  then show "\<exists>v. read_u32 body off = Ok v \<and> True \<and> take 4 (drop off body) = to_le_bytes v"
    by (simp add: read_u32_def to_from_le_bytes_word)
qed (simp_all add: read_u32_def get_slice_def)

interpretation u8_field: field_codec read_u8 "\<lambda>b. [b]" 1 "\<lambda>_. True"
proof unfold_locales
  fix off and body :: bytes
  assume "off + 1 \<le> length body"
  then have "take 1 (drop off body) = [body ! off]"
    by (cases "drop off body") (auto simp: nth_via_drop)
  then show "\<exists>v. read_u8 body off = Ok v \<and> True \<and> take 1 (drop off body) = [v]"
    using \<open>off + 1 \<le> length body\<close> by (simp add: read_u8_def)
next
  fix v off and body :: bytes
  assume "off + 1 \<le> length body" "take 1 (drop off body) = [v]"
  then show "read_u8 body off = Ok v"
    by (cases "drop off body") (auto simp: read_u8_def nth_via_drop)
qed (simp_all add: read_u8_def)

interpretation point_field: field_codec read_point encode_point 8 "\<lambda>_. True"
proof unfold_locales
  fix off and body :: bytes
  assume r: "off + 8 \<le> length body"
  then obtain u w where u: "read_u32 body off = Ok u" "take 4 (drop off body) = to_le_bytes u"
    and w: "read_u32 body (off + 4) = Ok w" "take 4 (drop (off + 4) body) = to_le_bytes w"
    using u32_field.read_total [of off body] u32_field.read_total [of "off + 4" body] by auto
  have "take 8 (drop off body) = take 4 (drop off body) @ take 4 (drop (off + 4) body)"
    by (metis add.commute drop_drop numeral_Bit0 take_add)
  with u w show "\<exists>v. read_point body off = Ok v \<and> True \<and> take 8 (drop off body) = encode_point v"
    by (intro exI [of _ "(u, w)"]) (simp add: read_point_def)
next
  fix v :: "u32 \<times> u32" and off body
  assume r: "off + 8 \<le> length body" and t: "take 8 (drop off body) = encode_point v"
  obtain u w where v: "v = (u, w)" by fastforce
  have "take 8 (drop off body) = take 4 (drop off body) @ take 4 (drop (off + 4) body)"
    by (metis add.commute drop_drop numeral_Bit0 take_add)
  with t v r have "take 4 (drop off body) = to_le_bytes u" "take 4 (drop (off + 4) body) = to_le_bytes w"
    by (simp_all add: append_eq_append_conv)
  with r v show "read_point body off = Ok v"
    by (simp add: read_point_def u32_field.read_at [of off body u] u32_field.read_at [of "off + 4" body w])
next
  fix off and body :: bytes
  assume "length body < off + 8"
  then show "read_point body off = Panic"
    using u32_field.read_range [of body "off + 4"] u32_field.read_total [of off body]
      u32_field.read_range [of body off]
    by (cases "off + 4 \<le> length body") (auto simp: read_point_def)
qed auto

section \<open>Correctness of the decoder\<close>

lemma rmap_total:
  assumes "\<And>x. x \<in> set xs \<Longrightarrow> \<exists>y. f x = Ok y"
  shows "\<exists>ys. rmap f xs = Ok ys"
  using assms
proof (induction xs)
  case (Cons x xs)
  then obtain y ys where "f x = Ok y" "rmap f xs = Ok ys" by fastforce
  then show ?case by simp
qed simp

lemma read_points_total: "1856 \<le> length body \<Longrightarrow> \<exists>ps. read_points body = Ok ps"
  unfolding read_points_def
  by (rule rmap_total) (unfold point_field.read_ok_iff, simp add: bank_offsets)

lemma read_oracles_total:
  assumes "1856 \<le> length body"
  shows "\<exists>ks. read_oracles body = Ok ks"
proof -
  have "\<exists>ks. rmap (\<lambda>i. read_pubkey body (OFF_ORACLE_KEYS + i * 32)) [0..<MAX_ORACLE_KEYS] = Ok ks"
    by (rule rmap_total) (use assms in \<open>simp add: pubkey_field.read_ok_iff bank_offsets\<close>)
  then show ?thesis by (auto simp: read_oracles_def)
qed

lemma read_oracles_bound:
  "read_oracles body = Ok ks \<Longrightarrow> length ks \<le> 5 \<and> default_pubkey \<notin> set ks"
proof -
  assume "read_oracles body = Ok ks"
  then obtain pks where "rmap (\<lambda>i. read_pubkey body (OFF_ORACLE_KEYS + i * 32)) [0..<MAX_ORACLE_KEYS] = Ok pks"
    and ks: "ks = filter (\<lambda>pk. pk \<noteq> default_pubkey) pks"
    by (auto simp: read_oracles_def rbind_Ok_iff)
  then have "length pks = 5" using rmap_Ok_length by (fastforce simp: bank_offsets)
  then have "length ks \<le> 5" using length_filter_le [of "\<lambda>pk. pk \<noteq> default_pubkey" pks] by (simp add: ks)
  then show ?thesis by (simp add: ks)
qed

lemma read_body_total:
  assumes "1856 \<le> length body"
  shows "\<exists>v. read_body body = Ok v \<and> length (bv_oracles v) \<le> 5 \<and> default_pubkey \<notin> set (bv_oracles v)"
proof -
  obtain ps ks where "read_points body = Ok ps" "read_oracles body = Ok ks"
    using read_points_total [OF assms] read_oracles_total [OF assms] by blast
  moreover have "\<exists>v. read_pubkey body off = Ok v" if "off + 32 \<le> 1856" for off
    using that assms by (simp add: pubkey_field.read_ok_iff)
  then obtain k where "read_pubkey body off = Ok (k off)" if "off + 32 \<le> 1856" for off by metis
  moreover have "\<exists>v. read_i128 body off = Ok v" if "off + 16 \<le> 1856" for off
    using that assms by (simp add: i128_field.read_ok_iff)
  then obtain i where "read_i128 body off = Ok (i off)" if "off + 16 \<le> 1856" for off by metis
  moreover have "\<exists>v. read_u32 body off = Ok v" if "off + 4 \<le> 1856" for off
    using that assms by (simp add: u32_field.read_ok_iff)
  then obtain u where "read_u32 body off = Ok (u off)" if "off + 4 \<le> 1856" for off by metis
  moreover have "\<exists>v. read_u8 body off = Ok v" if "off + 1 \<le> 1856" for off
    using that assms by (simp add: u8_field.read_ok_iff)
  then obtain b where "read_u8 body off = Ok (b off)" if "off + 1 \<le> 1856" for off by metis
  ultimately show ?thesis
    using read_oracles_bound by (simp add: read_body_def bank_offsets)
qed

lemma try_from_account_data_eq:
  assumes "1864 \<le> length data"
  shows "try_from_account_data data =
    (if take 8 data = BANK_DISCRIMINATOR then read_body (take 1856 (drop 8 data))
     else Err (BankErr BankDiscriminatorMismatch))"
  using assms by (simp add: try_from_account_data_def bank_offsets)

text \<open>
  C11. The bank decoder never panics: on every byte string it returns a value. It succeeds
  exactly on accounts of at least 1864 bytes that carry the \<open>Bank\<close> discriminator, the
  decoded view then has at most five oracles and no all-zero key among them, and each
  failure is reported by its own error.
\<close>

theorem bank_decode_total:
  "if length data < 1864 then try_from_account_data data = Err (BankErr (BankTooSmall (length data) 1864))
   else if take 8 data \<noteq> BANK_DISCRIMINATOR
   then try_from_account_data data = Err (BankErr BankDiscriminatorMismatch)
   else \<exists>v. try_from_account_data data = Ok v \<and> length (bv_oracles v) \<le> 5 \<and>
          default_pubkey \<notin> set (bv_oracles v)"
proof (cases "length data < 1864")
  case True
  then show ?thesis by (simp add: try_from_account_data_def bank_offsets)
next
  case False
  then have "1856 \<le> length (take 1856 (drop 8 data))" by simp
  from read_body_total [OF this] False show ?thesis by (auto simp: try_from_account_data_eq)
qed

lemma length_encode_bank: "wf_layout l \<Longrightarrow> length (encode_bank l) = 1856"
  using pubkey_field.length_puts [of "bl_oracle_keys l"] point_field.length_puts [of "bl_points l"]
  by (simp add: wf_layout_def encode_bank_def)

lemma read_body_encode:
  assumes "wf_layout l"
  shows "read_body (encode_bank l) = Ok (view_of_layout l)"
proof -
  note w = assms [unfolded wf_layout_def]
  have lens: "length (concat (map to_bytes (bl_oracle_keys l))) = 160"
      "length (concat (map encode_point (bl_points l))) = 40"
    using w pubkey_field.length_puts [of "bl_oracle_keys l"] point_field.length_puts [of "bl_points l"]
    by simp_all
  note at = encode_bank_def lens w bank_offsets
  have [simp]: "read_pubkey (encode_bank l) OFF_MINT = Ok (bl_mint l)"
      "read_pubkey (encode_bank l) OFF_LIQUIDITY_VAULT = Ok (bl_liquidity_vault l)"
    by (rule pubkey_field.read_at; simp add: at)+
  have [simp]: "read_u8 (encode_bank l) OFF_LVA_BUMP = Ok (bl_lva_bump l)"
      "read_u8 (encode_bank l) OFF_CURVE_TYPE = Ok (bl_curve_type l)"
      "read_u8 (encode_bank l) OFF_ORACLE_SETUP = Ok (bl_oracle_setup l)"
    by (rule u8_field.read_at; simp add: at)+
  have [simp]: "read_i128 (encode_bank l) OFF_ASSET_SHARE_VALUE = Ok (bl_asset_share_value l)"
      "read_i128 (encode_bank l) OFF_LIABILITY_SHARE_VALUE = Ok (bl_liability_share_value l)"
      "read_i128 (encode_bank l) OFF_TOTAL_ASSET_SHARES = Ok (bl_total_asset_shares l)"
      "read_i128 (encode_bank l) OFF_TOTAL_LIABILITY_SHARES = Ok (bl_total_liability_shares l)"
      "read_i128 (encode_bank l) OFF_OPTIMAL_UTIL = Ok (bl_optimal_utilization_rate l)"
      "read_i128 (encode_bank l) OFF_PLATEAU = Ok (bl_plateau_interest_rate l)"
      "read_i128 (encode_bank l) OFF_MAX_IR = Ok (bl_max_interest_rate l)"
      "read_i128 (encode_bank l) OFF_PROTOCOL_IR_FEE = Ok (bl_protocol_ir_fee l)"
    by (rule i128_field.read_at; simp add: at)+
  have [simp]: "read_u32 (encode_bank l) OFF_ZERO_UTIL_RATE = Ok (bl_zero_util_rate l)"
      "read_u32 (encode_bank l) OFF_HUNDRED_UTIL_RATE = Ok (bl_hundred_util_rate l)"
    by (rule u32_field.read_at; simp add: at)+
  have "rmap (\<lambda>i. read_point (encode_bank l) (OFF_POINTS + i * 8)) [0..<length (bl_points l)] = Ok (bl_points l)"
    by (rule point_field.read_array; simp add: at)
  then have [simp]: "read_points (encode_bank l) = Ok (bl_points l)"
    using w by (simp add: read_points_def NUM_CURVE_POINTS_def)
  have "rmap (\<lambda>i. read_pubkey (encode_bank l) (OFF_ORACLE_KEYS + i * 32)) [0..<length (bl_oracle_keys l)]
      = Ok (bl_oracle_keys l)"
    by (rule pubkey_field.read_array; simp add: at)
  then have [simp]: "read_oracles (encode_bank l) = Ok (filter (\<lambda>k. k \<noteq> default_pubkey) (bl_oracle_keys l))"
    using w by (simp add: read_oracles_def MAX_ORACLE_KEYS_def)
  show ?thesis by (simp add: read_body_def view_of_layout_def)
qed

text \<open>
  C10. The hardcoded offsets agree with the documented layout: decoding an account laid out
  field by field as the layout table lists it, with any trailing bytes, returns exactly the
  fields that were written. Every all-zero oracle key is dropped, wherever it stands.
\<close>

theorem bank_decode_roundtrip:
  assumes "wf_layout l"
  shows "try_from_account_data (BANK_DISCRIMINATOR @ encode_bank l @ rest) = Ok (view_of_layout l)"
proof -
  have "length BANK_DISCRIMINATOR = 8" by (simp add: BANK_DISCRIMINATOR_def)
  then show ?thesis
    using length_encode_bank [OF assms] read_body_encode [OF assms]
    by (simp add: try_from_account_data_eq)
qed

definition sample_layout :: bank_layout where
  "sample_layout =
     \<lparr>bl_mint = Pubkey (replicate 32 7), bl_gap1 = replicate 40 0, bl_asset_share_value = 1,
      bl_liability_share_value = 2, bl_liquidity_vault = Pubkey (replicate 32 9),
      bl_liquidity_vault_bump = 254, bl_lva_bump = 253, bl_gap2 = replicate 110 0,
      bl_total_liability_shares = 3, bl_total_asset_shares = 4, bl_gap3 = replicate 80 0,
      bl_optimal_utilization_rate = 5, bl_plateau_interest_rate = 6, bl_max_interest_rate = 7,
      bl_gap4 = replicate 48 0, bl_protocol_ir_fee = 8, bl_gap5 = replicate 16 0,
      bl_zero_util_rate = 9, bl_hundred_util_rate = 10,
      bl_points = [(1, 2), (3, 4), (5, 6), (0, 0), (0, 0)], bl_curve_type = 1,
      bl_gap6 = replicate 64 0, bl_oracle_setup = 4,
      bl_oracle_keys = [default_pubkey, Pubkey (replicate 32 5), default_pubkey, default_pubkey, default_pubkey],
      bl_gap7 = replicate 1094 0\<rparr>"

lemma wf_sample_layout: "wf_layout sample_layout"
  by (simp add: wf_layout_def sample_layout_def default_pubkey_def)

theorem bank_decode_roundtrip_witness:
  "wf_layout sample_layout \<and>
   try_from_account_data (BANK_DISCRIMINATOR @ encode_bank sample_layout @ [1, 2, 3])
     = Ok (view_of_layout sample_layout)"
  using bank_decode_roundtrip [OF wf_sample_layout, of "[1, 2, 3]"] wf_sample_layout by simp

end
