(* ===== verification/Bank_Registry.thy ===== *)
theory Bank_Registry
  imports Chain_Reader Marginfi_Bank "HOL-Library.AList"
begin

text \<open>
  \<open>bank_registry.rs\<close> and the registry operations of \<open>config.rs\<close>: discovery of the
  marginfi bank of every mint from the market accounts, the merge-only refresh, and the
  creation of the missing token accounts. A \<open>HashMap\<close> is an association list; no theorem
  depends on its order.
\<close>

section \<open>Definitions\<close>

definition ata_program_id :: pubkey where
  "ata_program_id = Pubkey
     [140, 151, 37, 143, 78, 36, 137, 241, 187, 61, 16, 41, 20, 142, 13, 131, 11, 90, 19, 153,
      218, 255, 16, 132, 4, 142, 123, 216, 219, 233, 248, 89]"

definition spl_token_legacy_id :: pubkey where
  "spl_token_legacy_id = Pubkey
     [6, 221, 246, 225, 215, 101, 161, 147, 217, 203, 225, 70, 206, 235, 121, 172, 28, 180, 133,
      237, 95, 91, 55, 145, 58, 140, 245, 133, 126, 255, 0, 169]"

definition spl_token_2022_id :: pubkey where
  "spl_token_2022_id = Pubkey
     [6, 221, 246, 225, 238, 117, 143, 222, 24, 66, 93, 188, 228, 108, 205, 218, 182, 26, 252, 77,
      131, 185, 13, 39, 254, 189, 249, 40, 216, 161, 139, 252]"

definition ORACLE_SETUP_SWITCHBOARD_PULL :: u8 where
  "ORACLE_SETUP_SWITCHBOARD_PULL = 4"

definition primary_oracle :: "bank_info \<Rightarrow> pubkey" where
  "primary_oracle b = (case bi_oracles b of [] \<Rightarrow> default_pubkey | pk # _ \<Rightarrow> pk)"

definition is_switchboard_pull :: "bank_info \<Rightarrow> bool" where
  "is_switchboard_pull b \<longleftrightarrow> bi_oracle_setup b = ORACLE_SETUP_SWITCHBOARD_PULL"

definition ata_for :: "sdk \<Rightarrow> bank_info \<Rightarrow> pubkey \<Rightarrow> pubkey" where
  "ata_for k b owner =
     fst (find_program_address k
            [to_bytes owner, to_bytes (bi_token_program b), to_bytes (bi_mint b)] ata_program_id)"

text \<open>The bytes of \<open>b"liquidity_vault_auth"\<close>.\<close>

definition LIQUIDITY_VAULT_AUTHORITY_SEED :: bytes where
  "LIQUIDITY_VAULT_AUTHORITY_SEED =
     [108, 105, 113, 117, 105, 100, 105, 116, 121, 95, 118, 97, 117, 108, 116, 95, 97, 117, 116, 104]"

text \<open>\<open>HashMap::insert\<close> followed by the comparison with the value it replaced.\<close>

definition bind_mint ::
    "(pubkey \<Rightarrow> bank_err) \<Rightarrow> pubkey \<Rightarrow> pubkey \<Rightarrow> (pubkey \<times> pubkey) list \<Rightarrow> (pubkey \<times> pubkey) list res" where
  "bind_mint e mint bank m =
     (case map_of m mint of
        Some prev \<Rightarrow> if prev \<noteq> bank then Err (BankErr (e prev)) else Ok (AList.update mint bank m)
      | None \<Rightarrow> Ok (AList.update mint bank m))"

fun bind_markets :: "market_view list \<Rightarrow> (pubkey \<times> pubkey) list \<Rightarrow> (pubkey \<times> pubkey) list res" where
  "bind_markets [] mint_to_bank = Ok mint_to_bank"
| "bind_markets (m # ms) mint_to_bank =
     rbind (bind_mint (\<lambda>prev. DebtBankDisagrees (mv_address m) (mv_debt_bank m) prev (mv_debt_mint m))
              (mv_debt_mint m) (mv_debt_bank m) mint_to_bank) (\<lambda>m1.
     rbind (bind_mint (\<lambda>prev. CollateralBankDisagrees (mv_address m) (mv_collateral_bank m) prev (mv_collateral_mint m))
              (mv_collateral_mint m) (mv_collateral_bank m) m1) (\<lambda>m2.
       bind_markets ms m2))"

definition index_or_panic :: "'a list \<Rightarrow> nat \<Rightarrow> 'a res" where
  "index_or_panic xs i = (if i < length xs then Ok (xs ! i) else Panic)"

definition check_bank ::
    "sdk \<Rightarrow> pubkey \<Rightarrow> account option list \<Rightarrow> nat \<times> pubkey \<times> pubkey \<Rightarrow>
     (pubkey \<times> pubkey \<times> bank_view \<times> pubkey) res" where
  "check_bank k marginfi_program bank_accounts = (\<lambda>(i, expected_mint, bank_pk).
     rbind (index_or_panic bank_accounts i) (\<lambda>entry.
     rbind (ok_or (BankErr (BankNotFound bank_pk)) entry) (\<lambda>acct.
     if acct_owner acct \<noteq> marginfi_program
     then Err (BankErr (BankOwnedBy expected_mint bank_pk (acct_owner acct) marginfi_program))
     else
       rbind (map_err (Context ''BANKS: decoding bank failed'') (try_from_account_data (acct_data acct))) (\<lambda>view.
       if bv_mint view \<noteq> expected_mint
       then Err (BankErr (BankMintMismatch expected_mint bank_pk (bv_mint view)))
       else
         rbind (map_err (\<lambda>e. Context ''BANKS: deriving LVA failed'' (ExternalErr e))
                  (of_sum (create_program_address k
                     [LIQUIDITY_VAULT_AUTHORITY_SEED, to_bytes bank_pk, [bv_lva_bump view]] marginfi_program)))
           (\<lambda>lva. Ok (expected_mint, bank_pk, view, lva))))))"

definition check_mint ::
    "account option list \<Rightarrow> nat \<times> pubkey \<times> pubkey \<times> bank_view \<times> pubkey \<Rightarrow> (pubkey \<times> bank_info) res" where
  "check_mint mint_accounts = (\<lambda>(i, mint, bank, view, lva).
     rbind (index_or_panic mint_accounts i) (\<lambda>entry.
     rbind (ok_or (BankErr (MintNotFound mint)) entry) (\<lambda>m.
     rbind (if acct_owner m = spl_token_legacy_id then Ok spl_token_legacy_id
            else if acct_owner m = spl_token_2022_id then Ok spl_token_2022_id
            else Err (BankErr (MintOwnerUnknown mint (acct_owner m)))) (\<lambda>token_program.
     if bv_oracles view = [] \<or> length (bv_oracles view) > 5
     then Err (BankErr (OracleCount mint bank (length (bv_oracles view))))
     else Ok (mint,
       \<lparr>bi_mint = mint, bi_bank = bank, bi_liquidity_vault = bv_liquidity_vault view,
        bi_liquidity_vault_authority = lva, bi_oracles = bv_oracles view,
        bi_token_program = token_program, bi_oracle_setup = bv_oracle_setup view\<rparr>)))))"

definition resolve_from_chain ::
    "'w client \<Rightarrow> sdk \<Rightarrow> pubkey \<Rightarrow> (pubkey \<times> pubkey) list \<Rightarrow> ('w, 'h, bank_registry res) prog" where
  "resolve_from_chain c k marginfi_program mint_to_bank =
     (if mint_to_bank = [] then pdone (Ok [])
      else let entries = sort_key fst mint_to_bank in
        pbind (pctx ''BANKS resolve: get_multiple_accounts(banks) failed''
                 (call c (c_get_multiple_accounts c (map snd entries)))) (\<lambda>bank_accounts.
        pbind (pdone (rmap (check_bank k marginfi_program bank_accounts)
                        (List.enumerate 0 entries))) (\<lambda>decoded.
        pbind (pctx ''BANKS resolve: get_multiple_accounts(mints) failed''
                 (call c (c_get_multiple_accounts c (map (\<lambda>(mint, bank, view, lva). bv_mint view) decoded))))
          (\<lambda>mint_accounts.
        pdone (rbind (rmap (check_mint mint_accounts) (List.enumerate 0 decoded)) (\<lambda>infos.
          Ok (fold (\<lambda>(mint, info). AList.update mint info) infos [])))))))"

definition discover_from_markets ::
    "'w client \<Rightarrow> sdk \<Rightarrow> ydelta \<Rightarrow> pubkey \<Rightarrow> pubkey \<Rightarrow> ('w, 'h, bank_registry res) prog" where
  "discover_from_markets c k y program_id marginfi_program =
     pbind (pctx ''BANKS discover: ChainReader::refresh_markets failed''
              (refresh_markets c y program_id)) (\<lambda>markets.
     if markets = [] then pdone (Ok [])
     else pbind (pdone (bind_markets markets [])) (resolve_from_chain c k marginfi_program))"

definition registry_get :: "bank_registry \<Rightarrow> pubkey \<Rightarrow> bank_info option" where
  "registry_get reg mint = map_of reg mint"

definition has_switchboard_pull :: "bank_registry \<Rightarrow> bool" where
  "has_switchboard_pull reg \<longleftrightarrow> (\<exists>(mint, b) \<in> set reg. is_switchboard_pull b)"

definition switchboard_pull_oracles :: "bank_registry \<Rightarrow> pubkey list" where
  "switchboard_pull_oracles reg =
     remdups_adj (sort (map primary_oracle (filter is_switchboard_pull (map snd reg))))"

text \<open>\<open>entry(mint).or_insert(info)\<close> for every entry of \<open>other\<close>.\<close>

definition or_insert :: "pubkey \<times> bank_info \<Rightarrow> bank_registry \<Rightarrow> bank_registry" where
  "or_insert = (\<lambda>(mint, info) reg. case map_of reg mint of Some _ \<Rightarrow> reg | None \<Rightarrow> reg @ [(mint, info)])"

definition merge_from :: "bank_registry \<Rightarrow> bank_registry \<Rightarrow> bank_registry" where
  "merge_from reg other = fold or_insert other reg"

definition create_associated_token_account_idempotent_ix ::
    "sdk \<Rightarrow> pubkey \<Rightarrow> pubkey \<Rightarrow> pubkey \<Rightarrow> pubkey \<Rightarrow> instruction" where
  "create_associated_token_account_idempotent_ix k funding owner mint token_program =
     (let ata = fst (find_program_address k
                       [to_bytes owner, to_bytes token_program, to_bytes mint] ata_program_id) in
      \<lparr>ix_program_id = ata_program_id,
       ix_accounts =
         [\<lparr>meta_pubkey = funding, is_signer = True, is_writable = True\<rparr>,
          \<lparr>meta_pubkey = ata, is_signer = False, is_writable = True\<rparr>,
          \<lparr>meta_pubkey = owner, is_signer = False, is_writable = False\<rparr>,
          \<lparr>meta_pubkey = mint, is_signer = False, is_writable = False\<rparr>,
          \<lparr>meta_pubkey = system_program_id k, is_signer = False, is_writable = False\<rparr>,
          \<lparr>meta_pubkey = token_program, is_signer = False, is_writable = False\<rparr>],
       ix_data = [1]\<rparr>)"

text \<open>The accounts a registry needs, with the mint and the token program of each.\<close>

definition derived_atas :: "sdk \<Rightarrow> keypair \<Rightarrow> bank_registry \<Rightarrow> (pubkey \<times> pubkey \<times> pubkey) list" where
  "derived_atas k payer reg =
     map (\<lambda>(_, info). (bi_mint info, ata_for k info (kp_pubkey k payer), bi_token_program info)) reg"

definition create_ix :: "sdk \<Rightarrow> keypair \<Rightarrow> pubkey \<times> pubkey \<times> pubkey \<Rightarrow> instruction" where
  "create_ix k payer = (\<lambda>(mint, _, token_program).
     create_associated_token_account_idempotent_ix k (kp_pubkey k payer) (kp_pubkey k payer) mint token_program)"

definition missing_atas ::
    "account option list \<Rightarrow> (pubkey \<times> pubkey \<times> pubkey) list \<Rightarrow> (pubkey \<times> pubkey \<times> pubkey) list res" where
  "missing_atas existing derived =
     rbind (rmap (\<lambda>(i, row). rbind (index_or_panic existing i) (\<lambda>entry.
              Ok (if entry = None then [row] else []))) (List.enumerate 0 derived))
       (\<lambda>rows. Ok (concat rows))"

definition ensure_atas_for ::
    "'w client \<Rightarrow> sdk \<Rightarrow> rpc \<Rightarrow> bank_registry \<Rightarrow> keypair \<Rightarrow> ('w, 'h, unit res) prog" where
  "ensure_atas_for c k r reg payer =
     (if reg = [] then pdone (Ok ())
      else
        pbind (pctx ''ensure_atas_for: get_multiple_accounts failed''
                 (call c (c_get_multiple_accounts c (map (\<lambda>(_, a, _). a) (derived_atas k payer reg)))))
          (\<lambda>existing.
        pbind (pdone (missing_atas existing (derived_atas k payer reg))) (\<lambda>missing.
        if missing = [] then pdone (Ok ())
        else pbind (pctx ''ensure_atas_for: create-ATAs tx failed to send''
                      (send_signed_labeled c k r ''create_atas'' (map (create_ix k payer) missing) [payer]))
               (\<lambda>_. pdone (Ok ())))))"

text \<open>\<open>config.rs\<close>: the shared registry behind its \<open>RwLock\<close>.\<close>

definition write_banks :: "(bank_registry \<Rightarrow> bank_registry) \<Rightarrow> ('w, 'h, unit res) prog" where
  "write_banks f =
     pseq (gets banks) (\<lambda>guard. case guard of
         Poisoned _ \<Rightarrow> pdone (Err (BankErr BanksLockPoisoned))
       | Healthy reg \<Rightarrow> pseq (puts (\<lambda>sh. sh\<lparr>banks := Healthy (f reg)\<rparr>)) (\<lambda>_. pdone (Ok ())))"

definition discover_banks_from_markets ::
    "'w client \<Rightarrow> sdk \<Rightarrow> ydelta \<Rightarrow> config \<Rightarrow> ('w, 'h, unit res) prog" where
  "discover_banks_from_markets c k y cfg =
     pbind (discover_from_markets c k y (cfg_program_id cfg) (cfg_marginfi_program_id cfg)) (\<lambda>fresh.
       write_banks (\<lambda>_. fresh))"

definition refresh_banks ::
    "'w client \<Rightarrow> sdk \<Rightarrow> ydelta \<Rightarrow> config \<Rightarrow> ('w, 'h, unit res) prog" where
  "refresh_banks c k y cfg =
     pbind (discover_from_markets c k y (cfg_program_id cfg) (cfg_marginfi_program_id cfg)) (\<lambda>fresh.
       if fresh = [] then pdone (Ok ()) else write_banks (\<lambda>reg. merge_from reg fresh))"

definition banks_snapshot :: "('w, 'h, bank_registry) prog" where
  "banks_snapshot = gets (\<lambda>sh. case banks sh of Healthy reg \<Rightarrow> reg | Poisoned _ \<Rightarrow> [])"

section \<open>Discovery\<close>

text \<open>The mint-to-bank bindings of the markets.\<close>

definition market_bindings :: "market_view list \<Rightarrow> (pubkey \<times> pubkey) set" where
  "market_bindings ms =
     (\<Union>m \<in> set ms. {(mv_debt_mint m, mv_debt_bank m), (mv_collateral_mint m, mv_collateral_bank m)})"

lemma set_update_same:
  "distinct (map fst m) \<Longrightarrow> map_of m k = None \<or> map_of m k = Some v \<Longrightarrow>
   set (AList.update k v m) = insert (k, v) (set m)"
  by (induction m) (auto simp: weak_map_of_SomeI split: if_splits)

lemma single_valued_insert_iff:
  "single_valued S \<Longrightarrow> single_valued (insert (a, b) S) \<longleftrightarrow> (\<forall>b'. (a, b') \<in> S \<longrightarrow> b' = b)"
  by (auto simp: single_valued_def)

lemma single_valued_distinct: "distinct (map fst m) \<Longrightarrow> single_valued (set m)"
  by (auto simp: single_valued_def dest: eq_key_imp_eq_value)

lemma single_valued_mono: "single_valued S \<Longrightarrow> T \<subseteq> S \<Longrightarrow> single_valued T"
  unfolding single_valued_def by blast

lemma bind_mint_ok:
  assumes "distinct (map fst m)" "single_valued (insert (mint, bank) (set m))"
  shows "\<exists>m'. (\<forall>e. bind_mint e mint bank m = Ok m') \<and> distinct (map fst m') \<and>
    set m' = insert (mint, bank) (set m)"
proof -
  have prev: "map_of m mint = None \<or> map_of m mint = Some bank"
    using assms(2) single_valued_insert_iff [OF single_valued_distinct [OF assms(1)]]
    by (cases "map_of m mint") (auto dest: map_of_SomeD)
  then have "bind_mint e mint bank m = Ok (AList.update mint bank m)" for e
    by (auto simp: bind_mint_def)
  then show ?thesis
    using set_update_same [OF assms(1) prev] assms(1) by (blast intro: distinct_update)
qed

lemma bind_mint_err:
  assumes "distinct (map fst m)" "\<not> single_valued (insert (mint, bank) (set m))"
  shows "\<exists>prev. \<forall>e. bind_mint e mint bank m = Err (BankErr (e prev))"
proof -
  obtain b where "(mint, b) \<in> set m" "b \<noteq> bank"
    using assms(2) single_valued_insert_iff [OF single_valued_distinct [OF assms(1)]] by blast
  then have "map_of m mint = Some b" using assms(1) by simp
  then show ?thesis using \<open>b \<noteq> bank\<close> by (auto simp: bind_mint_def)
qed

lemma market_bindings_Cons:
  "set m \<union> market_bindings (x # ms) =
   insert (mv_collateral_mint x, mv_collateral_bank x) (insert (mv_debt_mint x, mv_debt_bank x) (set m))
     \<union> market_bindings ms"
  by (auto simp: market_bindings_def)

lemma bind_markets_ok:
  "distinct (map fst m) \<Longrightarrow> single_valued (set m \<union> market_bindings ms) \<Longrightarrow>
   \<exists>m'. bind_markets ms m = Ok m' \<and> distinct (map fst m') \<and> set m' = set m \<union> market_bindings ms"
proof (induction ms arbitrary: m)
  case (Cons x ms)
  note sv = Cons.prems(2) [unfolded market_bindings_Cons]
  have "single_valued (insert (mv_debt_mint x, mv_debt_bank x) (set m))"
    by (rule single_valued_mono [OF sv]) auto
  from bind_mint_ok [OF Cons.prems(1) this]
  obtain m1 where m1: "\<forall>e. bind_mint e (mv_debt_mint x) (mv_debt_bank x) m = Ok m1" "distinct (map fst m1)"
      "set m1 = insert (mv_debt_mint x, mv_debt_bank x) (set m)"
    by blast
  have "single_valued (insert (mv_collateral_mint x, mv_collateral_bank x) (set m1))"
    unfolding m1(3) by (rule single_valued_mono [OF sv]) auto
  from bind_mint_ok [OF m1(2) this]
  obtain m2 where m2: "\<forall>e. bind_mint e (mv_collateral_mint x) (mv_collateral_bank x) m1 = Ok m2"
      "distinct (map fst m2)" "set m2 = insert (mv_collateral_mint x, mv_collateral_bank x) (set m1)"
    by blast
  have "single_valued (set m2 \<union> market_bindings ms)" using sv by (simp only: m2(3) m1(3))
  from Cons.IH [OF m2(2) this] show ?case
    using m1(1) m2(1) by (simp add: market_bindings_Cons m1(3) m2(3))
qed (simp add: market_bindings_def)

lemma bind_markets_err:
  "distinct (map fst m) \<Longrightarrow> \<not> single_valued (set m \<union> market_bindings ms) \<Longrightarrow>
   \<exists>e. bind_markets ms m = Err (BankErr e)"
proof (induction ms arbitrary: m)
  case Nil
  then show ?case by (simp add: market_bindings_def single_valued_distinct)
next
  case (Cons x ms)
  note nsv = Cons.prems(2) [unfolded market_bindings_Cons]
  show ?case
  proof (cases "single_valued (insert (mv_debt_mint x, mv_debt_bank x) (set m))")
    case False
    then show ?thesis using bind_mint_err [OF Cons.prems(1) False] by auto
  next
    case True
    from bind_mint_ok [OF Cons.prems(1) this]
    obtain m1 where m1: "\<forall>e. bind_mint e (mv_debt_mint x) (mv_debt_bank x) m = Ok m1" "distinct (map fst m1)"
        "set m1 = insert (mv_debt_mint x, mv_debt_bank x) (set m)"
      by blast
    show ?thesis
    proof (cases "single_valued (insert (mv_collateral_mint x, mv_collateral_bank x) (set m1))")
      case False
      then show ?thesis using bind_mint_err [OF m1(2) False] m1(1) by auto
    next
      case True
      from bind_mint_ok [OF m1(2) this]
      obtain m2 where m2: "\<forall>e. bind_mint e (mv_collateral_mint x) (mv_collateral_bank x) m1 = Ok m2"
          "distinct (map fst m2)" "set m2 = insert (mv_collateral_mint x, mv_collateral_bank x) (set m1)"
        by blast
      have "\<not> single_valued (set m2 \<union> market_bindings ms)" using nsv by (simp only: m2(3) m1(3)) simp
      then show ?thesis using Cons.IH [OF m2(2)] m1(1) m2(1) by simp
    qed
  qed
qed

text \<open>
  C5. Discovery refuses exactly the contradictory market sets: when no mint is bound to two
  different banks, debt and collateral sides of all markets together, the extracted map is
  precisely the set of bindings; otherwise it fails with a bank error.
\<close>

theorem conflicting_banks_refused:
  "if single_valued (market_bindings ms)
   then \<exists>m. bind_markets ms [] = Ok m \<and> distinct (map fst m) \<and> set m = market_bindings ms
   else \<exists>e. bind_markets ms [] = Err (BankErr e)"
  using bind_markets_ok [of "[]" ms] bind_markets_err [of "[]" ms] by simp

section \<open>Registries\<close>

definition wf_info :: "pubkey \<Rightarrow> bank_info \<Rightarrow> bool" where
  "wf_info mint b \<longleftrightarrow> bi_mint b = mint \<and> 1 \<le> length (bi_oracles b) \<and> length (bi_oracles b) \<le> 5 \<and>
     bi_token_program b \<in> {spl_token_legacy_id, spl_token_2022_id}"

definition wf_registry :: "bank_registry \<Rightarrow> bool" where
  "wf_registry reg \<longleftrightarrow> distinct (map fst reg) \<and> (\<forall>(mint, b) \<in> set reg. wf_info mint b)"

lemma wf_registry_get: "wf_registry reg \<Longrightarrow> registry_get reg mint = Some b \<Longrightarrow> wf_info mint b"
  by (auto simp: wf_registry_def registry_get_def dest: map_of_SomeD)

lemma primary_oracle_mem: "wf_info mint b \<Longrightarrow> primary_oracle b \<in> set (bi_oracles b)"
  by (cases "bi_oracles b") (auto simp: wf_info_def primary_oracle_def)

lemma rmap_Ok_nth: "rmap f xs = Ok ys \<Longrightarrow> i < length xs \<Longrightarrow> f (xs ! i) = Ok (ys ! i)"
  by (induction xs arbitrary: ys i) (auto simp: rbind_Ok_iff nth_Cons split: nat.split)

lemma check_bank_Ok:
  "check_bank k mp accts (i, mint, bank) = Ok (mint', bank', view, lva) \<Longrightarrow>
   mint' = mint \<and> bank' = bank \<and> bv_mint view = mint"
  by (auto simp: check_bank_def rbind_Ok_iff split: if_splits)

lemma check_mint_Ok:
  "check_mint accts (i, mint, bank, view, lva) = Ok (mint', info) \<Longrightarrow>
   mint' = mint \<and> wf_info mint info \<and> bi_bank info = bank \<and> bi_oracles info = bv_oracles view"
  by (auto simp: check_mint_def wf_info_def rbind_Ok_iff Suc_le_eq split: if_splits)

lemma fold_update_distinct:
  "distinct (map fst (acc @ kvs)) \<Longrightarrow> fold (\<lambda>(k, v). AList.update k v) kvs acc = acc @ kvs"
proof (induction kvs arbitrary: acc)
  case (Cons kv kvs)
  obtain k v where kv: "kv = (k, v)" by force
  have "k \<notin> fst ` set acc" using Cons.prems by (auto simp: kv)
  then have "AList.update k v acc = acc @ [(k, v)]" by (induction acc) auto
  then show ?case using Cons by (simp add: kv)
qed simp

lemma resolve_wf:
  assumes "resolve_from_chain c k mp mint_to_bank s = (Ok reg, s')" "distinct (map fst mint_to_bank)"
  shows "wf_registry reg \<and> set (map (\<lambda>(mint, b). (mint, bi_bank b)) reg) = set mint_to_bank"
proof (cases "mint_to_bank = []")
  case True
  then show ?thesis using assms by (simp add: resolve_from_chain_def pdone_def wf_registry_def)
next
  case False
  let ?es = "sort_key fst mint_to_bank"
  obtain ba dec ma infos where
    dec: "rmap (check_bank k mp ba) (List.enumerate 0 ?es) = Ok dec" and
    infos: "rmap (check_mint ma) (List.enumerate 0 dec) = Ok infos" and
    reg: "reg = fold (\<lambda>(mint, info). AList.update mint info) infos []"
    using assms(1) False
    by (auto simp: resolve_from_chain_def Let_def pbind_run pdone_def rbind_Ok_iff
        split: prod.splits rresult.splits)
  have len: "length dec = length ?es" "length infos = length ?es"
    using rmap_Ok_length [OF dec] rmap_Ok_length [OF infos] by simp_all
  have row: "fst (infos ! i) = fst (?es ! i) \<and> bi_bank (snd (infos ! i)) = snd (?es ! i) \<and>
      wf_info (fst (infos ! i)) (snd (infos ! i))" if "i < length ?es" for i
  proof -
    obtain mint bank where e: "?es ! i = (mint, bank)" by force
    obtain mint1 bank1 view lva where d: "dec ! i = (mint1, bank1, view, lva)" by (cases "dec ! i") auto
    obtain mint2 info where f: "infos ! i = (mint2, info)" by force
    have "check_bank k mp ba (i, mint, bank) = Ok (mint1, bank1, view, lva)"
      using rmap_Ok_nth [OF dec, of i] that e d by (simp add: nth_enumerate_eq)
    moreover have "check_mint ma (i, mint1, bank1, view, lva) = Ok (mint2, info)"
      using rmap_Ok_nth [OF infos, of i] that d f len by (simp add: nth_enumerate_eq)
    ultimately show ?thesis by (auto simp: e f dest!: check_bank_Ok check_mint_Ok)
  qed
  have es: "map (\<lambda>(mint, b). (mint, bi_bank b)) infos = ?es"
    by (rule nth_equalityI) (use len row in \<open>auto simp: case_prod_unfold prod_eq_iff\<close>)
  have keys: "map fst infos = map fst ?es"
    unfolding es [symmetric] by (simp add: case_prod_unfold comp_def)
  have dist: "distinct (map fst infos)" using assms(2) unfolding keys by (simp add: distinct_map)
  then have reg': "reg = infos" using fold_update_distinct [of "[]" infos] by (simp add: reg)
  have "\<forall>x \<in> set infos. wf_info (fst x) (snd x)"
    using row len(2) unfolding all_set_conv_all_nth by metis
  then have "wf_registry reg"
    unfolding wf_registry_def reg' using dist by (simp add: case_prod_unfold)
  moreover have "set (map (\<lambda>(mint, b). (mint, bi_bank b)) reg) = set mint_to_bank"
    unfolding reg' es by simp
  ultimately show ?thesis by blast
qed

text \<open>
  C6. What resolution accepts: the registry holds exactly the mints it was asked for, each
  bound to the bank it was asked with, and every entry is well formed (its own mint, one
  to five oracles, one of the two token programs).
\<close>

theorem resolved_registry_wf:
  assumes "resolve_from_chain c k mp mint_to_bank s = (Ok reg, s')" "distinct (map fst mint_to_bank)"
  shows "wf_registry reg \<and> set (map (\<lambda>(mint, b). (mint, bi_bank b)) reg) = set mint_to_bank"
  using assms by (rule resolve_wf)

lemma distinct_remdups_adj_sorted: "sorted xs \<Longrightarrow> distinct (remdups_adj xs)"
  by (induction xs rule: remdups_adj.induct) (auto simp: less_le)

lemma or_insert_map_of:
  "map_of (or_insert (mint, info) reg) = map_of [(mint, info)] ++ map_of reg"
  by (rule ext) (auto simp: or_insert_def map_add_def split: option.splits)

lemma map_of_merge_from:
  "map_of (merge_from reg other) = map_of other ++ map_of reg"
proof (induction other arbitrary: reg)
  case (Cons e other)
  obtain mint info where e: "e = (mint, info)" by force
  have "map_of (merge_from reg (e # other)) = map_of (merge_from (or_insert e reg) other)"
    by (simp add: merge_from_def)
  then show ?case
    using Cons by (simp add: e or_insert_map_of) (auto simp: map_add_def fun_eq_iff split: option.splits)
qed (simp add: merge_from_def)

lemma or_insert_wf: "wf_registry reg \<Longrightarrow> wf_info (fst e) (snd e) \<Longrightarrow> wf_registry (or_insert e reg)"
  by (cases e) (auto simp: or_insert_def wf_registry_def map_of_eq_None_iff split: option.splits)

lemma merge_wf: "wf_registry reg \<Longrightarrow> wf_registry other \<Longrightarrow> wf_registry (merge_from reg other)"
proof -
  have "wf_registry reg \<Longrightarrow> (\<forall>e \<in> set other. wf_info (fst e) (snd e)) \<Longrightarrow> wf_registry (merge_from reg other)"
    unfolding merge_from_def by (induction other arbitrary: reg) (simp_all add: or_insert_wf)
  then show "wf_registry reg \<Longrightarrow> wf_registry other \<Longrightarrow> wf_registry (merge_from reg other)"
    by (force simp: wf_registry_def)
qed

text \<open>Discovery yields well-formed registries, whatever the node answers.\<close>

lemma discover_from_markets_wf:
  assumes "discover_from_markets c k y pid mp s = (Ok reg, s')"
  shows "wf_registry reg"
proof -
  obtain ms s1 where ms: "pctx ''BANKS discover: ChainReader::refresh_markets failed'' (refresh_markets c y pid) s = (Ok ms, s1)"
    and rest: "(if ms = [] then pdone (Ok [])
       else pbind (pdone (bind_markets ms [])) (resolve_from_chain c k mp)) s1 = (Ok reg, s')"
    using assms by (auto simp: discover_from_markets_def pbind_run split: prod.splits rresult.splits)
  show ?thesis
  proof (cases "ms = []")
    case True
    then show ?thesis using rest by (simp add: pdone_def wf_registry_def)
  next
    case False
    then obtain m where m: "bind_markets ms [] = Ok m" "resolve_from_chain c k mp m s1 = (Ok reg, s')"
      using rest by (auto simp: pbind_run pdone_def split: rresult.splits)
    have "distinct (map fst m)"
      using bind_markets_ok [of "[]" ms] bind_markets_err [of "[]" ms] m(1) by fastforce
    then show ?thesis using resolve_wf [OF m(2)] by blast
  qed
qed

text \<open>
  C33. A refresh only adds: after \<open>merge_from\<close> a mint that was known keeps its entry, and a
  new mint gets its entry of the fresh registry; merging well-formed registries gives one.
\<close>

theorem merge_never_overwrites:
  assumes "wf_registry reg" "wf_registry other"
  shows "registry_get (merge_from reg other) mint =
      (case registry_get reg mint of Some b \<Rightarrow> Some b | None \<Rightarrow> registry_get other mint) \<and>
    wf_registry (merge_from reg other)"
  using assms
  by (auto simp: registry_get_def map_of_merge_from merge_wf map_add_def split: option.splits)

lemma keeps_refresh_markets [keeps_intro]: "keeps_own (refresh_markets c y pid)"
  unfolding refresh_markets_def markets_cache_put_def fetch_markets_def by (intro keeps_intro)

text \<open>
  \<open>knows base\<close>: the shared registry is readable, well formed, and still holds every entry
  of \<open>base\<close>.
\<close>

definition knows :: "(pubkey \<rightharpoonup> bank_info) \<Rightarrow> shared \<Rightarrow> bool" where
  "knows base sh = (case banks sh of
      Healthy reg \<Rightarrow> wf_registry reg \<and> base \<subseteq>\<^sub>m map_of reg | Poisoned _ \<Rightarrow> False)"

lemma preserves_refresh_markets:
  assumes "rely c I" "\<And>sh v. I sh \<Longrightarrow> I (sh\<lparr>markets_cache := v\<rparr>)"
  shows "preserves I (refresh_markets c y pid)"
proof -
  have "preserves I (markets_cache_put c ms)" for ms
    unfolding markets_cache_put_def
    by (intro preserves_pseq preserves_gets)
      (auto intro!: preserves_intro preserves_puts assms(2) split: lock.splits)
  then show ?thesis
    unfolding refresh_markets_def using assms(1) by (intro preserves_intro)
qed

lemma preserves_discover:
  assumes "rely c I" "\<And>sh v. I sh \<Longrightarrow> I (sh\<lparr>markets_cache := v\<rparr>)"
  shows "preserves I (discover_from_markets c k y pid mp)"
  unfolding discover_from_markets_def resolve_from_chain_def Let_def
  using assms by (intro preserves_intro preserves_refresh_markets)

lemma knows_markets_cache [simp]: "knows base (sh\<lparr>markets_cache := v\<rparr>) = knows base sh"
  by (simp add: knows_def)

lemma write_banks_knows:
  assumes "knows base (shm s)" "wf_registry fresh" "write_banks (\<lambda>reg. merge_from reg fresh) s = (r, s')"
  shows "knows base (shm s')"
  using assms
  by (auto simp: write_banks_def knows_def prog_run merge_wf map_of_merge_from map_le_def map_add_def dom_def
      split: lock.splits option.splits)

text \<open>
  C4. The periodic refresh never loses a bank: as long as the other tasks keep the known
  entries in a readable registry, so does \<open>refresh_banks\<close>, on every path, errors
  included, and the registry stays well formed. A known mint keeps its entry even when the
  chain now reports another bank for it.
\<close>

theorem refresh_banks_keeps_known:
  assumes "rely c (knows base)" "knows base (shm s)" "refresh_banks c k y cfg s = (r, s')"
  shows "knows base (shm s')"
proof -
  let ?d = "discover_from_markets c k y (cfg_program_id cfg) (cfg_marginfi_program_id cfg)"
  obtain q s1 where q: "?d s = (q, s1)" by fastforce
  have "preserves (knows base) (?d :: ('a, 'b, bank_registry res) prog)"
    using assms(1) by (intro preserves_discover) simp_all
  then have s1: "knows base (shm s1)" using assms(2) q unfolding preserves_def by (metis snd_conv)
  show ?thesis
  proof (cases q)
    case (Ok fresh)
    then show ?thesis
      using assms(3) q s1 write_banks_knows [OF s1 discover_from_markets_wf [OF q [unfolded Ok]]]
      by (auto simp: refresh_banks_def pbind_run pdone_def split: if_splits)
  qed (use assms(3) q s1 in \<open>auto simp: refresh_banks_def pbind_run\<close>)
qed

text \<open>
  C34. The oracle list handed to the Switchboard cranker is strictly ascending, so it has no
  duplicate, and holds exactly the primary oracles of the pull-feed banks; it is empty
  exactly when \<open>has_switchboard_pull\<close> is false.
\<close>

theorem switchboard_pull_oracles_correct:
  "sorted_wrt (<) (switchboard_pull_oracles reg) \<and>
   set (switchboard_pull_oracles reg) = {primary_oracle b | mint b. (mint, b) \<in> set reg \<and> is_switchboard_pull b} \<and>
   (switchboard_pull_oracles reg \<noteq> []) = has_switchboard_pull reg"
proof -
  let ?xs = "switchboard_pull_oracles reg"
  have set: "set ?xs = {primary_oracle b | mint b. (mint, b) \<in> set reg \<and> is_switchboard_pull b}"
    by (force simp: switchboard_pull_oracles_def)
  have "sorted ?xs" "distinct ?xs"
    by (simp_all add: switchboard_pull_oracles_def distinct_remdups_adj_sorted)
  then have "sorted_wrt (<) ?xs" by (simp add: strict_sorted_iff)
  moreover have "(?xs \<noteq> []) = has_switchboard_pull reg"
    using set by (auto simp: has_switchboard_pull_def simp flip: set_empty)
  ultimately show ?thesis using set by blast
qed

section \<open>Token accounts\<close>

lemma missing_atas_eq:
  assumes "length derived \<le> length existing"
  shows "missing_atas existing derived =
    Ok (map snd (filter (\<lambda>(e, row). e = None) (zip existing derived)))"
proof -
  let ?row = "\<lambda>(i, row). rbind (index_or_panic existing i) (\<lambda>entry. Ok (if entry = None then [row] else []))"
  have "rmap ?row (List.enumerate n derived) =
      Ok (map (\<lambda>(i, row). if existing ! i = None then [row] else []) (List.enumerate n derived))"
    if "n + length derived \<le> length existing" for n
    using that by (induction derived arbitrary: n) (auto simp: index_or_panic_def)
  from this [of 0] assms have "rmap ?row (List.enumerate 0 derived) =
      Ok (map (\<lambda>(i, row). if existing ! i = None then [row] else []) (List.enumerate 0 derived))" by simp
  moreover have "concat (map (\<lambda>(i, row). if existing ! i = None then [row] else []) (List.enumerate n derived))
      = map snd (filter (\<lambda>(e, row). e = None) (zip (drop n existing) derived))"
    if "n + length derived \<le> length existing" for n
    using that
  proof (induction derived arbitrary: n)
    case (Cons d derived)
    then have "drop n existing = existing ! n # drop (Suc n) existing"
      by (simp add: Cons_nth_drop_Suc)
    then show ?case using Cons by simp
  qed simp
  from this [of 0] assms have "concat (map (\<lambda>(i, row). if existing ! i = None then [row] else []) (List.enumerate 0 derived))
      = map snd (filter (\<lambda>(e, row). e = None) (zip existing derived))" by simp
  ultimately show ?thesis by (simp add: missing_atas_def)
qed

lemma create_ix_target:
  "row \<in> set (derived_atas k payer reg) \<Longrightarrow>
   meta_pubkey (ix_accounts (create_ix k payer row) ! 1) = fst (snd row)"
  by (auto simp: derived_atas_def create_ix_def create_associated_token_account_idempotent_ix_def ata_for_def)

lemma emits_send_signed_labeled:
  "emits (send_signed_labeled c k r label ixs [payer])
     (\<lambda>res es. \<forall>tx. EvSend tx \<in> set es \<longrightarrow>
        tx_ixs tx = priority_fee_preamble k r (compute_unit_limit r) @ ixs \<and> tx_payer tx = kp_pubkey k payer)"
  unfolding send_signed_labeled.simps
  by (rule emits_count_ix [OF emits_send_with_retry]) (fastforce dest: retry_trace_sends)+

text \<open>
  C28. When the node answers with one entry per account, \<open>ensure_atas_for\<close> submits a
  transaction only if an account is missing, and everything it submits creates exactly the
  missing accounts: one idempotent instruction per absent account, whose target is the very
  account that was looked up.
\<close>

theorem ensure_atas_creates_missing:
  assumes "c_get_multiple_accounts c (map (\<lambda>(_, a, _). a) (derived_atas k payer reg)) (world s) = (Inr existing, w)"
    and "length existing = length reg" and "ensure_atas_for c k r reg payer s = (res, s')"
    and "missing = map snd (filter (\<lambda>(e, row). e = None) (zip existing (derived_atas k payer reg)))"
  shows "\<exists>es. trace s' = trace s @ es \<and>
    (missing = [] \<longrightarrow> es = [] \<and> res = Ok ()) \<and>
    (\<forall>tx. EvSend tx \<in> set es \<longrightarrow>
       tx_ixs tx = priority_fee_preamble k r (compute_unit_limit r) @ map (create_ix k payer) missing \<and>
       tx_payer tx = kp_pubkey k payer \<and>
       map (\<lambda>ix. meta_pubkey (ix_accounts ix ! 1)) (map (create_ix k payer) missing) = map (fst \<circ> snd) missing)"
proof (cases "reg = []")
  case True
  then show ?thesis using assms by (auto simp: ensure_atas_for_def derived_atas_def pdone_def)
next
  case False
  let ?s1 = "s\<lparr>world := w, shm := c_interfere c w (shm s), steps := steps s @ [Switched (shm s) (c_interfere c w (shm s))]\<rparr>"
  let ?send = "pbind (pctx ''ensure_atas_for: create-ATAs tx failed to send''
      (send_signed_labeled c k r ''create_atas'' (map (create_ix k payer) missing) [payer])) (\<lambda>_. pdone (Ok ()))"
  have miss: "missing_atas existing (derived_atas k payer reg) = Ok missing"
    using assms(2,4) by (simp add: missing_atas_eq derived_atas_def)
  have run: "ensure_atas_for c k r reg payer s = (if missing = [] then (Ok (), ?s1) else ?send ?s1)"
    using False miss assms(1)
    by (simp add: ensure_atas_for_def pbind_run pctx_def call_def await_def pseq_run pdone_def)
  have rows: "row \<in> set missing \<Longrightarrow> row \<in> set (derived_atas k payer reg)" for row
    using assms(4) by (auto dest: set_zip_rightD)
  have targets: "map (\<lambda>ix. meta_pubkey (ix_accounts ix ! 1)) (map (create_ix k payer) missing) = map (fst \<circ> snd) missing"
    by (simp only: map_map comp_def, rule map_cong) (auto dest!: rows create_ix_target)
  have sent: "emits ?send (\<lambda>_ es. \<forall>tx. EvSend tx \<in> set es \<longrightarrow>
       tx_ixs tx = priority_fee_preamble k r (compute_unit_limit r) @ map (create_ix k payer) missing \<and>
       tx_payer tx = kp_pubkey k payer)"
    by (rule emits_pbind [OF emits_pctx [OF emits_send_signed_labeled]]) (auto intro: emits_pdone)
  show ?thesis
  proof (cases "missing = []")
    case True
    then show ?thesis using run assms(3) by auto
  next
    case False
    then have "?send ?s1 = (res, s')" using run assms(3) by simp
    from emitsD [OF sent this] show ?thesis using targets False by auto
  qed
qed

end
