(* ===== verification/Swb_Cranker.thy ===== *)
theory Swb_Cranker
  imports Bank_Registry
begin

text \<open>
  \<open>swb_cranker.rs\<close>: Switchboard updates, with failover over the queue's gateways, and the
  optional warm-keeper loop. A gateway is a number; the HTTP call behind it is the field
  \<open>c_fetch_update\<close> of the client.
\<close>

section \<open>Definitions\<close>

record swb_cranker =
  gateways :: "nat list"
  swb_payer :: keypair

text \<open>The answers of the two Switchboard calls at boot are arguments.\<close>

definition swb_new :: "string + unit \<Rightarrow> string + nat list \<Rightarrow> keypair \<Rightarrow> swb_cranker res" where
  "swb_new queue fetched payer =
     rbind (map_err (\<lambda>e. Context ''swb QueueAccountData::load'' (ExternalErr e)) (of_sum queue)) (\<lambda>_.
     rbind (map_err (\<lambda>e. Context ''swb fetch_gateways'' (ExternalErr e)) (of_sum fetched)) (\<lambda>gws.
     if gws = [] then Err NoGateways else Ok \<lparr>gateways = gws, swb_payer = payer\<rparr>))"

text \<open>The \<open>for\<close> loop over the gateways with its \<open>last_err\<close>; \<open>n\<close> is \<open>gateways.len()\<close>.\<close>

fun failover ::
    "(nat \<Rightarrow> ('w, 'h, 'a res) prog) \<Rightarrow> nat \<Rightarrow> nat list \<Rightarrow> err option \<Rightarrow> ('w, 'h, 'a res) prog" where
  "failover f n [] last_err = pdone (Err (AllGatewaysFailed n last_err))"
| "failover f n (g # gs) last_err =
     ptry (f g) (\<lambda>a. pdone (Ok a)) (\<lambda>e. failover f n gs (Some e))"

definition fetch_update_via ::
    "'w client \<Rightarrow> sdk \<Rightarrow> swb_cranker \<Rightarrow> pubkey list \<Rightarrow> nat \<Rightarrow>
     ('w, 'h, (instruction list \<times> lookup_table list) res) prog" where
  "fetch_update_via c k sc oracles gateway =
     pseq (await c (c_fetch_update c oracles (kp_pubkey k (swb_payer sc)) gateway)) (\<lambda>r.
       pdone (map_err (\<lambda>e. Context ''swb fetch_update_consensus_ix'' (ExternalErr e)) (of_sum r)))"

definition fetch_update_ixs ::
    "'w client \<Rightarrow> sdk \<Rightarrow> swb_cranker \<Rightarrow> pubkey list \<Rightarrow>
     ('w, 'h, (instruction list \<times> lookup_table list) res) prog" where
  "fetch_update_ixs c k sc oracles =
     (if oracles = [] then pdone (Ok ([], []))
      else failover (fetch_update_via c k sc oracles) (length (gateways sc)) (gateways sc) None)"

definition try_crank ::
    "'w client \<Rightarrow> sdk \<Rightarrow> swb_cranker \<Rightarrow> pubkey list \<Rightarrow> nat \<Rightarrow> ('w, 'h, signature res) prog" where
  "try_crank c k sc oracles gateway =
     pbind (fetch_update_via c k sc oracles gateway) (\<lambda>(ixs, luts).
     pbind (call c (c_get_latest_blockhash c)) (\<lambda>blockhash.
     pbind (pdone (map_err ExternalErr (of_sum
              (v0_try_compile k (kp_pubkey k (swb_payer sc)) ixs luts blockhash)))) (\<lambda>_.
     pbind (pdone (map_err ExternalErr (of_sum
              (v0_try_sign k (kp_pubkey k (swb_payer sc)) ixs luts blockhash [swb_payer sc])))) (\<lambda>sigs.
     let tx = V0Tx ixs luts (kp_pubkey k (swb_payer sc)) blockhash sigs in
     pseq (emit (EvSend tx)) (\<lambda>_. call c (c_send_and_confirm c tx))))))"

definition crank ::
    "'w client \<Rightarrow> sdk \<Rightarrow> swb_cranker \<Rightarrow> pubkey list \<Rightarrow> ('w, 'h, signature option res) prog" where
  "crank c k sc oracles =
     (if oracles = [] then pdone (Ok None)
      else pbind (failover (try_crank c k sc oracles) (length (gateways sc)) (gateways sc) None)
             (\<lambda>sg. pdone (Ok (Some sg))))"

text \<open>The stop-aware sleep of the warm-keeper, in milliseconds; the result says whether to stop.\<close>

function swb_sleep :: "'w client \<Rightarrow> nat \<Rightarrow> nat \<Rightarrow> ('w, 'h, bool) prog" where
  "swb_sleep c interval elapsed =
     (if elapsed < interval
      then pseq (gets stop) (\<lambda>halt. if halt then pdone True
             else pseq (sleep_ms c 500) (\<lambda>_. swb_sleep c interval (elapsed + 500)))
      else pdone False)"
  by pat_completeness auto
termination
  by (relation "measure (\<lambda>(c, interval, elapsed). interval - elapsed)") auto

declare swb_sleep.simps [simp del]

definition swb_crank_round :: "'w client \<Rightarrow> sdk \<Rightarrow> swb_cranker \<Rightarrow> ('w, 'h, unit res) prog" where
  "swb_crank_round c k sc =
     pseq banks_snapshot (\<lambda>reg.
       let oracles = switchboard_pull_oracles reg in
       if oracles \<noteq> [] then ptry (crank c k sc oracles) (\<lambda>_. pdone (Ok ())) (\<lambda>_. pdone (Ok ()))
       else pdone (Ok ()))"

text \<open>\<open>Ok True\<close>: the loop has returned; \<open>Ok False\<close>: still running after the given rounds.\<close>

fun swb_crank_loop ::
    "'w client \<Rightarrow> sdk \<Rightarrow> swb_cranker \<Rightarrow> nat \<Rightarrow> nat \<Rightarrow> ('w, 'h, bool res) prog" where
  "swb_crank_loop c k sc interval 0 = pdone (Ok False)"
| "swb_crank_loop c k sc interval (Suc rounds) =
     pseq (gets stop) (\<lambda>halt. if halt then pdone (Ok True)
     else pbind (swb_crank_round c k sc) (\<lambda>_.
          pseq (swb_sleep c interval 0) (\<lambda>halt'. if halt' then pdone (Ok True)
          else swb_crank_loop c k sc interval rounds)))"

section \<open>Failover\<close>

lemma silent_failover: "(\<And>g. silent (f g)) \<Longrightarrow> silent (failover f n gs last_err)"
  by (induction gs arbitrary: last_err) (auto intro: emits_intro)

lemma keeps_failover: "(\<And>g. keeps_own (f g)) \<Longrightarrow> keeps_own (failover f n gs last_err)"
  by (induction gs arbitrary: last_err) (auto intro: keeps_intro)

lemma silent_fetch_update_via [emits_intro]: "silent (fetch_update_via c k sc os g)"
  unfolding fetch_update_via_def by (intro emits_intro)

lemma keeps_fetch_update_via [keeps_intro]: "keeps_own (fetch_update_via c k sc os g)"
  unfolding fetch_update_via_def by (intro keeps_intro)

lemma silent_fetch_update_ixs [emits_intro]: "silent (fetch_update_ixs c k sc os)"
  unfolding fetch_update_ixs_def by (intro emits_intro silent_failover)

lemma keeps_fetch_update_ixs [keeps_intro]: "keeps_own (fetch_update_ixs c k sc os)"
  unfolding fetch_update_ixs_def by (intro keeps_intro keeps_failover)

text \<open>The verdict of the first gateway that answers; the last error when none does.\<close>

fun first_success :: "nat \<Rightarrow> (string + 'a) list \<Rightarrow> err option \<Rightarrow> 'a res" where
  "first_success n [] last_err = Err (AllGatewaysFailed n last_err)"
| "first_success n (Inr a # rs) last_err = Ok a"
| "first_success n (Inl e # rs) last_err =
     first_success n rs (Some (Context ''swb fetch_update_consensus_ix'' (ExternalErr e)))"

lemma failover_first_success:
  fixes c :: "'w client" and s :: "('w, 'h) sys"
  assumes "\<And>g w. fst (c_fetch_update c oracles (kp_pubkey k (swb_payer sc)) g w) = verdict g"
  shows "fst (failover (fetch_update_via c k sc oracles) n gs last_err s) = first_success n (map verdict gs) last_err"
proof (induction gs arbitrary: last_err s)
  case (Cons g gs)
  obtain w where w: "c_fetch_update c oracles (kp_pubkey k (swb_payer sc)) g (world s) = (verdict g, w)"
    using assms [of g "world s"] by (metis prod.collapse)
  then show ?case
    using Cons.IH by (cases "verdict g") (auto simp: ptry_run fetch_update_via_def pseq_run await_def pdone_def)
qed (simp add: pdone_def)

text \<open>
  C35. One dead gateway does not stall an update: for a non-empty oracle list the update
  bundle is the one of the first gateway that answers, in the configured order, and the
  fetch fails only when all of them fail, with their number and the last error. An empty
  list needs no gateway.
\<close>

theorem fetch_update_failover:
  fixes c :: "'w client" and s :: "('w, 'h) sys"
  assumes "\<And>g w. fst (c_fetch_update c oracles (kp_pubkey k (swb_payer sc)) g w) = verdict g"
  shows "fst (fetch_update_ixs c k sc oracles s) =
    (if oracles = [] then Ok ([], [])
     else if \<exists>g \<in> set (gateways sc). \<not> isl (verdict g)
     then Ok (projr (hd (filter (\<lambda>r. \<not> isl r) (map verdict (gateways sc)))))
     else Err (AllGatewaysFailed (length (gateways sc))
       (if gateways sc = [] then None
        else Some (Context ''swb fetch_update_consensus_ix'' (ExternalErr (projl (verdict (last (gateways sc)))))))))"
proof -
  have ok: "first_success n rs l = Ok (projr (hd (filter (\<lambda>r. \<not> isl r) rs)))"
    if "\<exists>r \<in> set rs. \<not> isl r" for n l and rs :: "(string + instruction list \<times> lookup_table list) list"
    using that by (induction n rs l rule: first_success.induct) auto
  have bad: "first_success n rs l = Err (AllGatewaysFailed n (if rs = [] then l
      else Some (Context ''swb fetch_update_consensus_ix'' (ExternalErr (projl (last rs))))))"
    if "\<forall>r \<in> set rs. isl r" for n l and rs :: "(string + instruction list \<times> lookup_table list) list"
    using that by (induction n rs l rule: first_success.induct) auto
  show ?thesis
  proof (cases "oracles = [] \<or> (\<exists>g \<in> set (gateways sc). \<not> isl (verdict g))")
    case True
    then show ?thesis
      using failover_first_success [of c oracles k sc verdict _ _ _ s, OF assms] ok [of "map verdict (gateways sc)"]
      by (auto simp: fetch_update_ixs_def pdone_def)
  next
    case False
    then show ?thesis
      using failover_first_success [of c oracles k sc verdict _ _ _ s, OF assms] bad [of "map verdict (gateways sc)"]
      by (auto simp: fetch_update_ixs_def last_map)
  qed
qed

section \<open>The warm-keeper\<close>

lemma emits_try_crank:
  "emits (try_crank c k sc os g) (\<lambda>res es. (es = [] \<and> \<not> is_ok res) \<or>
     (\<exists>ixs luts bh sigs. es = [EvSend (V0Tx ixs luts (kp_pubkey k (swb_payer sc)) bh sigs)]))"
  (is "emits _ ?\<Phi>")
proof -
  have send: "emits (pseq (emit (EvSend tx)) (\<lambda>_. call c (c_send_and_confirm c tx))) (\<lambda>res es. es = [EvSend tx])" for tx
    by (rule emits_pseq [OF emits_emit [where \<Phi> = "\<lambda>_ es. es = [EvSend tx]"]])
      (auto intro: emits_silent silent_call)
  show ?thesis
    unfolding try_crank_def Let_def
    by (intro emits_bind_silent emits_case_prod silent_fetch_update_via silent_call silent_pdone
        emits_mono [OF send]) auto
qed

lemma emits_failover_crank:
  fixes c :: "'w client"
  shows "emits (failover (try_crank c k sc os) n gs l :: ('w, 'h, signature res) prog)
     (\<lambda>res es. length (sends es) \<le> length gs \<and> (is_ok res \<longrightarrow> sends es \<noteq> []) \<and>
        (\<forall>tx. EvSend tx \<in> set es \<longrightarrow> tx_payer tx = kp_pubkey k (swb_payer sc)))"
proof (induction gs arbitrary: l)
  case (Cons g gs)
  have rest: "emits (failover (try_crank c k sc os) n gs (Some e) :: ('w, 'h, signature res) prog)
      (\<lambda>res es. length (sends es) \<le> length gs \<and> (is_ok res \<longrightarrow> sends es \<noteq> []) \<and>
        (\<forall>tx. EvSend tx \<in> set es \<longrightarrow> tx_payer tx = kp_pubkey k (swb_payer sc)))" for e
    by (rule Cons.IH)
  show ?case
    unfolding failover.simps
    by (rule emits_ptry [OF emits_try_crank])
      (auto intro!: emits_pdone emits_mono [OF rest])
qed (simp add: emits_pdone)

text \<open>
  A warm-keeper update submits at most one transaction per gateway, each paid by the
  fee payer; a reported signature means that a transaction was submitted, and an empty
  oracle list submits nothing.
\<close>

lemma crank_bounded:
  "emits (crank c k sc oracles)
     (\<lambda>res es. length (sends es) \<le> (if oracles = [] then 0 else length (gateways sc)) \<and>
        ((\<exists>sg. res = Ok (Some sg)) \<longrightarrow> sends es \<noteq> []) \<and>
        (\<forall>tx. EvSend tx \<in> set es \<longrightarrow> tx_payer tx = kp_pubkey k (swb_payer sc)))"
proof (cases "oracles = []")
  case True
  then show ?thesis by (simp add: crank_def emits_pdone)
next
  case False
  then show ?thesis
    unfolding crank_def
    by simp (rule emits_pbind [OF emits_failover_crank], auto intro!: emits_pdone)
qed

text \<open>
  The warm-keeper's sleep between two updates ends after at most one 500 ms step per
  half second of the interval, rounded up, and when the stop flag is already set it ends at
  once and reports it.
\<close>

lemma swb_sleep_bounded:
  fixes c :: "'w client" and s :: "('w, 'h) sys"
  shows "emits (swb_sleep c interval elapsed :: ('w, 'h, bool) prog)
     (\<lambda>halt es. es = replicate (length es) (EvSleep 500) \<and> length es * 500 < (interval - elapsed) + 500)
   \<and> (stop (shm s) \<longrightarrow> elapsed < interval \<longrightarrow> swb_sleep c interval elapsed s = (True, s))"
proof -
  have "emits (swb_sleep c interval elapsed :: ('w, 'h, bool) prog)
     (\<lambda>halt es. es = replicate (length es) (EvSleep 500) \<and> length es * 500 < (interval - elapsed) + 500)"
  proof (induction c interval elapsed rule: swb_sleep.induct)
    case (1 c interval elapsed)
    show ?case
    proof (cases "elapsed < interval")
      case False
      then show ?thesis by (subst swb_sleep.simps) (simp add: emits_pdone)
    next
      case True
      have IH: "emits (swb_sleep c interval (elapsed + 500) :: ('w, 'h, bool) prog)
         (\<lambda>halt es. es = replicate (length es) (EvSleep 500) \<and> length es * 500 < (interval - (elapsed + 500)) + 500)"
        using "1.IH" True by blast
      have step: "500 + n * 500 < interval + 500 - elapsed" if "n * 500 < interval - (elapsed + 500) + 500" for n
        using that True by arith
      have "emits (pseq (sleep_ms c 500) (\<lambda>_. swb_sleep c interval (elapsed + 500)) :: ('w, 'h, bool) prog)
         (\<lambda>halt es. es = replicate (length es) (EvSleep 500) \<and> length es * 500 < (interval - elapsed) + 500)"
        by (rule emits_pseq [OF emits_sleep_ms]) (use True step in \<open>auto intro!: emits_mono [OF IH]\<close>)
      then show ?thesis
        using True by (subst swb_sleep.simps) (auto intro!: emits_after_silent silent_gets emits_pdone)
    qed
  qed
  moreover have "swb_sleep c interval elapsed s = (True, s)" if "stop (shm s)" "elapsed < interval"
    using that by (subst swb_sleep.simps) (simp add: prog_run)
  ultimately show ?thesis by auto
qed

end
