(* ===== verification/Crank_F64.thy ===== *)
theory Crank_F64
  imports Complex_Main "HOL-Library.Log_Nat"
begin

text \<open>
  Rust's \<open>f64\<close> arithmetic where the program uses it: conversions from integers, a
  division and a multiplication of positive numbers between \<open>2^-64\<close> and \<open>2^78\<close>. There every
  operation is exact arithmetic followed by rounding to 53 significant bits, ties to even
  (IEEE 754 binary64 without subnormals or overflow). Values are exact rationals.
\<close>

definition round_half_even :: "rat \<Rightarrow> int" where
  "round_half_even x =
     (let f = \<lfloor>x\<rfloor>; d = x - of_int f
      in if d < 1 / 2 then f else if d > 1 / 2 then f + 1 else if even f then f else f + 1)"

text \<open>\<open>f64_exp x\<close> is \<open>64 + \<lfloor>log2 x\<rfloor>\<close> for \<open>x \<ge> 2^-64\<close>.\<close>

definition f64_exp :: "rat \<Rightarrow> nat" where
  "f64_exp x = floorlog 2 (nat \<lfloor>x * 2 ^ 64\<rfloor>) - 1"

definition f64_scale :: "nat \<Rightarrow> rat" where
  "f64_scale k = 2 ^ 116 / 2 ^ k"

definition f64_round :: "rat \<Rightarrow> rat" where
  "f64_round x =
     (if x \<le> 0 then 0
      else of_int (round_half_even (x * f64_scale (f64_exp x))) / f64_scale (f64_exp x))"

section \<open>Rounding to an integer\<close>

lemma round_half_even_bounds: "\<lfloor>x\<rfloor> \<le> round_half_even x" "round_half_even x \<le> \<lfloor>x\<rfloor> + 1"
  by (auto simp: round_half_even_def Let_def)

lemma round_half_even_int [simp]: "round_half_even (of_int n) = n"
  by (simp add: round_half_even_def)

lemma round_half_even_mono: "x \<le> y \<Longrightarrow> round_half_even x \<le> round_half_even y"
proof (cases "\<lfloor>x\<rfloor> = \<lfloor>y\<rfloor>")
  case True
  then show "x \<le> y \<Longrightarrow> ?thesis" by (auto simp: round_half_even_def Let_def)
next
  case False
  assume "x \<le> y"
  with False have "\<lfloor>x\<rfloor> + 1 \<le> \<lfloor>y\<rfloor>" by (metis floor_mono le_neq_trans zless_imp_add1_zle)
  then show ?thesis using round_half_even_bounds [of x] round_half_even_bounds [of y] by linarith
qed

lemma round_half_even_error: "\<bar>of_int (round_half_even x) - x\<bar> \<le> 1 / 2"
proof -
  have "of_int \<lfloor>x\<rfloor> \<le> x" "x < of_int \<lfloor>x\<rfloor> + 1" by linarith+
  then show ?thesis by (auto simp: round_half_even_def Let_def)
qed

lemma round_half_even_eqI: "\<bar>of_int n - x\<bar> < 1 / 2 \<Longrightarrow> round_half_even x = n"
  using round_half_even_error [of x] by linarith

section \<open>Rounding to 53 bits\<close>

lemma f64_scale_pos [simp]: "0 < f64_scale k"
  by (simp add: f64_scale_def)

lemma f64_scale_nonzero [simp]: "f64_scale k \<noteq> 0"
  by (simp add: f64_scale_def)

lemma f64_exp_bounds:
  assumes "1 \<le> x * 2 ^ 64"
  shows "2 ^ 52 \<le> x * f64_scale (f64_exp x)" "x * f64_scale (f64_exp x) < 2 ^ 53"
proof -
  define n where "n = nat \<lfloor>x * 2 ^ 64\<rfloor>"
  have "1 \<le> \<lfloor>x * 2 ^ 64\<rfloor>" using assms by simp
  then have n: "0 < n" "of_nat n \<le> x * 2 ^ 64" "x * 2 ^ 64 < of_nat n + 1"
    unfolding n_def by (simp_all add: of_nat_nat) linarith+
  define k where "k = f64_exp x"
  have "2 ^ (floorlog 2 n - 1) \<le> n" "n < 2 ^ floorlog 2 n"
    using floorlog_bounds [of n 2] n(1) by auto
  moreover have "floorlog 2 n = Suc k"
    using n(1) by (simp add: k_def f64_exp_def n_def floorlog_def)
  ultimately have k: "2 ^ k \<le> n" "n + 1 \<le> 2 ^ Suc k" by auto
  have lo: "(2 :: rat) ^ k \<le> x * 2 ^ 64"
    using k(1) n(2) by (metis (mono_tags, opaque_lifting) of_nat_le_iff of_nat_numeral of_nat_power order_trans)
  have "of_nat n + 1 \<le> (2 :: rat) ^ Suc k"
    using k(2) by (metis (mono_tags, opaque_lifting) of_nat_1 of_nat_add of_nat_le_iff of_nat_numeral of_nat_power)
  then have hi: "x * 2 ^ 64 < (2 :: rat) * 2 ^ k" using n(3) by simp
  have eq: "x * f64_scale k = (x * 2 ^ 64) * 2 ^ 52 / 2 ^ k"
    by (simp add: f64_scale_def)
  show "2 ^ 52 \<le> x * f64_scale (f64_exp x)" "x * f64_scale (f64_exp x) < 2 ^ 53"
    using lo hi by (simp_all add: k_def [symmetric] eq field_simps)
qed

lemma f64_exp_mono: "x \<le> y \<Longrightarrow> f64_exp x \<le> f64_exp y"
  by (simp add: f64_exp_def diff_le_mono floorlog_mono floor_mono nat_mono)

lemma f64_round_mono:
  assumes "1 \<le> x * 2 ^ 64" "x \<le> y"
  shows "f64_round x \<le> f64_round y"
proof -
  have pos: "0 < x" "0 < y" and y: "1 \<le> y * 2 ^ 64" using assms by (auto simp: field_simps)
  show ?thesis
  proof (cases "f64_exp x = f64_exp y")
    case True
    have "x * f64_scale (f64_exp y) \<le> y * f64_scale (f64_exp y)"
      using assms(2) by (simp add: mult_right_mono less_imp_le)
    from round_half_even_mono [OF this] show ?thesis
      using pos True by (simp add: f64_round_def divide_right_mono less_imp_le)
  next
    case False
    then obtain d where d: "f64_exp y = Suc (f64_exp x) + d"
      using f64_exp_mono [OF assms(2)] by (metis add_Suc le_neq_implies_less less_iff_Suc_add)
    define a where "a = f64_scale (f64_exp x)"
    define b where "b = f64_scale (f64_exp y)"
    have ab: "a = 2 * 2 ^ d * b" by (simp add: a_def b_def d f64_scale_def power_add)
    have "2 * b \<le> a"
      using mult_right_mono [of 1 "2 ^ d" "2 * b"] by (simp add: ab b_def mult.assoc mult.left_commute less_imp_le)
    then have cross: "2 ^ 53 / a \<le> 2 ^ 52 / b"
      by (simp add: a_def b_def frac_le field_simps)
    have "round_half_even (x * a) \<le> round_half_even (of_int (2 ^ 53))"
      using f64_exp_bounds(2) [OF assms(1)] by (intro round_half_even_mono) (simp add: a_def)
    then have "round_half_even (x * a) \<le> 2 ^ 53" by (simp only: round_half_even_int)
    then have "of_int (round_half_even (x * a)) \<le> (of_int (2 ^ 53) :: rat)" by (rule of_int_le_iff [THEN iffD2])
    then have 1: "of_int (round_half_even (x * a)) / a \<le> 2 ^ 53 / a"
      by (intro divide_right_mono) (simp_all add: a_def less_imp_le)
    have "round_half_even (of_int (2 ^ 52)) \<le> round_half_even (y * b)"
      using f64_exp_bounds(1) [OF y] by (intro round_half_even_mono) (simp add: b_def)
    then have "2 ^ 52 \<le> round_half_even (y * b)" by (simp only: round_half_even_int)
    then have "(of_int (2 ^ 52) :: rat) \<le> of_int (round_half_even (y * b))" by (rule of_int_le_iff [THEN iffD2])
    then have 2: "2 ^ 52 / b \<le> of_int (round_half_even (y * b)) / b"
      by (intro divide_right_mono) (simp_all add: b_def less_imp_le)
    from 1 cross 2 show ?thesis
      using pos by (simp add: f64_round_def a_def [symmetric] b_def [symmetric])
  qed
qed

lemma f64_round_error:
  assumes "1 \<le> x * 2 ^ 64"
  shows "\<bar>f64_round x - x\<bar> \<le> x / 2 ^ 53"
proof -
  have pos: "0 < x" using assms by (simp add: field_simps)
  define a where "a = f64_scale (f64_exp x)"
  have "\<bar>of_int (round_half_even (x * a)) - x * a\<bar> \<le> 1 / 2" by (rule round_half_even_error)
  moreover have "1 / 2 \<le> x * a / 2 ^ 53" using f64_exp_bounds(1) [OF assms] by (simp add: a_def)
  ultimately have "\<bar>of_int (round_half_even (x * a)) - x * a\<bar> \<le> x * a / 2 ^ 53" by linarith
  then have "\<bar>of_int (round_half_even (x * a)) - x * a\<bar> / a \<le> x * a / 2 ^ 53 / a"
    by (rule divide_right_mono) (simp add: a_def less_imp_le)
  moreover have "\<bar>of_int (round_half_even (x * a)) / a - x\<bar> = \<bar>of_int (round_half_even (x * a)) - x * a\<bar> / a"
  proof -
    have "0 < a" by (simp add: a_def)
    then have "of_int (round_half_even (x * a)) / a - x = (of_int (round_half_even (x * a)) - x * a) / a"
      by (simp add: diff_divide_distrib)
    then show ?thesis using \<open>0 < a\<close> by (simp add: abs_divide)
  qed
  moreover have "x * a / 2 ^ 53 / a = x / 2 ^ 53"
    using less_imp_neq [OF f64_scale_pos [of "f64_exp x"]] by (simp add: a_def)
  ultimately have "\<bar>of_int (round_half_even (x * a)) / a - x\<bar> \<le> x / 2 ^ 53" by metis
  then show ?thesis using pos by (simp add: f64_round_def a_def [symmetric])
qed

text \<open>Integers of at most 53 bits are exact.\<close>

lemma f64_round_nat:
  assumes "n < 2 ^ 53"
  shows "f64_round (of_nat n) = of_nat n"
proof (cases "n = 0")
  case False
  then have n: "1 \<le> (of_nat n :: rat) * 2 ^ 64"
  proof -
    have "(1 :: rat) \<le> of_nat n" using False by simp
    then show ?thesis by simp
  qed
  define k where "k = f64_exp (of_nat n)"
  have "2 ^ 52 \<le> (of_nat n :: rat) * f64_scale k" using f64_exp_bounds(1) [OF n] by (simp add: k_def)
  then have "2 ^ k \<le> (of_nat n :: rat) * 2 ^ 64" by (simp add: f64_scale_def field_simps)
  also have "\<dots> < 2 ^ 53 * 2 ^ 64"
  proof -
    have "(of_nat n :: rat) < of_nat (2 ^ 53)" using assms by (rule of_nat_less_iff [THEN iffD2])
    then show ?thesis by simp
  qed
  finally have "(2 :: rat) ^ k < 2 ^ 117" by (simp flip: power_add)
  then have "k \<le> 116" using power_strict_increasing_iff [of "2::rat" k 117] by simp
  then have eq: "(2 :: rat) ^ 116 = 2 ^ (116 - k) * 2 ^ k" by (metis le_add_diff_inverse2 power_add)
  have "f64_scale k = of_int (2 ^ (116 - k))" unfolding f64_scale_def by (subst eq) simp
  then have "(of_nat n :: rat) * f64_scale k = of_int (int n * 2 ^ (116 - k))" by simp
  then have "of_int (round_half_even (of_nat n * f64_scale k)) = (of_nat n :: rat) * f64_scale k"
    by (metis round_half_even_int)
  then show ?thesis using False f64_scale_pos [of k] by (simp add: f64_round_def k_def [symmetric])
qed (simp add: f64_round_def)

end
