(* ===== verification/Crank_Util.thy ===== *)
theory Crank_Util
  imports Crank_World Crank_F64
begin

text \<open>
  \<open>handlers/util.rs\<close>: the wall clock, the amount field of an SPL token account, and the
  repay sizing the program enforces; and \<open>static_accrued_ratio_bps\<close> of the liquidator,
  the one floating point computation of the program.
\<close>

section \<open>Definitions\<close>

text \<open>\<open>as_secs() as i64\<close> keeps the bits.\<close>

definition now_unix :: "'w client \<Rightarrow> ('w, 'h, i64) prog" where
  "now_unix c = pseq (sense (c_unix_secs c)) (\<lambda>d. pdone (case d of Some n \<Rightarrow> n | None \<Rightarrow> 0))"

definition spl_token_amount :: "bytes \<Rightarrow> u64 option" where
  "spl_token_amount data = map_option from_le_bytes (get_slice data 64 72)"

definition p2pool_full_repay_staged_atoms :: "u64 \<Rightarrow> u64" where
  "p2pool_full_repay_staged_atoms repay_atoms =
     sat_add (sat_add repay_atoms (repay_atoms div 50)) 64"

definition min_partial_repay_atoms :: "u64 \<Rightarrow> u64" where
  "min_partial_repay_atoms outstanding = max (outstanding div 100) 1000"

definition STATIC_LTV_PREFILTER_BPS :: u32 where
  "STATIC_LTV_PREFILTER_BPS = 10500"

definition static_accrued_ratio_bps :: "u64 \<Rightarrow> u64 \<Rightarrow> u32" where
  "static_accrued_ratio_bps outstanding_debt_atoms principal_debt_atoms =
     (if principal_debt_atoms = 0 then 0
      else let ratio = f64_round (f64_round (f64_round (of_nat (unat outstanding_debt_atoms))
                                    / f64_round (of_nat (unat principal_debt_atoms))) * 10000)
           in word_of_int \<lfloor>max 0 (min (2 ^ 32 - 1) ratio)\<rfloor>)"

section \<open>Token amounts\<close>

lemma spl_token_amount_None_iff: "spl_token_amount data = None \<longleftrightarrow> length data < 72"
  by (auto simp: spl_token_amount_def get_slice_def)

lemma spl_token_amount_layout:
  assumes "length pre = 64"
  shows "spl_token_amount (pre @ to_le_bytes amount @ post) = Some amount"
proof -
  have "from_le_bytes (to_le_bytes amount) = amount" by (rule from_to_le_bytes [of 8]) simp
  then show ?thesis using assms by (simp add: spl_token_amount_def)
qed

section \<open>Repay sizing\<close>

lemma unat_p2pool_staged:
  "unat (p2pool_full_repay_staged_atoms r) = min (unat r + unat r div 50 + 64) (2 ^ 64 - 1)"
  by (simp add: p2pool_full_repay_staged_atoms_def int_ops unat_div_distrib)

lemma unat_min_partial: "unat (min_partial_repay_atoms r) = max (unat r div 100) 1000"
  by (simp add: min_partial_repay_atoms_def max_def word_le_nat_alt unat_div_distrib)

lemma p2pool_staged_covers: "r \<le> p2pool_full_repay_staged_atoms r"
  using unat_less_exp [of r] by (simp add: word_le_nat_alt unat_p2pool_staged)

section \<open>The LTV prefilter\<close>

text \<open>The clamped, truncated ratio reaches the threshold exactly when the \<open>f64\<close> ratio does.\<close>

lemma ratio_threshold:
  assumes "p \<noteq> 0"
  shows "STATIC_LTV_PREFILTER_BPS \<le> static_accrued_ratio_bps o1 p \<longleftrightarrow>
     10500 \<le> f64_round (f64_round (f64_round (of_nat (unat o1)) / f64_round (of_nat (unat p))) * 10000)"
    (is "_ \<longleftrightarrow> _ \<le> ?r")
proof -
  define v where "v = \<lfloor>max 0 (min (2 ^ 32 - 1) ?r)\<rfloor>"
  have v0: "0 \<le> v" by (simp add: v_def)
  have "max 0 (min (2 ^ 32 - 1) ?r) \<le> 2 ^ 32 - 1" by simp
  then have "v \<le> \<lfloor>2 ^ 32 - 1 :: rat\<rfloor>" unfolding v_def by (rule floor_mono)
  then have v1: "v \<le> 2 ^ 32 - 1" by simp
  have "uint (word_of_int v :: u32) = v"
    using v0 v1 by (simp add: uint_word_of_int_eq take_bit_int_eq_self)
  then have "STATIC_LTV_PREFILTER_BPS \<le> static_accrued_ratio_bps o1 p \<longleftrightarrow> 10500 \<le> v"
    using assms by (simp add: word_le_def static_accrued_ratio_bps_def STATIC_LTV_PREFILTER_BPS_def Let_def v_def)
  also have "\<dots> \<longleftrightarrow> 10500 \<le> ?r" by (auto simp: v_def le_floor_iff max_def min_def)
  finally show ?thesis .
qed

lemma f64_exp_eqI:
  assumes "2 ^ k \<le> x * 2 ^ 64" "x * 2 ^ 64 < 2 ^ Suc k"
  shows "f64_exp x = k"
proof -
  have one: "1 \<le> x * 2 ^ 64" using assms(1) by (rule order_trans [rotated]) simp
  have "2 ^ 52 \<le> x * f64_scale (f64_exp x)" "x * f64_scale (f64_exp x) < 2 ^ 53"
    using f64_exp_bounds [OF one] by auto
  then have "2 ^ f64_exp x \<le> x * 2 ^ 64" "x * 2 ^ 64 < 2 ^ Suc (f64_exp x)"
    by (simp_all add: f64_scale_def field_simps)
  with assms have "(2 :: rat) ^ f64_exp x < 2 ^ Suc k" "(2 :: rat) ^ k < 2 ^ Suc (f64_exp x)"
    by linarith+
  then show ?thesis
    using power_strict_increasing_iff [of "2 :: rat" "f64_exp x" "Suc k"]
      power_strict_increasing_iff [of "2 :: rat" k "Suc (f64_exp x)"] by simp
qed

lemma f64_threshold_quotient: "f64_round (21 / 20) = 4728779608739021 / 2 ^ 52"
proof -
  have "f64_exp (21 / 20) = 64" by (rule f64_exp_eqI) simp_all
  moreover have "round_half_even (21 / 20 * 2 ^ 52) = 4728779608739021"
    by (rule round_half_even_eqI) simp
  ultimately show ?thesis by (simp add: f64_round_def f64_scale_def)
qed

lemma f64_threshold_product: "f64_round (4728779608739021 / 2 ^ 52 * 10000) = 10500"
proof -
  have "f64_exp (4728779608739021 / 2 ^ 52 * 10000) = 77" by (rule f64_exp_eqI) simp_all
  moreover have "round_half_even (4728779608739021 / 2 ^ 52 * 10000 * 2 ^ 39) = 5772436045824000"
    by (rule round_half_even_eqI) simp
  ultimately show ?thesis by (simp add: f64_round_def f64_scale_def)
qed

lemma ratio_reaches:
  assumes "21 / 20 \<le> x"
  shows "10500 \<le> f64_round (f64_round x * 10000)"
proof -
  have "f64_round (21 / 20) \<le> f64_round x" by (rule f64_round_mono) (use assms in simp_all)
  then have "f64_round (4728779608739021 / 2 ^ 52 * 10000) \<le> f64_round (f64_round x * 10000)"
    unfolding f64_threshold_quotient by (intro f64_round_mono) simp_all
  then show ?thesis by (simp only: f64_threshold_product)
qed

lemma ratio_misses:
  assumes "1 \<le> x * 2 ^ 45" "x \<le> 21 / 20 - 1 / (20 * 2 ^ 45)"
  shows "f64_round (f64_round x * 10000) < 10500"
proof -
  have "\<bar>f64_round x - x\<bar> \<le> x / 2 ^ 53" by (rule f64_round_error) (use assms(1) in simp)
  then have q: "f64_round x \<le> x + x / 2 ^ 53" "x - x / 2 ^ 53 \<le> f64_round x" by linarith+
  have "x / 2 \<le> x - x / 2 ^ 53" using assms(1) by simp
  with q(2) have "x / 2 \<le> f64_round x" by linarith
  then have "1 \<le> f64_round x * 10000 * 2 ^ 64" using assms(1) by simp
  then have "\<bar>f64_round (f64_round x * 10000) - f64_round x * 10000\<bar> \<le> f64_round x * 10000 / 2 ^ 53"
    by (rule f64_round_error)
  then have "f64_round (f64_round x * 10000) \<le> f64_round x * 10000 + f64_round x * 10000 / 2 ^ 53"
    by linarith
  with q(1) assms(2) show ?thesis by simp
qed

lemma prefilter_iff:
  assumes "p \<noteq> 0" "p \<le> 2 ^ 45" "o1 \<le> 2 ^ 45"
  shows "STATIC_LTV_PREFILTER_BPS \<le> static_accrued_ratio_bps o1 p \<longleftrightarrow> 21 * unat p \<le> 20 * unat o1"
proof -
  define n where "n = unat o1"
  define m where "m = unat p"
  define x :: rat where "x = of_nat n / of_nat m"
  have m: "0 < m" "m \<le> 2 ^ 45" and n: "n \<le> 2 ^ 45"
    using assms by (auto simp: word_le_nat_alt unat_gt_0 n_def m_def)
  have ex: "f64_round (of_nat m) = of_nat m" "f64_round (of_nat n) = of_nat n"
    by (rule f64_round_nat, use m(2) n in simp)+
  have thr: "STATIC_LTV_PREFILTER_BPS \<le> static_accrued_ratio_bps o1 p \<longleftrightarrow>
      10500 \<le> f64_round (f64_round x * 10000)"
    unfolding ratio_threshold [OF assms(1)] n_def [symmetric] m_def [symmetric] ex x_def by (rule refl)
  have "10500 \<le> f64_round (f64_round x * 10000) \<longleftrightarrow> 21 * m \<le> 20 * n"
  proof (cases "21 * m \<le> 20 * n")
    case True
    then have "(of_nat (21 * m) :: rat) \<le> of_nat (20 * n)" by (rule of_nat_le_iff [THEN iffD2])
    then have "21 / 20 \<le> x" using m(1) by (simp add: x_def field_simps)
    from ratio_reaches [OF this] show ?thesis using True by simp
  next
    case False
    show ?thesis
    proof (cases "n = 0")
      case True
      then show ?thesis using False by (simp add: f64_round_def x_def)
    next
      case nz: False
      from False have "(of_nat (20 * n + 1) :: rat) \<le> of_nat (21 * m)"
        by (intro of_nat_le_iff [THEN iffD2]) simp
      then have "x \<le> 21 / 20 - 1 / (20 * of_nat m)" using m(1) by (simp add: x_def field_simps)
      also have "\<dots> \<le> 21 / 20 - 1 / (20 * 2 ^ 45)"
      proof -
        have "(of_nat m :: rat) \<le> of_nat (2 ^ 45)" using m(2) by (rule of_nat_le_iff [THEN iffD2])
        then show ?thesis using m(1) by (simp add: field_simps)
      qed
      finally have hi: "x \<le> 21 / 20 - 1 / (20 * 2 ^ 45)" .
      have "m \<le> n * 2 ^ 45" using m(2) nz by (simp add: order_trans)
      then have "(of_nat m :: rat) \<le> of_nat (n * 2 ^ 45)" by (rule of_nat_le_iff [THEN iffD2])
      then have "1 \<le> x * 2 ^ 45" using m(1) by (simp add: x_def field_simps)
      from ratio_misses [OF this hi] show ?thesis using False by simp
    qed
  qed
  with thr show ?thesis by (simp only: n_def m_def)
qed

text \<open>
  C9. For amounts up to \<open>2^45\<close> atoms the floating point prefilter is the exact integer
  comparison: a Fixed loan passes it if and only if its outstanding debt is at least 1.05
  times its principal. No rounding of the conversions, the division or the product shows.
\<close>

theorem prefilter_exact:
  assumes "p \<noteq> 0" "p \<le> 2 ^ 45" "o1 \<le> 2 ^ 45"
  shows "STATIC_LTV_PREFILTER_BPS \<le> static_accrued_ratio_bps o1 p \<longleftrightarrow> 21 * unat p \<le> 20 * unat o1"
  using assms by (rule prefilter_iff)

text \<open>Both sides of the threshold, at the amounts of the unit tests.\<close>

theorem prefilter_exact_witness:
  "STATIC_LTV_PREFILTER_BPS \<le> static_accrued_ratio_bps 1050000 1000000 \<and>
   \<not> STATIC_LTV_PREFILTER_BPS \<le> static_accrued_ratio_bps 1049999 1000000"
  using prefilter_exact [of 1000000 1050000] prefilter_exact [of 1000000 1049999] by simp

end
