(* ===== verification/Handler_Kit.thy ===== *)
theory Handler_Kit
  imports Swb_Cranker Crank_Util
begin

text \<open>
  What the five handlers share: the context, the in-flight set every handler guards its
  candidates with, and the loop that attempts each candidate, counts the successes and
  logs the failures. The locales state what a handler promises the supervisor; each
  handler's theory interprets them.
\<close>

section \<open>Definitions\<close>

text \<open>\<open>HandlerContext\<close>: the shared flags and balances live in the shared memory.\<close>

record handler_context =
  hc_cfg :: config
  hc_rpc :: rpc
  hc_signers :: signers
  hc_swb :: "swb_cranker option"

text \<open>A handler's own memory is its in-flight set.\<close>

definition claim_inflight :: "'k \<Rightarrow> ('w, 'k set, bool) prog" where
  "claim_inflight key s = (key \<notin> own s, s\<lparr>own := insert key (own s)\<rparr>)"

definition release_inflight :: "'k \<Rightarrow> ('w, 'k set, unit) prog" where
  "release_inflight key s = ((), s\<lparr>own := own s - {key}\<rparr>)"

text \<open>
  The guarded attempt: skip a key that is in flight, else run \<open>m\<close>, release the key and
  continue with \<open>m\<close>'s result. A panic of \<open>m\<close> unwinds past the release.
\<close>

definition guarded ::
    "'k \<Rightarrow> ('w, 'k set, 'b res) prog \<Rightarrow> ('w, 'k set, 'a res) prog \<Rightarrow>
     ('b res \<Rightarrow> ('w, 'k set, 'a res) prog) \<Rightarrow> ('w, 'k set, 'a res) prog" where
  "guarded key m skip f =
     pseq (claim_inflight key) (\<lambda>fresh.
       if \<not> fresh then skip
       else pseq m (\<lambda>res. case res of Panic \<Rightarrow> pdone Panic
              | _ \<Rightarrow> pseq (release_inflight key) (\<lambda>_. f res)))"

text \<open>\<open>match res { Ok(true) => n += 1, Ok(false) => {}, Err(e) => warn }\<close>\<close>

fun tally :: "bool res \<Rightarrow> nat \<Rightarrow> nat res" where
  "tally (Ok True) n = Ok (Suc n)"
| "tally (Ok False) n = Ok n"
| "tally (Err e) n = Ok n"
| "tally Panic n = Panic"

definition attempt_one ::
    "('x \<Rightarrow> 'k) \<Rightarrow> ('x \<Rightarrow> ('w, 'k set, bool res) prog) \<Rightarrow> 'x \<Rightarrow> nat \<Rightarrow> ('w, 'k set, nat res) prog" where
  "attempt_one key attempt x n =
     guarded (key x) (attempt x) (pdone (Ok n)) (\<lambda>res. pdone (tally res n))"

text \<open>The simulated and then submitted bundle of one instruction (promoter and claimer).\<close>

definition sim_then_send ::
    "'w client \<Rightarrow> sdk \<Rightarrow> handler_context \<Rightarrow> string \<Rightarrow> instruction \<Rightarrow> ('w, 'h, bool res) prog" where
  "sim_then_send c k ctx label ix =
     (let payer = fee_payer (hc_signers ctx) in
      pbind (simulate c k (hc_rpc ctx) [ix] (kp_pubkey k payer)) (\<lambda>sim.
      if \<not> sim_ok sim then pdone (Ok False)
      else pbind (send_signed_labeled c k (hc_rpc ctx) label [ix] [payer]) (\<lambda>_. pdone (Ok True))))"

text \<open>The bank of a mint, or the handler's error.\<close>

definition bank_for :: "bank_registry \<Rightarrow> (pubkey \<Rightarrow> handler_err) \<Rightarrow> pubkey \<Rightarrow> bank_info res" where
  "bank_for reg e mint = ok_or (HandlerErr (e mint)) (registry_get reg mint)"

section \<open>The in-flight guard\<close>

definition restores :: "('w, 'h, 'a res) prog \<Rightarrow> bool" where
  "restores m \<longleftrightarrow> (\<forall>s. fst (m s) \<noteq> Panic \<longrightarrow> own (snd (m s)) = own s)"

definition never_err :: "('w, 'h, 'a res) prog \<Rightarrow> bool" where
  "never_err m \<longleftrightarrow> (\<forall>s e. fst (m s) \<noteq> Err e)"

named_theorems handler_intro "introduction rules for restores and never_err"

lemma restores_keeps: "keeps_own m \<Longrightarrow> restores m"
  by (simp add: restores_def keeps_own_def)

lemma restores_pdone [handler_intro]: "restores (pdone r)"
  by (simp add: restores_def pdone_def)

lemma restores_ptry [handler_intro]:
  assumes "restores m" "\<And>a. restores (f a)" "\<And>e. restores (g e)"
  shows "restores (ptry m f g)"
  unfolding restores_def
proof (intro allI impI)
  fix s assume np: "fst (ptry m f g s) \<noteq> Panic"
  obtain q s1 where q: "m s = (q, s1)" by fastforce
  then have "q \<noteq> Panic" using np by (auto simp: ptry_run)
  then have s1: "own s1 = own s" using assms(1) q unfolding restores_def by (metis fst_conv snd_conv)
  show "own (snd (ptry m f g s)) = own s"
    using np q s1 assms(2,3) unfolding restores_def by (cases q) (auto simp: ptry_run)
qed

lemma restores_pbind [handler_intro]:
  "restores m \<Longrightarrow> (\<And>a. restores (f a)) \<Longrightarrow> restores (pbind m f)"
  unfolding pbind_def ptry_def [symmetric] by (intro restores_ptry restores_pdone)

lemma restores_pseq [handler_intro]:
  "keeps_own m \<Longrightarrow> (\<And>q. restores (f q)) \<Longrightarrow> restores (pseq m f)"
  unfolding restores_def keeps_own_def pseq_def by (auto split: prod.splits) (metis snd_conv)

lemma restores_result:
  assumes "restores m" "\<And>r. f r = Panic \<longleftrightarrow> r = Panic"
  shows "restores (pseq m (\<lambda>r. pdone (f r)))"
  unfolding restores_def
proof (intro allI impI)
  fix s assume np: "fst (pseq m (\<lambda>r. pdone (f r)) s) \<noteq> Panic"
  obtain q s1 where "m s = (q, s1)" by fastforce
  then show "own (snd (pseq m (\<lambda>r. pdone (f r)) s)) = own s"
    using np assms(1) [unfolded restores_def, rule_format, of s] assms(2) by (simp add: pseq_run pdone_def)
qed

lemma restores_if [handler_intro]: "restores m \<Longrightarrow> restores n \<Longrightarrow> restores (if b then m else n)"
  by simp

lemma restores_pfor [handler_intro]: "(\<And>x a. restores (f x a)) \<Longrightarrow> restores (pfor f xs a)"
  by (induction xs arbitrary: a) (auto intro: handler_intro)

lemma never_err_pdone: "(\<And>e. r \<noteq> Err e) \<Longrightarrow> never_err (pdone r)"
  by (simp add: never_err_def pdone_def)

lemma never_err_pbind [handler_intro]: "never_err m \<Longrightarrow> (\<And>a. never_err (f a)) \<Longrightarrow> never_err (pbind m f)"
  unfolding never_err_def by (auto simp: pbind_run split: prod.splits rresult.splits) (metis fst_conv)

lemma never_err_ptry [handler_intro]:
  "(\<And>a. never_err (f a)) \<Longrightarrow> (\<And>e. never_err (g e)) \<Longrightarrow> never_err (ptry m f g)"
  unfolding never_err_def by (auto simp: ptry_run split: prod.splits rresult.splits)

lemma never_err_pseq [handler_intro]: "(\<And>q. never_err (f q)) \<Longrightarrow> never_err (pseq m f)"
  unfolding never_err_def by (auto simp: pseq_run split: prod.splits)

lemma never_err_if [handler_intro]: "never_err m \<Longrightarrow> never_err n \<Longrightarrow> never_err (if b then m else n)"
  by simp

lemma never_err_pfor [handler_intro]: "(\<And>x a. never_err (f x a)) \<Longrightarrow> never_err (pfor f xs a)"
  by (induction xs arbitrary: a) (auto intro: handler_intro never_err_pdone)

lemma tally_not_Err [simp]: "tally r n \<noteq> Err e"
  by (cases "(r, n)" rule: tally.cases) auto

lemma tally_Panic_iff [simp]: "tally r n = Panic \<longleftrightarrow> r = Panic"
  by (cases "(r, n)" rule: tally.cases) auto

lemma guarded_run:
  "guarded key m skip f s =
     (if key \<in> own s then skip (s\<lparr>own := insert key (own s)\<rparr>)
      else case m (s\<lparr>own := insert key (own s)\<rparr>) of
          (Panic, s1) \<Rightarrow> (Panic, s1)
        | (res, s1) \<Rightarrow> f res (s1\<lparr>own := own s1 - {key}\<rparr>))"
  by (auto simp: guarded_def claim_inflight_def release_inflight_def pseq_run pdone_def
      split: prod.splits rresult.splits)

lemma own_idem: "key \<in> own s \<Longrightarrow> s\<lparr>own := insert key (own s)\<rparr> = s"
  by (simp add: insert_absorb)

text \<open>A key in flight is never attempted; a fresh one is in flight for the time of its attempt.\<close>

lemma guarded_busy: "key \<in> own s \<Longrightarrow> guarded key m skip f s = skip s"
  by (simp add: guarded_run own_idem)

lemma restores_guarded:
  assumes "keeps_own m" "restores skip" "\<And>r. restores (f r)"
  shows "restores (guarded key m skip f)"
  unfolding restores_def
proof (intro allI impI)
  fix s assume np: "fst (guarded key m skip f s) \<noteq> Panic"
  show "own (snd (guarded key m skip f s)) = own s"
  proof (cases "key \<in> own s")
    case True
    then show ?thesis using np assms(2) by (simp add: guarded_busy restores_def)
  next
    case False
    obtain q s1 where q: "m (s\<lparr>own := insert key (own s)\<rparr>) = (q, s1)" by fastforce
    have s1: "own s1 = insert key (own s)"
      using assms(1) [unfolded keeps_own_def, rule_format, of "s\<lparr>own := insert key (own s)\<rparr>"] q by simp
    have "own (s1\<lparr>own := own s1 - {key}\<rparr>) = own s" using s1 False by simp
    then show ?thesis
      using np False q assms(3) unfolding restores_def guarded_run
      by (cases q) auto
  qed
qed

lemma emits_guarded:
  assumes "emits m (\<lambda>_ es. Q es)" "\<And>r. emits (f r) (\<lambda>_ es. Q es)" "emits skip (\<lambda>_ es. Q es)"
    and app: "\<And>es es'. Q es \<Longrightarrow> Q es' \<Longrightarrow> Q (es @ es')"
  shows "emits (guarded key m skip f) (\<lambda>_ es. Q es)"
proof -
  have cl: "silent (claim_inflight key)" and re: "silent (release_inflight key)"
    by (simp_all add: silent_def emits_def claim_inflight_def release_inflight_def)
  have tail: "emits (case r of Panic \<Rightarrow> pdone Panic | _ \<Rightarrow> pseq (release_inflight key) (\<lambda>_. f r))
      (\<lambda>_ es'. Q (es @ es'))" if "Q es" for r es
    using that app by (cases r) (auto intro!: emits_pdone emits_after_silent re intro: emits_mono [OF assms(2)])
  have "emits (pseq m (\<lambda>r. case r of Panic \<Rightarrow> pdone Panic | _ \<Rightarrow> pseq (release_inflight key) (\<lambda>_. f r)))
      (\<lambda>_ es. Q es)"
    by (rule emits_pseq [OF assms(1)]) (rule tail)
  then show ?thesis
    unfolding guarded_def using assms(3) by (intro emits_after_silent cl) auto
qed

section \<open>Interfaces\<close>

text \<open>
  A handler with an in-flight set: an attempt leaves the set alone. The loop over the
  candidates then never fails and leaves the set as it found it.
\<close>

locale inflight_handler =
  fixes key :: "'x \<Rightarrow> 'k" and attempt :: "'x \<Rightarrow> ('w, 'k set, bool res) prog"
  assumes attempt_keeps: "keeps_own (attempt x)"
begin

lemma attempt_one_restores: "restores (attempt_one key attempt x n)"
  unfolding attempt_one_def by (intro restores_guarded attempt_keeps handler_intro)

lemma attempt_one_never_err: "never_err (attempt_one key attempt x n)"
  unfolding attempt_one_def guarded_def
  by (intro handler_intro never_err_pdone)
    (auto intro!: handler_intro never_err_pdone split: rresult.split)

lemma loop_restores: "restores (pfor (attempt_one key attempt) xs n)"
  by (intro handler_intro attempt_one_restores)

lemma loop_never_err: "never_err (pfor (attempt_one key attempt) xs n)"
  by (intro handler_intro attempt_one_never_err)

end

text \<open>
  A handler whose attempts are gated by simulation: every submission of an attempt was
  approved, bundle for bundle, by the last simulation before it. So is every submission of
  the loop.
\<close>

locale gated_handler = inflight_handler key attempt
  for key :: "'x \<Rightarrow> 'k" and attempt :: "'x \<Rightarrow> ('w, 'k set, bool res) prog" +
  fixes pre :: "instruction list"
  assumes attempt_gated: "emits (attempt x) (\<lambda>_ es. self_gated pre es)"
begin

lemma attempt_one_gated: "emits (attempt_one key attempt x n) (\<lambda>_ es. self_gated pre es)"
  unfolding attempt_one_def
  by (rule emits_guarded [OF attempt_gated]) (auto intro: emits_pdone self_gated_append)

lemma loop_gated: "emits (pfor (attempt_one key attempt) xs n) (\<lambda>_ es. self_gated pre es)"
  by (rule emits_pfor) (auto intro: attempt_one_gated self_gated_append)

end

section \<open>Gates\<close>

lemma emits_simulate_v0:
  "emits (simulate_v0 c k ixs luts payer) (\<lambda>res es. (es = [] \<and> \<not> is_ok res) \<or>
     (\<exists>v. res = Ok v \<and> es = [EvSim ixs luts payer (sim_ok v)]))"
proof -
  have "emits (pseq (emit (EvSim ixs luts payer ok)) (\<lambda>_. pdone (Ok v)))
      (\<lambda>res es. res = Ok v \<and> es = [EvSim ixs luts payer ok])" for ok and v :: simulation_result
    by (rule emits_pseq [OF emits_emit [where \<Phi> = "\<lambda>_ es. es = [EvSim ixs luts payer ok]"]])
      (auto intro: emits_pdone)
  note answer = emits_mono [OF this]
  show ?thesis
    unfolding simulate_v0_def
    by (intro emits_bind_silent silent_call silent_pdone answer) auto
qed

text \<open>Simulate, then maybe submit exactly what was simulated: a gated attempt.\<close>

lemma emits_sim_gate:
  assumes "\<And>v. \<not> sim_ok v \<Longrightarrow> emits (f v) (\<lambda>_ es. sends es = [])"
    and "\<And>v. sim_ok v \<Longrightarrow> emits (f v) (\<lambda>_ es. gated pre (Some (ixs, luts, payer)) es)"
  shows "emits (pbind (simulate_v0 c k ixs luts payer) f) (\<lambda>_ es. self_gated pre es)"
proof (rule emits_pbind [OF emits_simulate_v0])
  fix v :: simulation_result and es
  assume "es = [] \<and> \<not> is_ok (Ok v) \<or> (\<exists>va. Ok v = Ok va \<and> es = [EvSim ixs luts payer (sim_ok va)])"
  then have es: "es = [EvSim ixs luts payer (sim_ok v)]" by simp
  show "emits (f v) (\<lambda>_ es'. self_gated pre (es @ es'))"
  proof (cases "sim_ok v")
    case True
    then show ?thesis using emits_mono [OF assms(2)] by (auto simp: es self_gated_def)
  next
    case False
    then show ?thesis
      by (intro emits_mono [OF assms(1)]) (auto simp: es self_gated_def gated_no_send)
  qed
qed auto

lemma gated_retry_trace:
  assumes "retry_trace T n l es" "\<And>tx. T tx \<Longrightarrow> \<exists>ixs. g = Some (ixs, luts_of tx, tx_payer tx) \<and> tx_ixs tx = pre @ ixs"
  shows "gated pre g es" "gated pre g (es @ [EvIxMetric label b])"
proof -
  show "gated pre g es"
    using retry_trace_sends [OF assms(1)] assms(2) by (intro gated_sends) blast+
  then show "gated pre g (es @ [EvIxMetric label b])" by (simp add: gated_append)
qed

lemma gated_send_v0:
  "emits (send_signed_v0_labeled c k r label ixs luts (payer # signers))
     (\<lambda>_ es. gated (priority_fee_preamble k r V0_COMPUTE_UNIT_LIMIT) (Some (ixs, luts, kp_pubkey k payer)) es)"
  unfolding send_signed_v0_labeled.simps
  by (rule emits_count_ix [OF emits_send_v0_with_retry])
    (auto elim!: gated_retry_trace)

lemma gated_send_legacy:
  "emits (send_signed_labeled c k r label ixs (payer # signers))
     (\<lambda>_ es. gated [] (Some (priority_fee_preamble k r (compute_unit_limit r) @ ixs, [], kp_pubkey k payer)) es)"
  unfolding send_signed_labeled.simps
  by (rule emits_count_ix [OF emits_send_with_retry])
    (auto elim!: gated_retry_trace)

lemma sim_then_send_gated: "emits (sim_then_send c k ctx label ix) (\<lambda>_ es. self_gated [] es)"
proof -
  have "emits (pbind (send_signed_labeled c k r label [ix] [payer]) (\<lambda>_. pdone (Ok True)))
      (\<lambda>_ es. gated [] (Some (priority_fee_preamble k r (compute_unit_limit r) @ [ix], [], kp_pubkey k payer)) es)"
    for r payer
    by (rule emits_pbind [OF gated_send_legacy]) (auto intro: emits_pdone)
  then show ?thesis
    unfolding sim_then_send_def simulate_def Let_def
    by (intro emits_sim_gate) (auto intro: emits_pdone)
qed

lemma keeps_sim_then_send [keeps_intro]: "keeps_own (sim_then_send c k ctx label ix)"
  unfolding sim_then_send_def Let_def by (intro keeps_intro)

lemma silent_self_gated: "silent m \<Longrightarrow> emits m (\<lambda>_ es. self_gated pre es)"
  by (erule emits_silent) simp

end
