(* ===== verification/Crank_Steps.thy ===== *)
theory Crank_Steps
  imports Handler_Kit
begin

text \<open>
  Laws of what a program does between its suspensions. \<open>obeys Q m\<close>: from every state, \<open>m\<close>
  adds steps that \<open>Q\<close> relates to the shared memory before and after. The locale \<open>step_law\<close>
  names what \<open>Q\<close> has to satisfy for the program constructs, and for the programs that
  neither write to the shared memory nor submit anything, to obey it.
\<close>

definition obeys :: "(shared \<Rightarrow> step list \<Rightarrow> shared \<Rightarrow> bool) \<Rightarrow> ('w, 'h, 'r) prog \<Rightarrow> bool" where
  "obeys Q m \<longleftrightarrow>
     (\<forall>s. \<exists>sts. steps (snd (m s)) = steps s @ sts \<and> Q (shm s) sts (shm (snd (m s))))"

text \<open>The events that only the supervisor causes: a counted round.\<close>

fun is_tick :: "event \<Rightarrow> bool" where
  "is_tick (EvTick name outcome) = True"
| "is_tick _ = False"

named_theorems obeys_intro "introduction rules for obeys"

lemma obeys_if [obeys_intro]: "obeys Q m \<Longrightarrow> obeys Q n \<Longrightarrow> obeys Q (if b then m else n)"
  by simp

lemma obeys_case_option [obeys_intro]:
  "obeys Q m \<Longrightarrow> (\<And>x. obeys Q (f x)) \<Longrightarrow> obeys Q (case x of None \<Rightarrow> m | Some x \<Rightarrow> f x)"
  by (cases x) auto

lemma obeys_case_sum [obeys_intro]:
  "(\<And>x. obeys Q (f x)) \<Longrightarrow> (\<And>x. obeys Q (g x)) \<Longrightarrow> obeys Q (case x of Inl a \<Rightarrow> f a | Inr b \<Rightarrow> g b)"
  by (cases x) auto

lemma obeys_case_prod [obeys_intro]:
  "(\<And>a b. obeys Q (f a b)) \<Longrightarrow> obeys Q (case x of (a, b) \<Rightarrow> f a b)"
  by (cases x) auto

lemma obeys_case_lock [obeys_intro]:
  "(\<And>x. obeys Q (f x)) \<Longrightarrow> (\<And>x. obeys Q (g x)) \<Longrightarrow>
   obeys Q (case l of Healthy x \<Rightarrow> f x | Poisoned x \<Rightarrow> g x)"
  by (cases l) auto

lemma obeys_mono: "obeys Q m \<Longrightarrow> (\<And>a sts b. Q a sts b \<Longrightarrow> Q' a sts b) \<Longrightarrow> obeys Q' m"
  unfolding obeys_def by blast

lemma obeys_conj:
  assumes "obeys Q m" "obeys Q' m"
  shows "obeys (\<lambda>a sts b. Q a sts b \<and> Q' a sts b) m"
  unfolding obeys_def
proof
  fix s
  obtain l where l: "steps (snd (m s)) = steps s @ l" "Q (shm s) l (shm (snd (m s)))"
    using assms(1) unfolding obeys_def by blast
  obtain l' where l': "steps (snd (m s)) = steps s @ l'" "Q' (shm s) l' (shm (snd (m s)))"
    using assms(2) unfolding obeys_def by blast
  show "\<exists>sts. steps (snd (m s)) = steps s @ sts \<and> Q (shm s) sts (shm (snd (m s))) \<and> Q' (shm s) sts (shm (snd (m s)))"
    using l l' by auto
qed

text \<open>Programs that obey different laws, one after the other.\<close>

lemma obeys_then:
  fixes m :: "('w, 'h, 'q) prog" and f :: "'q \<Rightarrow> ('w, 'h, 'r) prog"
  assumes "obeys Q1 m" "\<And>q (s :: ('w, 'h) sys) s'. m s = (q, s') \<Longrightarrow> obeys Q2 (f q)"
    and "\<And>a x b y d. Q1 a x b \<Longrightarrow> Q2 b y d \<Longrightarrow> Q3 a (x @ y) d"
  shows "obeys Q3 (pseq m f)"
  unfolding obeys_def
proof
  fix s :: "('w, 'h) sys"
  obtain q s1 where m: "m s = (q, s1)" by fastforce
  obtain l where l: "steps s1 = steps s @ l" "Q1 (shm s) l (shm s1)"
    using assms(1) m unfolding obeys_def by (metis snd_conv)
  obtain l' where "steps (snd (f q s1)) = steps s1 @ l'" "Q2 (shm s1) l' (shm (snd (f q s1)))"
    using assms(2) [OF m] unfolding obeys_def by blast
  with m l assms(3) [OF l(2)]
  show "\<exists>sts. steps (snd (pseq m f s)) = steps s @ sts \<and> Q3 (shm s) sts (shm (snd (pseq m f s)))"
    by (auto simp: pseq_run)
qed

section \<open>Laws\<close>

locale step_law =
  fixes Q :: "shared \<Rightarrow> step list \<Rightarrow> shared \<Rightarrow> bool"
  assumes idle: "Q sh [] sh"
    and followed: "Q a sts b \<Longrightarrow> Q b sts' d \<Longrightarrow> Q a (sts @ sts') d"
    and switched: "Q a [Switched a b] b"
    and harmless: "\<not> is_send ev \<Longrightarrow> \<not> is_tick ev \<Longrightarrow> Q sh [Did ev] sh"
begin

lemma obeys_pdone [obeys_intro]: "obeys Q (pdone r)"
  by (simp add: obeys_def pdone_def idle)

lemma obeys_sense [obeys_intro]: "obeys Q (sense f)"
  by (simp add: obeys_def sense_def Let_def idle split: prod.splits)

lemma obeys_gets [obeys_intro]: "obeys Q (gets f)"
  by (simp add: obeys_def gets_def idle)

lemma obeys_await [obeys_intro]: "obeys Q (await c f)"
  by (simp add: obeys_def await_def Let_def switched split: prod.splits)

lemma obeys_quiet_emit: "\<not> is_send ev \<Longrightarrow> \<not> is_tick ev \<Longrightarrow> obeys Q (emit ev)"
  by (simp add: obeys_def emit_def harmless)

lemma obeys_puts: "(\<And>sh. Q sh [] (f sh)) \<Longrightarrow> obeys Q (puts f)"
  by (simp add: obeys_def puts_def)

lemma obeys_pseq_res:
  fixes m :: "('w, 'h, 'q) prog" and f :: "'q \<Rightarrow> ('w, 'h, 'r) prog"
  assumes "obeys Q m" "\<And>q (s :: ('w, 'h) sys) s'. m s = (q, s') \<Longrightarrow> obeys Q (f q)"
  shows "obeys Q (pseq m f)"
  using assms followed by (rule obeys_then [where ?Q1.0 = Q and ?Q2.0 = Q])

lemma obeys_pseq [obeys_intro]: "obeys Q m \<Longrightarrow> (\<And>q. obeys Q (f q)) \<Longrightarrow> obeys Q (pseq m f)"
  by (rule obeys_pseq_res)

lemma obeys_pbind_res:
  fixes m :: "('w, 'h, 'q res) prog" and f :: "'q \<Rightarrow> ('w, 'h, 'r res) prog"
  assumes "obeys Q m" "\<And>a (s :: ('w, 'h) sys) s'. m s = (Ok a, s') \<Longrightarrow> obeys Q (f a)"
  shows "obeys Q (pbind m f)"
  unfolding pbind_def
  by (rule obeys_pseq_res [OF assms(1)]) (auto intro: obeys_pdone assms(2) split: rresult.split)

lemma obeys_pbind [obeys_intro]: "obeys Q m \<Longrightarrow> (\<And>a. obeys Q (f a)) \<Longrightarrow> obeys Q (pbind m f)"
  by (rule obeys_pbind_res)

lemma obeys_ptry [obeys_intro]:
  "obeys Q m \<Longrightarrow> (\<And>a. obeys Q (f a)) \<Longrightarrow> (\<And>e. obeys Q (g e)) \<Longrightarrow> obeys Q (ptry m f g)"
  unfolding ptry_def by (intro obeys_pseq) (auto intro: obeys_pdone split: rresult.split)

lemma obeys_pctx [obeys_intro]: "obeys Q m \<Longrightarrow> obeys Q (pctx x m)"
  unfolding pctx_def by (intro obeys_intro)

lemma obeys_pfor [obeys_intro]: "(\<And>x a. obeys Q (f x a)) \<Longrightarrow> obeys Q (pfor f xs a)"
  by (induction xs arbitrary: a) (auto intro: obeys_intro)

lemma obeys_call [obeys_intro]: "obeys Q (call c f)"
  unfolding call_def by (intro obeys_intro)

lemma obeys_sleep_ms [obeys_intro]: "obeys Q (sleep_ms c n)"
  unfolding sleep_ms_def by (intro obeys_intro obeys_quiet_emit) simp_all

lemma obeys_own: "(\<And>s. shm (snd (m s)) = shm s \<and> steps (snd (m s)) = steps s) \<Longrightarrow> obeys Q m"
  by (simp add: obeys_def idle)

lemma obeys_guarded [obeys_intro]:
  assumes "obeys Q m" "obeys Q skip" "\<And>r. obeys Q (f r)"
  shows "obeys Q (guarded key m skip f)"
proof -
  have "obeys Q (claim_inflight key)" "obeys Q (release_inflight key)"
    by (simp_all add: obeys_own claim_inflight_def release_inflight_def)
  then show ?thesis
    unfolding guarded_def using assms
    by (intro obeys_intro) (auto intro: obeys_intro split: rresult.split)
qed

lemma obeys_attempt_one [obeys_intro]: "obeys Q (attempt x) \<Longrightarrow> obeys Q (attempt_one key attempt x n)"
  unfolding attempt_one_def by (intro obeys_intro)

text \<open>Programs that only read.\<close>

lemma obeys_check_previous [obeys_intro]: "obeys Q (check_previous c l)"
  unfolding check_previous_def by (intro obeys_intro obeys_quiet_emit) simp_all

lemma obeys_count_ix: "obeys Q m \<Longrightarrow> obeys Q (count_ix label m)"
  unfolding count_ix_def
  by (intro obeys_pseq) (auto intro!: obeys_intro obeys_quiet_emit split: rresult.split)

lemma obeys_simulate_v0 [obeys_intro]: "obeys Q (simulate_v0 c k ixs luts payer)"
  unfolding simulate_v0_def by (intro obeys_intro obeys_quiet_emit) auto

lemma obeys_simulate [obeys_intro]: "obeys Q (simulate c k r ixs payer)"
  unfolding simulate_def by (intro obeys_intro)

lemma obeys_get_account_data [obeys_intro]: "obeys Q (get_account_data c pk)"
  unfolding get_account_data_def by (intro obeys_intro)

lemma obeys_program_accounts [obeys_intro]: "obeys Q (program_accounts c pid fs)"
  unfolding program_accounts_def by (intro obeys_intro)

lemma obeys_fetch_markets [obeys_intro]: "obeys Q (fetch_markets c y pid)"
  unfolding fetch_markets_def by (intro obeys_intro)

lemma obeys_banks_snapshot [obeys_intro]: "obeys Q banks_snapshot"
  unfolding banks_snapshot_def by (intro obeys_intro)

lemma obeys_failover: "(\<And>g. obeys Q (f g)) \<Longrightarrow> obeys Q (failover f n gs l)"
  by (induction gs arbitrary: l) (auto intro: obeys_intro)

lemma obeys_fetch_update [obeys_intro]: "obeys Q (fetch_update_ixs c k sc os)"
  unfolding fetch_update_ixs_def fetch_update_via_def by (intro obeys_intro obeys_failover)

lemma obeys_swb_sleep: "obeys Q (swb_sleep c interval elapsed :: ('w, 'h, bool) prog)"
proof (induction "interval - elapsed" arbitrary: elapsed rule: less_induct)
  case less
  have "obeys Q (swb_sleep c interval (elapsed + 500) :: ('w, 'h, bool) prog)" if "elapsed < interval"
    using that by (intro less) simp
  then show ?case
    by (subst swb_sleep.simps) (cases "elapsed < interval"; simp; intro obeys_intro)
qed

end

end
