(* ===== verification/Promoter.thy ===== *)
theory Promoter
  imports Handler_Kit
begin

text \<open>
  \<open>handlers/promoter.rs\<close>: promotion of matched loans. For every pending node the vault
  settlement accounts are assembled when the node needs them, the instruction is simulated,
  and submitted only when the simulation succeeds.
\<close>

section \<open>Definitions\<close>

definition build_vault_settle_addrs ::
    "ydelta \<Rightarrow> handler_context \<Rightarrow> pubkey \<Rightarrow> pubkey \<Rightarrow> pubkey \<Rightarrow> bank_info \<Rightarrow> vault_settle_addrs option res" where
  "build_vault_settle_addrs y ctx market global_vault debt_mint debt_bank =
     (let expected_vault = fst (global_vault_pda y (bi_bank debt_bank)) in
      if expected_vault \<noteq> global_vault
      then Err (HandlerErr (VaultPdaMismatch global_vault (bi_bank debt_bank) expected_vault))
      else Ok (Some
        \<lparr>vs_global_vault = global_vault,
         vs_global_vault_signer = fst (global_vault_signer_pda y global_vault),
         vs_global_vault_staging = fst (global_vault_staging_pda y global_vault),
         vs_global_vault_integration_account = fst (global_vault_integration_account_pda y global_vault),
         vs_market_debt_vault = fst (get_vault_address y market debt_mint),
         vs_market_lender_integration_account = fst (get_lender_integration_account_address y market),
         vs_market_signer = fst (get_market_signer_address y market),
         vs_debt_liquidity_vault = bi_liquidity_vault debt_bank,
         vs_debt_bank_liquidity_vault_authority = bi_liquidity_vault_authority debt_bank,
         vs_debt_oracles = [primary_oracle debt_bank],
         vs_debt_mint = debt_mint,
         vs_token_program = bi_token_program debt_bank,
         vs_marginfi_group = cfg_marginfi_group (hc_cfg ctx),
         vs_marginfi_program = cfg_marginfi_program_id (hc_cfg ctx)\<rparr>))"

definition assemble_vault_settle ::
    "'w client \<Rightarrow> ydelta \<Rightarrow> handler_context \<Rightarrow> pubkey \<Rightarrow> pending_matched_loan \<Rightarrow> pubkey \<Rightarrow> bank_info \<Rightarrow>
     ('w, 'h, vault_settle_addrs option res) prog" where
  "assemble_vault_settle c y ctx market entry debt_mint debt_bank =
     (if pending_is_p2pool y entry \<or> is_vault_presettled y entry \<or> \<not> has_vault_lender y entry
      then pdone (Ok None)
      else
        pbind (require_account c (HandlerErr (MarketDisappeared market)) market) (\<lambda>market_data.
        pbind (pdone (read_seat_at y market_data (pm_lender_seat_index entry))) (\<lambda>seat.
        if st_owner_kind seat \<noteq> OWNER_KIND_SUB_VAULT y then pdone (Ok None)
        else pdone (build_vault_settle_addrs y ctx market (st_owner seat) debt_mint debt_bank))))"

definition promote_one ::
    "'w client \<Rightarrow> sdk \<Rightarrow> ydelta \<Rightarrow> handler_context \<Rightarrow> market_view \<Rightarrow> pending_matched_loan \<Rightarrow>
     ('w, 'h, bool res) prog" where
  "promote_one c k y ctx market entry =
     pseq banks_snapshot (\<lambda>banks.
     pbind (pdone (bank_for banks NoBankForDebtMint (mv_debt_mint market))) (\<lambda>debt_bank.
     pbind (assemble_vault_settle c y ctx (mv_address market) entry (mv_debt_mint market) debt_bank)
       (\<lambda>vault_settle.
     sim_then_send c k ctx ''process_matched_loan''
       (build_ix y (ProcessMatchedLoan (mv_address market) (kp_pubkey k (fee_payer (hc_signers ctx)))
          (bi_bank debt_bank) (cfg_marginfi_program_id (hc_cfg ctx)) (pm_sequence entry) vault_settle)))))"

definition promoter_key :: "pending_matched_loan \<Rightarrow> pubkey \<times> u64" where
  "promoter_key e = (pm_market e, pm_sequence e)"

text \<open>The counters are \<open>total_pending\<close> and \<open>promoted\<close>.\<close>

definition promote_market ::
    "'w client \<Rightarrow> sdk \<Rightarrow> ydelta \<Rightarrow> handler_context \<Rightarrow> market_view \<Rightarrow> nat \<times> nat \<Rightarrow>
     ('w, (pubkey \<times> u64) set, (nat \<times> nat) res) prog" where
  "promote_market c k y ctx m = (\<lambda>(total_pending, promoted).
     if mv_is_paused m then pdone (Ok (total_pending, promoted))
     else ptry (read_pending_matched_loans c y (mv_address m))
       (\<lambda>pending. pbind (pfor (attempt_one promoter_key (promote_one c k y ctx m)) pending promoted)
          (\<lambda>n. pdone (Ok (total_pending + length pending, n))))
       (\<lambda>e. pdone (Ok (total_pending, promoted))))"

definition promoter_tick ::
    "'w client \<Rightarrow> sdk \<Rightarrow> ydelta \<Rightarrow> handler_context \<Rightarrow> ('w, (pubkey \<times> u64) set, unit res) prog" where
  "promoter_tick c k y ctx =
     pbind (list_markets c y (cfg_program_id (hc_cfg ctx))) (\<lambda>markets.
     pbind (pfor (promote_market c k y ctx) markets (0, 0)) (\<lambda>_. pdone (Ok ())))"

section \<open>The handler's contract\<close>

lemma silent_banks_snapshot [emits_intro]: "silent banks_snapshot"
  unfolding banks_snapshot_def by (intro emits_intro)

lemma keeps_banks_snapshot [keeps_intro]: "keeps_own banks_snapshot"
  unfolding banks_snapshot_def by (intro keeps_intro)

lemma silent_assemble [emits_intro]: "silent (assemble_vault_settle c y ctx market entry mint bank)"
  unfolding assemble_vault_settle_def by (intro emits_intro)

lemma keeps_assemble [keeps_intro]: "keeps_own (assemble_vault_settle c y ctx market entry mint bank)"
  unfolding assemble_vault_settle_def by (intro keeps_intro)

interpretation promoter: gated_handler promoter_key "promote_one c k y ctx m" "[]" for c k y ctx m
proof
  show "keeps_own (promote_one c k y ctx m x)" for x
    unfolding promote_one_def by (intro keeps_intro)
  show "emits (promote_one c k y ctx m x) (\<lambda>_ es. self_gated [] es)" for x
    unfolding promote_one_def
    by (intro emits_after_silent emits_bind_silent sim_then_send_gated emits_intro) simp_all
qed

lemma promote_market_gated: "emits (promote_market c k y ctx m a) (\<lambda>_ es. self_gated [] es)"
  unfolding promote_market_def
proof (cases a, simp, intro impI conjI)
  show "emits (pdone (Ok x)) (\<lambda>_ es. self_gated [] es)" for x :: "nat \<times> nat"
    by (simp add: emits_pdone)
  fix t p
  show "emits (ptry (read_pending_matched_loans c y (mv_address m))
       (\<lambda>pending. pbind (pfor (attempt_one promoter_key (promote_one c k y ctx m)) pending p)
          (\<lambda>n. pdone (Ok (t + length pending, n))))
       (\<lambda>e. pdone (Ok (t, p)))) (\<lambda>_ es. self_gated [] es)"
    by (rule emits_ptry [OF silent_read_pending_matched_loans [unfolded silent_def]])
      (auto intro!: emits_pdone emits_pbind [OF promoter.loop_gated])
qed

text \<open>
  The promoter never submits blindly: in the trace of any tick, every transaction
  carries exactly the instructions (compute budget included) and the payer of the last
  simulation before it, and that simulation succeeded.
\<close>

lemma promoter_events:
  "emits (promoter_tick c k y ctx) (\<lambda>_ es. self_gated [] es)"
  unfolding promoter_tick_def
  by (intro emits_bind_silent silent_list_markets emits_pbind [OF emits_pfor [where Q = "self_gated []"]])
    (auto intro: promote_market_gated emits_pdone self_gated_append)

lemma promoter_tick_restores: "restores (promoter_tick c k y ctx)"
proof -
  have "restores (promote_market c k y ctx m a)" for m a
    unfolding promote_market_def
    by (cases a) (auto intro!: handler_intro promoter.loop_restores intro: restores_keeps keeps_intro)
  then show ?thesis
    unfolding promoter_tick_def by (intro handler_intro restores_keeps [OF keeps_list_markets])
qed

section \<open>Vault settlement\<close>

lemma build_vault_settle_addrs_Ok:
  "build_vault_settle_addrs y ctx market gv mint bank = Ok x \<Longrightarrow>
   \<exists>a. x = Some a \<and> vs_global_vault a = gv \<and> gv = fst (global_vault_pda y (bi_bank bank)) \<and>
     vs_debt_oracles a = [primary_oracle bank] \<and> vs_debt_mint a = mint"
  by (auto simp: build_vault_settle_addrs_def Let_def split: if_splits)

text \<open>
  C29. Vault settlement accounts are attached only where the program expects them: to a node
  that is no P2Pool node, has a vault lender and is not settled already. The vault is then
  the one derived from the debt bank, and exactly one oracle, the bank's primary one, is
  passed.
\<close>

theorem vault_settle_only_when_needed:
  assumes "assemble_vault_settle c y ctx market entry mint bank s = (Ok (Some a), s')"
  shows "\<not> pending_is_p2pool y entry \<and> has_vault_lender y entry \<and> \<not> is_vault_presettled y entry \<and>
    vs_global_vault a = fst (global_vault_pda y (bi_bank bank)) \<and>
    vs_debt_oracles a = [primary_oracle bank] \<and> vs_debt_mint a = mint"
  using assms
  by (auto simp: assemble_vault_settle_def pbind_run pdone_def split: if_splits prod.splits rresult.splits
      dest!: build_vault_settle_addrs_Ok)

end
