(* ===== verification/Claimer.thy ===== *)
theory Claimer
  imports Promoter
begin

text \<open>
  \<open>handlers/claimer.rs\<close>: the sweep of repaid shares back into the lending vaults. Only
  sub-vaults with atoms waiting are swept, and each sweep is simulated first.
\<close>

section \<open>Definitions\<close>

definition sweep_one ::
    "'w client \<Rightarrow> sdk \<Rightarrow> ydelta \<Rightarrow> handler_context \<Rightarrow> pending_vault_claim \<Rightarrow> ('w, 'h, bool res) prog" where
  "sweep_one c k y ctx entry =
     pseq banks_snapshot (\<lambda>banks.
     pbind (pdone (bank_for banks NoBankForDebtMint (pc_debt_mint entry))) (\<lambda>debt_bank.
     sim_then_send c k ctx ''claim_repayment_for_sub_vault''
       (build_ix y (ClaimRepaymentForSubVault (kp_pubkey k (fee_payer (hc_signers ctx))) (pc_market entry)
          (pc_sub_vault_id entry) (pc_lender_global_vault entry) (pc_debt_mint entry) (bi_bank debt_bank)
          (bi_liquidity_vault debt_bank) (bi_liquidity_vault_authority debt_bank) (bi_oracles debt_bank)
          (fst (get_lender_integration_account_address y (pc_market entry))) (bi_token_program debt_bank)
          (cfg_marginfi_group (hc_cfg ctx)) (cfg_marginfi_program_id (hc_cfg ctx))))))"

definition claimer_key :: "pending_vault_claim \<Rightarrow> pubkey \<times> pubkey \<times> u16" where
  "claimer_key e = (pc_market e, pc_lender_global_vault e, pc_sub_vault_id e)"

definition claimable :: "sub_vault_view list \<Rightarrow> (pubkey \<times> u16) list" where
  "claimable sub_vaults =
     map (\<lambda>p. (sv_vault p, sv_sub_vault_id p)) (filter (\<lambda>p. sv_pending_claim_atoms p > 0) sub_vaults)"

definition to_sweep :: "(pubkey \<times> u16) list \<Rightarrow> pending_vault_claim list \<Rightarrow> pending_vault_claim list" where
  "to_sweep keys entries =
     filter (\<lambda>e. (pc_lender_global_vault e, pc_sub_vault_id e) \<in> set keys) entries"

definition claimer_tick ::
    "'w client \<Rightarrow> sdk \<Rightarrow> ydelta \<Rightarrow> handler_context \<Rightarrow> ('w, (pubkey \<times> pubkey \<times> u16) set, unit res) prog" where
  "claimer_tick c k y ctx =
     (let pid = cfg_program_id (hc_cfg ctx) in
      pbind (list_sub_vaults c y pid) (\<lambda>sub_vaults.
      if claimable sub_vaults = [] then pdone (Ok ())
      else pbind (list_markets c y pid) (\<lambda>markets.
      if markets = [] then pdone (Ok ())
      else pbind (list_pending_vault_claims c y markets) (\<lambda>claims.
      if to_sweep (claimable sub_vaults) claims = [] then pdone (Ok ())
      else pbind (pfor (attempt_one claimer_key (sweep_one c k y ctx)) (to_sweep (claimable sub_vaults) claims) 0)
             (\<lambda>_. pdone (Ok ()))))))"

section \<open>The handler's contract\<close>

interpretation claimer: gated_handler claimer_key "sweep_one c k y ctx" "[]" for c k y ctx
proof
  show "keeps_own (sweep_one c k y ctx x)" for x
    unfolding sweep_one_def by (intro keeps_intro)
  show "emits (sweep_one c k y ctx x) (\<lambda>_ es. self_gated [] es)" for x
    unfolding sweep_one_def
    by (intro emits_after_silent emits_bind_silent sim_then_send_gated emits_intro) simp_all
qed

text \<open>
  The claimer never submits blindly: every transaction of a tick carries exactly what
  the last simulation before it approved.
\<close>

lemma claimer_events:
  "emits (claimer_tick c k y ctx) (\<lambda>_ es. self_gated [] es)"
  unfolding claimer_tick_def Let_def
  by (intro emits_bind_silent emits_if emits_intro emits_pbind [OF claimer.loop_gated])
    (auto intro: emits_pdone self_gated_append)

lemma claimer_tick_restores: "restores (claimer_tick c k y ctx)"
  unfolding claimer_tick_def Let_def
  by (intro handler_intro claimer.loop_restores restores_keeps [OF keeps_list_sub_vaults]
      restores_keeps [OF keeps_list_markets] restores_keeps [OF keeps_list_pending_vault_claims])

text \<open>
  With no atoms waiting in any sub-vault the claimer stops after the sub-vault listing:
  it asks for no market, simulates nothing and submits nothing.
\<close>

lemma claimer_idle_without_atoms:
  assumes "list_sub_vaults c y (cfg_program_id (hc_cfg ctx)) s = (Ok subs, s')"
    and "\<forall>p \<in> set subs. sv_pending_claim_atoms p = 0"
  shows "claimer_tick c k y ctx s = (Ok (), s')"
  using assms by (simp add: claimer_tick_def Let_def claimable_def pbind_run pdone_def filter_empty_conv)

text \<open>What is swept has both: atoms waiting in the sub-vault, and a seat of that sub-vault.\<close>

lemma to_sweep_sound:
  "e \<in> set (to_sweep (claimable subs) claims) \<Longrightarrow>
   e \<in> set claims \<and> (\<exists>p \<in> set subs. sv_vault p = pc_lender_global_vault e \<and>
     sv_sub_vault_id p = pc_sub_vault_id e \<and> sv_pending_claim_atoms p > 0)"
  by (auto simp: to_sweep_def claimable_def)

end
