(* ===== verification/Curator_Fee_Claimer.thy ===== *)
theory Curator_Fee_Claimer
  imports Claimer
begin

text \<open>
  \<open>handlers/curator_fee_claimer.rs\<close>: fee claims, signed with the key of the sub-vault's
  own curator. It neither simulates nor uses the fee payer.
\<close>

section \<open>Definitions\<close>

definition claim_fee_ix :: "sdk \<Rightarrow> ydelta \<Rightarrow> handler_context \<Rightarrow> sub_vault_view \<Rightarrow> bank_info \<Rightarrow> keypair \<Rightarrow> instruction" where
  "claim_fee_ix k y ctx sv bank signer =
     build_ix y (ClaimCuratorFee (sv_vault_bank sv) (sv_vault_mint sv) (kp_pubkey k signer)
       (ata_for k bank (kp_pubkey k signer)) (bi_bank bank) (bi_liquidity_vault bank)
       (bi_liquidity_vault_authority bank) (primary_oracle bank) (bi_token_program bank)
       (cfg_marginfi_program_id (hc_cfg ctx)) (cfg_marginfi_group (hc_cfg ctx)) (sv_sub_vault_id sv))"

definition claim_one ::
    "'w client \<Rightarrow> sdk \<Rightarrow> ydelta \<Rightarrow> handler_context \<Rightarrow> bank_registry \<Rightarrow> sub_vault_view \<times> keypair \<Rightarrow>
     ('w, 'h, bool res) prog" where
  "claim_one c k y ctx reg = (\<lambda>(sv, signer).
     pbind (pdone (bank_for reg (\<lambda>mint. NoBankForVaultMint mint (sv_vault sv)) (sv_vault_mint sv))) (\<lambda>bank.
     if bi_bank bank \<noteq> sv_vault_bank sv
     then pdone (Err (HandlerErr (VaultBankDisagrees (sv_vault sv) (sv_vault_bank sv) (bi_bank bank))))
     else pbind (send_signed_labeled c k (hc_rpc ctx) ''claim_curator_fee''
                   [claim_fee_ix k y ctx sv bank signer] [signer]) (\<lambda>_. pdone (Ok True))))"

definition curator_key :: "sub_vault_view \<times> keypair \<Rightarrow> pubkey \<times> u16" where
  "curator_key = (\<lambda>(sv, signer). (sv_vault sv, sv_sub_vault_id sv))"

text \<open>One iteration; the counters are \<open>claimed\<close> and \<open>skipped_no_key\<close>.\<close>

definition curator_step ::
    "'w client \<Rightarrow> sdk \<Rightarrow> ydelta \<Rightarrow> handler_context \<Rightarrow> bank_registry \<Rightarrow> sub_vault_view \<Rightarrow> nat \<times> nat \<Rightarrow>
     ('w, (pubkey \<times> u16) set, (nat \<times> nat) res) prog" where
  "curator_step c k y ctx reg sv = (\<lambda>(claimed, skipped_no_key).
     if sv_vault_is_paused sv then pdone (Ok (claimed, skipped_no_key))
     else if sv_accumulated_curator_fee_atoms sv < min_curator_fee_claim_atoms (cfg_thresholds (hc_cfg ctx))
     then pdone (Ok (claimed, skipped_no_key))
     else case map_of (curators (hc_signers ctx)) (sv_curator sv) of
         None \<Rightarrow> pdone (Ok (claimed, Suc skipped_no_key))
       | Some signer \<Rightarrow>
           pbind (attempt_one curator_key (claim_one c k y ctx reg) (sv, signer) claimed)
             (\<lambda>n. pdone (Ok (n, skipped_no_key))))"

definition curator_scan ::
    "'w client \<Rightarrow> sdk \<Rightarrow> ydelta \<Rightarrow> handler_context \<Rightarrow> sub_vault_view list \<Rightarrow>
     ('w, (pubkey \<times> u16) set, (nat \<times> nat) res) prog" where
  "curator_scan c k y ctx sub_vaults =
     pseq banks_snapshot (\<lambda>reg. pfor (curator_step c k y ctx reg) sub_vaults (0, 0))"

definition curator_tick ::
    "'w client \<Rightarrow> sdk \<Rightarrow> ydelta \<Rightarrow> handler_context \<Rightarrow> ('w, (pubkey \<times> u16) set, unit res) prog" where
  "curator_tick c k y ctx =
     (if curators (hc_signers ctx) = [] then pdone (Ok ())
      else pbind (list_sub_vaults c y (cfg_program_id (hc_cfg ctx))) (\<lambda>sub_vaults.
           pbind (curator_scan c k y ctx sub_vaults) (\<lambda>_. pdone (Ok ()))))"

section \<open>The handler's contract\<close>

interpretation curator: inflight_handler curator_key "claim_one c k y ctx reg" for c k y ctx reg
  by unfold_locales (auto simp: claim_one_def intro!: keeps_intro split: prod.split)

lemma curator_step_restores: "restores (curator_step c k y ctx reg sv a)"
  unfolding curator_step_def
  by (cases a) (auto intro!: handler_intro curator.attempt_one_restores split: option.split)

lemma curator_tick_restores: "restores (curator_tick c k y ctx)"
  unfolding curator_tick_def curator_scan_def
  by (intro handler_intro curator_step_restores restores_keeps [OF keeps_list_sub_vaults] keeps_banks_snapshot)

section \<open>Who pays\<close>

text \<open>
  A transaction that claims the fee of a sub-vault that qualifies, with its curator's key, to
  the accounts of the bank that the registry has for the vault's mint, which is the vault's own.
\<close>

definition rightful_claim ::
    "sdk \<Rightarrow> ydelta \<Rightarrow> handler_context \<Rightarrow> bank_registry \<Rightarrow> sub_vault_view list \<Rightarrow> transaction \<Rightarrow> bool" where
  "rightful_claim k y ctx reg subs tx \<longleftrightarrow>
     (\<exists>sv \<in> set subs. \<exists>signer bank.
        \<not> sv_vault_is_paused sv \<and>
        min_curator_fee_claim_atoms (cfg_thresholds (hc_cfg ctx)) \<le> sv_accumulated_curator_fee_atoms sv \<and>
        map_of (curators (hc_signers ctx)) (sv_curator sv) = Some signer \<and>
        registry_get reg (sv_vault_mint sv) = Some bank \<and> bi_bank bank = sv_vault_bank sv \<and>
        tx_payer tx = kp_pubkey k signer \<and>
        tx_ixs tx = priority_fee_preamble k (hc_rpc ctx) (compute_unit_limit (hc_rpc ctx)) @
                    [claim_fee_ix k y ctx sv bank signer])"

lemma pbind_answer: "pbind (pdone (Ok a)) f = f a" "pbind (pdone (Err e)) f = pdone (Err e)"
  by (simp_all add: pbind_def pseq_def pdone_def fun_eq_iff)

lemma emits_claim_one:
  "emits (claim_one c k y ctx reg (sv, signer))
     (\<lambda>_ es. \<forall>tx. EvSend tx \<in> set es \<longrightarrow> (\<exists>bank.
        registry_get reg (sv_vault_mint sv) = Some bank \<and> bi_bank bank = sv_vault_bank sv \<and>
        tx_payer tx = kp_pubkey k signer \<and>
        tx_ixs tx = priority_fee_preamble k (hc_rpc ctx) (compute_unit_limit (hc_rpc ctx)) @
                    [claim_fee_ix k y ctx sv bank signer]))"
proof (cases "registry_get reg (sv_vault_mint sv)")
  case None
  then show ?thesis
    unfolding claim_one_def split bank_for_def by (simp add: pbind_answer emits_pdone)
next
  case (Some bank)
  have "emits (if bi_bank bank \<noteq> sv_vault_bank sv
      then pdone (Err (HandlerErr (VaultBankDisagrees (sv_vault sv) (sv_vault_bank sv) (bi_bank bank))))
      else pbind (send_signed_labeled c k (hc_rpc ctx) ''claim_curator_fee'' [claim_fee_ix k y ctx sv bank signer] [signer])
        (\<lambda>_. pdone (Ok True))) (\<lambda>_ es. \<forall>tx. EvSend tx \<in> set es \<longrightarrow> (\<exists>bank.
        registry_get reg (sv_vault_mint sv) = Some bank \<and> bi_bank bank = sv_vault_bank sv \<and>
        tx_payer tx = kp_pubkey k signer \<and>
        tx_ixs tx = priority_fee_preamble k (hc_rpc ctx) (compute_unit_limit (hc_rpc ctx)) @
                    [claim_fee_ix k y ctx sv bank signer]))"
    by (intro emits_if emits_pbind [OF emits_send_signed_labeled]) (auto intro!: emits_pdone simp: Some)
  then show ?thesis
    unfolding claim_one_def split bank_for_def by (simp add: Some pbind_answer)
qed

lemma emits_curator_step:
  assumes "sv \<in> set subs"
  shows "emits (curator_step c k y ctx reg sv a)
    (\<lambda>_ es. \<forall>tx. EvSend tx \<in> set es \<longrightarrow> rightful_claim k y ctx reg subs tx)"
proof -
  have attempt: "emits (attempt_one curator_key (claim_one c k y ctx reg) (sv, signer) n)
      (\<lambda>_ es. \<forall>tx. EvSend tx \<in> set es \<longrightarrow> rightful_claim k y ctx reg subs tx)"
    if "\<not> sv_vault_is_paused sv"
      "\<not> sv_accumulated_curator_fee_atoms sv < min_curator_fee_claim_atoms (cfg_thresholds (hc_cfg ctx))"
      "map_of (curators (hc_signers ctx)) (sv_curator sv) = Some signer" for signer n
  proof -
    have "emits (claim_one c k y ctx reg (sv, signer))
        (\<lambda>_ es. \<forall>tx. EvSend tx \<in> set es \<longrightarrow> rightful_claim k y ctx reg subs tx)"
      by (rule emits_mono [OF emits_claim_one])
        (use that assms in \<open>auto simp: rightful_claim_def intro!: bexI [of _ sv]\<close>)
    then show ?thesis
      unfolding attempt_one_def by (rule emits_guarded) (auto intro: emits_pdone)
  qed
  obtain claimed skipped where a: "a = (claimed, skipped)" by force
  show ?thesis
    unfolding curator_step_def a split
    by (intro emits_if emits_pdone)
      (auto intro!: emits_pdone emits_pbind [OF attempt] split: option.split)
qed

text \<open>The registry is read once, when the scan starts.\<close>

definition registry_now :: "shared \<Rightarrow> bank_registry" where
  "registry_now sh = (case banks sh of Healthy reg \<Rightarrow> reg | Poisoned _ \<Rightarrow> [])"

lemma curator_scan_rightful:
  assumes "curator_scan c k y ctx subs s = (r, s')"
  shows "\<exists>es. trace s' = trace s @ es \<and>
    (\<forall>tx. EvSend tx \<in> set es \<longrightarrow> rightful_claim k y ctx (registry_now (shm s)) subs tx)"
proof -
  have "emits (pfor (curator_step c k y ctx (registry_now (shm s))) subs (0, 0))
      (\<lambda>_ es. \<forall>tx. EvSend tx \<in> set es \<longrightarrow> rightful_claim k y ctx (registry_now (shm s)) subs tx)"
    by (intro emits_pfor emits_curator_step) auto
  moreover have "pfor (curator_step c k y ctx (registry_now (shm s))) subs (0, 0) s = (r, s')"
    using assms by (simp add: curator_scan_def banks_snapshot_def registry_now_def pseq_def gets_def)
  ultimately show ?thesis by (rule emitsD)
qed

lemma emits_curator_scan:
  "emits (curator_scan c k y ctx subs)
     (\<lambda>_ es. \<exists>reg. \<forall>tx. EvSend tx \<in> set es \<longrightarrow> rightful_claim k y ctx reg subs tx)"
  unfolding emits_def
proof
  fix s
  obtain r s' where run: "curator_scan c k y ctx subs s = (r, s')" by fastforce
  obtain es where es: "trace s' = trace s @ es"
    "\<forall>tx. EvSend tx \<in> set es \<longrightarrow> rightful_claim k y ctx (registry_now (shm s)) subs tx"
    using curator_scan_rightful [OF run] by (elim exE conjE)
  have "trace (snd (curator_scan c k y ctx subs s)) = trace s @ es" by (simp only: run snd_conv es(1))
  with es(2) show "\<exists>es. trace (snd (curator_scan c k y ctx subs s)) = trace s @ es \<and>
      (\<exists>reg. \<forall>tx. EvSend tx \<in> set es \<longrightarrow> rightful_claim k y ctx reg subs tx)"
    by (intro exI conjI)
qed

text \<open>
  C16. Over any sub-vault listing, every transaction of the curator handler claims the fee
  of one of those sub-vaults, which is not paused and has at least the configured fee; it
  is paid and signed by the key held for that sub-vault's curator, never by another. The
  registry, as it stands when the scan starts, has a bank for the vault's mint, that bank is
  the vault's own, and the instruction names its accounts.
\<close>

theorem curator_claims_rightful:
  assumes "curator_scan c k y ctx subs s = (r, s')"
  shows "\<exists>es. trace s' = trace s @ es \<and>
    (\<forall>tx. EvSend tx \<in> set es \<longrightarrow> rightful_claim k y ctx (registry_now (shm s)) subs tx)"
  using assms by (rule curator_scan_rightful)

end
