(* ===== verification/Liquidator.thy ===== *)
theory Liquidator
  imports Curator_Fee_Claimer
begin

text \<open>
  \<open>handlers/liquidator.rs\<close>: settlement of matured loans and liquidation of loans over
  their LTV. A loan must pass the static prefilter, the program's own check in simulation,
  the profit threshold and a second simulation of the final bundle before anything is
  submitted.
\<close>

section \<open>Definitions\<close>

definition REPAY_FULL :: u64 where "REPAY_FULL = 0"

definition bank_pair :: "bank_registry \<Rightarrow> pubkey \<Rightarrow> pubkey \<Rightarrow> (bank_info \<times> bank_info) res" where
  "bank_pair reg debt_mint collateral_mint =
     rbind (bank_for reg NoBankForDebtMint debt_mint) (\<lambda>debt_bank.
     rbind (bank_for reg NoBankForCollateralMint collateral_mint) (\<lambda>collateral_bank.
       Ok (debt_bank, collateral_bank)))"

text \<open>A failed gateway fetch is logged and the attempt goes on without the update.\<close>

definition prepend_or_nothing ::
    "('w, 'h, (instruction list \<times> lookup_table list) res) prog \<Rightarrow>
     ('w, 'h, (instruction list \<times> lookup_table list) res) prog" where
  "prepend_or_nothing m = ptry m (\<lambda>b. pdone (Ok b)) (\<lambda>_. pdone (Ok ([], [])))"

definition fetch_swb_bundle ::
    "'w client \<Rightarrow> sdk \<Rightarrow> handler_context \<Rightarrow> bank_info \<Rightarrow>
     ('w, 'h, (instruction list \<times> lookup_table list) res) prog" where
  "fetch_swb_bundle c k ctx collateral_bank =
     (if \<not> is_switchboard_pull collateral_bank then pdone (Ok ([], []))
      else case hc_swb ctx of
          None \<Rightarrow> pdone (Ok ([], []))
        | Some cranker \<Rightarrow>
            prepend_or_nothing (fetch_update_ixs c k cranker [primary_oracle collateral_bank]))"

text \<open>The amount that fits a balance; \<open>None\<close> when not even the partial floor does.\<close>

definition outstanding_est :: "ydelta \<Rightarrow> loan_view \<Rightarrow> u64" where
  "outstanding_est y loan =
     (if loan_is_p2pool y loan then max (lv_outstanding_debt_atoms loan) (lv_principal_debt_atoms loan)
      else lv_outstanding_debt_atoms loan)"

definition full_required :: "ydelta \<Rightarrow> loan_view \<Rightarrow> u64" where
  "full_required y loan =
     (if loan_is_p2pool y loan then p2pool_full_repay_staged_atoms (outstanding_est y loan)
      else outstanding_est y loan)"

definition choose_repay :: "ydelta \<Rightarrow> loan_view \<Rightarrow> u64 \<Rightarrow> u64 option" where
  "choose_repay y loan ata_balance =
     (if full_required y loan \<le> ata_balance then Some REPAY_FULL
      else if ata_balance < min_partial_repay_atoms (outstanding_est y loan) then None
      else Some (min ata_balance (sat_sub (outstanding_est y loan) 1)))"

definition pick_repay_amount ::
    "'w client \<Rightarrow> ydelta \<Rightarrow> pubkey \<Rightarrow> loan_view \<Rightarrow> ('w, 'h, u64 option res) prog" where
  "pick_repay_amount c y liquidator_debt_ata loan =
     pbind (get_account_data c liquidator_debt_ata) (\<lambda>acct. case acct of
         None \<Rightarrow> pdone (Ok None)
       | Some d \<Rightarrow>
           pbind (pdone (ok_or (HandlerErr AtaDataTooSmall) (spl_token_amount d))) (\<lambda>ata_balance.
             pdone (Ok (choose_repay y loan ata_balance))))"

definition close_args_of ::
    "sdk \<Rightarrow> ydelta \<Rightarrow> handler_context \<Rightarrow> market_view \<Rightarrow> loan_view \<Rightarrow> bank_info \<Rightarrow> bank_info \<Rightarrow> u64 \<Rightarrow> close_args" where
  "close_args_of k y ctx market loan debt_bank collateral_bank repay_atoms_max =
     (let payer_pk = kp_pubkey k (fee_payer (hc_signers ctx)) in
      \<lparr>ca_market = mv_address market, ca_payer = payer_pk,
       ca_sequence = lv_matched_loan_sequence loan,
       ca_debt_mint = mv_debt_mint market, ca_collateral_mint = mv_collateral_mint market,
       ca_liquidator_debt_ata = ata_for k debt_bank payer_pk,
       ca_liquidator_collateral_ata = ata_for k collateral_bank payer_pk,
       ca_debt_bank = bi_bank debt_bank, ca_collateral_bank = bi_bank collateral_bank,
       ca_debt_liquidity_vault = bi_liquidity_vault debt_bank,
       ca_collateral_liquidity_vault = bi_liquidity_vault collateral_bank,
       ca_collateral_lva = bi_liquidity_vault_authority collateral_bank,
       ca_debt_oracles = bi_oracles debt_bank, ca_collateral_oracles = bi_oracles collateral_bank,
       ca_token_program = bi_token_program debt_bank,
       ca_marginfi_group = cfg_marginfi_group (hc_cfg ctx),
       ca_marginfi_program = cfg_marginfi_program_id (hc_cfg ctx),
       ca_repay_atoms_max = repay_atoms_max, ca_rent_refund = payer_pk,
       ca_global_vault = (if loan_is_p2pool y loan then None else Some (lv_lender_global_vault loan))\<rparr>)"

text \<open>
  The tail both paths share: choose the amount, simulate the final bundle, submit it.
  \<open>mk\<close> is the builder of the final instruction.
\<close>

definition close_loan ::
    "'w client \<Rightarrow> sdk \<Rightarrow> ydelta \<Rightarrow> handler_context \<Rightarrow> string \<Rightarrow> (close_args \<Rightarrow> ydelta_ix) \<Rightarrow>
     market_view \<Rightarrow> loan_view \<Rightarrow> bank_info \<Rightarrow> bank_info \<Rightarrow> instruction list \<Rightarrow> lookup_table list \<Rightarrow>
     ('w, 'h, bool res) prog" where
  "close_loan c k y ctx label mk market loan debt_bank collateral_bank swb_ixs swb_luts =
     (let payer = fee_payer (hc_signers ctx); payer_pk = kp_pubkey k payer in
      pbind (pick_repay_amount c y (ata_for k debt_bank payer_pk) loan) (\<lambda>pick. case pick of
          None \<Rightarrow> pdone (Ok False)
        | Some repay_atoms_max \<Rightarrow>
            let real_bundle = swb_ixs @ [build_ix y (mk (close_args_of k y ctx market loan debt_bank
                                            collateral_bank repay_atoms_max))] in
            pbind (simulate_v0 c k real_bundle swb_luts payer_pk) (\<lambda>confirm.
            if \<not> sim_ok confirm then pdone (Ok False)
            else pbind (send_signed_v0_labeled c k (hc_rpc ctx) label real_bundle swb_luts [payer])
                   (\<lambda>_. pdone (Ok True)))))"

definition try_settle_matured ::
    "'w client \<Rightarrow> sdk \<Rightarrow> ydelta \<Rightarrow> handler_context \<Rightarrow> market_view \<Rightarrow> loan_view \<Rightarrow> ('w, 'h, bool res) prog" where
  "try_settle_matured c k y ctx market loan =
     pseq banks_snapshot (\<lambda>banks.
     pbind (pdone (bank_pair banks (mv_debt_mint market) (mv_collateral_mint market))) (\<lambda>(debt_bank, collateral_bank).
     let payer_pk = kp_pubkey k (fee_payer (hc_signers ctx)) in
     pbind (fetch_swb_bundle c k ctx collateral_bank) (\<lambda>(swb_ixs, swb_luts).
     pbind (simulate_v0 c k
              (swb_ixs @ [build_ix y (CheckMaturityLiquidatable (mv_address market) payer_pk
                 (lv_matched_loan_sequence loan) (bi_bank debt_bank) (cfg_marginfi_program_id (hc_cfg ctx)))])
              swb_luts payer_pk) (\<lambda>sim.
     if \<not> sim_ok sim then pdone (Ok False)
     else close_loan c k y ctx ''settle_matured_loan'' SettleMaturedLoan market loan debt_bank
            collateral_bank swb_ixs swb_luts))))"

definition expected_bonus :: "market_view \<Rightarrow> loan_view \<Rightarrow> u128" where
  "expected_bonus market loan =
     (if mv_liquidation_keeper_bps market > 0
      then sat_mul (ucast (lv_outstanding_debt_atoms loan)) (ucast (mv_liquidation_keeper_bps market)) div 10000
      else ucast (lv_outstanding_debt_atoms loan))"

definition try_liquidate_ltv ::
    "'w client \<Rightarrow> sdk \<Rightarrow> ydelta \<Rightarrow> handler_context \<Rightarrow> market_view \<Rightarrow> loan_view \<Rightarrow> ('w, 'h, bool res) prog" where
  "try_liquidate_ltv c k y ctx market loan =
     pseq banks_snapshot (\<lambda>banks.
     pbind (pdone (bank_pair banks (mv_debt_mint market) (mv_collateral_mint market))) (\<lambda>(debt_bank, collateral_bank).
     let payer_pk = kp_pubkey k (fee_payer (hc_signers ctx)) in
     pbind (fetch_swb_bundle c k ctx collateral_bank) (\<lambda>(swb_ixs, swb_luts).
     pbind (simulate_v0 c k
              (swb_ixs @ [build_ix y (CheckLtvLiquidatable (mv_address market) payer_pk
                 (lv_matched_loan_sequence loan) (bi_bank debt_bank) (bi_bank collateral_bank)
                 (bi_oracles debt_bank) (bi_oracles collateral_bank) (cfg_marginfi_program_id (hc_cfg ctx)))])
              swb_luts payer_pk) (\<lambda>sim.
     if \<not> sim_ok sim then pdone (Ok False)
     else if expected_bonus market loan < ucast (min_liquidation_profit_atoms (cfg_thresholds (hc_cfg ctx)))
     then pdone (Ok False)
     else close_loan c k y ctx ''liquidate_loan'' LiquidateLoan market loan debt_bank
            collateral_bank swb_ixs swb_luts))))"

definition try_settle_or_liquidate ::
    "'w client \<Rightarrow> sdk \<Rightarrow> ydelta \<Rightarrow> handler_context \<Rightarrow> market_view \<Rightarrow> loan_view \<times> bool \<times> bool \<Rightarrow>
     ('w, 'h, bool res) prog" where
  "try_settle_or_liquidate c k y ctx market = (\<lambda>(loan, matured, maybe_ltv_breach).
     if maybe_ltv_breach then
       pbind (try_liquidate_ltv c k y ctx market loan) (\<lambda>liquidated.
         if liquidated then pdone (Ok True)
         else if matured then try_settle_matured c k y ctx market loan
         else pdone (Ok False))
     else if matured then try_settle_matured c k y ctx market loan
     else pdone (Ok False))"

text \<open>The release build's \<open>+\<close> on \<open>i64\<close> wraps; the sum with the maturity saturates.\<close>

definition effective_grace :: "handler_context \<Rightarrow> market_view \<Rightarrow> i64" where
  "effective_grace ctx market =
     ucast (mv_grace_period_seconds market) + maturity_extra_buffer (cfg_thresholds (hc_cfg ctx))"

definition is_matured :: "handler_context \<Rightarrow> market_view \<Rightarrow> i64 \<Rightarrow> loan_view \<Rightarrow> bool" where
  "is_matured ctx market t_now loan \<longleftrightarrow>
     sint (sat_add_i64 (lv_matures_at_unix loan) (effective_grace ctx market)) \<le> sint t_now"

definition may_breach_ltv :: "ydelta \<Rightarrow> loan_view \<Rightarrow> bool" where
  "may_breach_ltv y loan \<longleftrightarrow> loan_is_p2pool y loan \<or>
     static_accrued_ratio_bps (lv_outstanding_debt_atoms loan) (lv_principal_debt_atoms loan)
       \<ge> STATIC_LTV_PREFILTER_BPS"

definition liquidator_key :: "loan_view \<times> bool \<times> bool \<Rightarrow> pubkey" where
  "liquidator_key = (\<lambda>(loan, _, _). lv_address loan)"

definition scan_loan ::
    "'w client \<Rightarrow> sdk \<Rightarrow> ydelta \<Rightarrow> handler_context \<Rightarrow> market_view \<Rightarrow> i64 \<Rightarrow> loan_view \<Rightarrow> nat \<Rightarrow>
     ('w, pubkey set, nat res) prog" where
  "scan_loan c k y ctx market t_now loan n =
     (if lv_state loan \<noteq> LoanState_Active y \<or> lv_outstanding_debt_atoms loan = 0 then pdone (Ok n)
      else
        let matured = is_matured ctx market t_now loan; maybe_ltv_breach = may_breach_ltv y loan in
        if \<not> matured \<and> \<not> maybe_ltv_breach then pdone (Ok n)
        else attempt_one liquidator_key (try_settle_or_liquidate c k y ctx market)
               (loan, matured, maybe_ltv_breach) n)"

definition liquidator_scan_market ::
    "'w client \<Rightarrow> sdk \<Rightarrow> ydelta \<Rightarrow> handler_context \<Rightarrow> market_view \<Rightarrow> ('w, pubkey set, nat res) prog" where
  "liquidator_scan_market c k y ctx market =
     pbind (list_loans_for_market c y (cfg_program_id (hc_cfg ctx)) (mv_address market)) (\<lambda>loans.
     pseq (now_unix c) (\<lambda>t_now. pfor (scan_loan c k y ctx market t_now) loans 0))"

definition liquidator_tick ::
    "'w client \<Rightarrow> sdk \<Rightarrow> ydelta \<Rightarrow> handler_context \<Rightarrow> ('w, pubkey set, unit res) prog" where
  "liquidator_tick c k y ctx =
     pbind (list_markets c y (cfg_program_id (hc_cfg ctx))) (\<lambda>markets.
     pbind (pfor (\<lambda>market total.
              if mv_is_paused market then pdone (Ok total)
              else ptry (liquidator_scan_market c k y ctx market)
                     (\<lambda>n. pdone (Ok (total + n))) (\<lambda>e. pdone (Ok total))) markets (0 :: nat))
       (\<lambda>_. pdone (Ok ())))"

section \<open>Repay sizing\<close>

lemma unat_full_required:
  "unat (full_required y loan) =
     (if loan_is_p2pool y loan
      then min (unat (outstanding_est y loan) + unat (outstanding_est y loan) div 50 + 64) (2 ^ 64 - 1)
      else unat (outstanding_est y loan))"
  by (simp add: full_required_def unat_p2pool_staged)

lemma choose_repay_None_iff:
  "choose_repay y loan bal = None \<longleftrightarrow>
     unat bal < unat (full_required y loan) \<and> unat bal < max (unat (outstanding_est y loan) div 100) 1000"
  by (auto simp: choose_repay_def word_le_nat_alt word_less_nat_alt unat_min_partial)

lemma partial_arith:
  fixes est bal full :: nat
  assumes "bal < full" "max (est div 100) 1000 \<le> bal"
    and "full = (if pool then min (est + est div 50 + 64) (2 ^ 64 - 1) else est)"
  shows "0 < min bal (est - 1)" "min bal (est - 1) < est"
    and "\<not> pool \<or> 1000 < est \<Longrightarrow> max (est div 100) 1000 \<le> min bal (est - 1)"
    and "est \<le> 1000 \<Longrightarrow> min bal (est - 1) = est - 1 \<and> est - 1 < max (est div 100) 1000"
proof -
  have big: "900 < est" using assms by (auto split: if_splits)
  show "0 < min bal (est - 1)" "min bal (est - 1) < est" using assms(2) big by auto
  show "max (est div 100) 1000 \<le> min bal (est - 1)" if "\<not> pool \<or> 1000 < est"
    using that assms big by (auto split: if_splits)
  show "min bal (est - 1) = est - 1 \<and> est - 1 < max (est div 100) 1000" if "est \<le> 1000"
    using that assms(2) big by auto
qed

text \<open>
  C8. What is offered for repayment: zero, the sentinel for the whole debt, exactly when
  the balance covers the full requirement (the outstanding debt, or for a P2Pool loan the
  over-staged amount); otherwise a partial amount that the balance covers and that stays
  below the debt. For Fixed loans, and for P2Pool loans above 1000 atoms, a partial amount
  also meets the program's floor of one percent and 1000 atoms. For a P2Pool loan of at most
  1000 atoms it is one atom less than the debt and so below that floor. Nothing is offered
  exactly when the balance covers neither the full amount nor the floor.
\<close>

theorem choose_repay_correct:
  "case choose_repay y loan bal of
     None \<Rightarrow> bal < full_required y loan \<and> bal < min_partial_repay_atoms (outstanding_est y loan)
   | Some v \<Rightarrow>
       (v = 0) = (full_required y loan \<le> bal) \<and>
       (v = 0 \<or> v \<le> bal \<and> v < outstanding_est y loan \<and>
          (if loan_is_p2pool y loan \<and> outstanding_est y loan \<le> 1000
           then v = outstanding_est y loan - 1 \<and> v < min_partial_repay_atoms (outstanding_est y loan)
           else min_partial_repay_atoms (outstanding_est y loan) \<le> v))"
proof (cases "full_required y loan \<le> bal")
  case True
  then show ?thesis by (simp add: choose_repay_def REPAY_FULL_def)
next
  case full: False
  show ?thesis
  proof (cases "bal < min_partial_repay_atoms (outstanding_est y loan)")
    case True
    then show ?thesis using full by (simp add: choose_repay_def)
  next
    case False
    let ?e = "unat (outstanding_est y loan)"
    let ?v = "min bal (sat_sub (outstanding_est y loan) 1)"
    have v: "unat ?v = min (unat bal) (?e - 1)"
      by (simp add: min_def word_le_nat_alt unat_sat_sub)
    have b: "unat bal < unat (full_required y loan)" "max (?e div 100) 1000 \<le> unat bal"
      using full False by (simp_all add: word_le_nat_alt word_less_nat_alt unat_min_partial not_less not_le)
    note A = partial_arith [OF b unat_full_required]
    have "?v \<noteq> 0" using A(1) v by (metis less_numeral_extra(3) unat_0)
    moreover have "?v < outstanding_est y loan" using A(2) v by (simp add: word_less_nat_alt)
    moreover have "min_partial_repay_atoms (outstanding_est y loan) \<le> ?v"
      if "\<not> (loan_is_p2pool y loan \<and> outstanding_est y loan \<le> 1000)"
      using A(3) v that by (simp add: word_le_nat_alt unat_min_partial not_le)
    moreover have "?v = outstanding_est y loan - 1 \<and>
        outstanding_est y loan - 1 < min_partial_repay_atoms (outstanding_est y loan)"
      if "outstanding_est y loan \<le> 1000"
    proof -
      have e: "?e \<le> 1000" using that by (simp add: word_le_nat_alt)
      have "0 < ?e" using A(1) by auto
      then have "unat (outstanding_est y loan - 1) = ?e - 1"
        by (intro unat_minus_one) auto
      moreover have "unat ?v = ?e - 1" "?e - 1 < max (?e div 100) 1000" using A(4) [OF e] v by simp_all
      ultimately show ?thesis by (metis word_unat_eq_iff unat_min_partial word_less_nat_alt)
    qed
    ultimately show ?thesis using full False by (simp add: choose_repay_def)
  qed
qed

section \<open>Which loans are touched\<close>

lemma sint_small: "unat (w :: 64 word) < 2 ^ 63 \<Longrightarrow> sint w = int (unat w)"
proof -
  assume "unat w < 2 ^ 63"
  then have "int (unat w) < int (2 ^ 63)" by (rule of_nat_less_iff [THEN iffD2])
  then have "uint w < 2 ^ 63" by simp
  then have "signed_take_bit 63 (uint w) = uint w"
    by (intro signed_take_bit_int_eq_self) (simp_all add: order_trans [of _ 0])
  then show "sint w = int (unat w)" by (simp add: sint_uint)
qed

lemma is_matured_iff:
  assumes "unat (maturity_extra_buffer (cfg_thresholds (hc_cfg ctx))) < 2 ^ 62"
  shows "is_matured ctx market t loan \<longleftrightarrow>
    min (2 ^ 63 - 1) (sint (lv_matures_at_unix loan) + int (unat (mv_grace_period_seconds market)) +
      int (unat (maturity_extra_buffer (cfg_thresholds (hc_cfg ctx))))) \<le> sint t"
proof -
  define b where "b = maturity_extra_buffer (cfg_thresholds (hc_cfg ctx))"
  define g where "g = mv_grace_period_seconds market"
  have "unat g < 2 ^ 32" using unat_less_exp [of g] by simp
  moreover have b: "unat b < 2 ^ 62" using assms by (simp add: b_def)
  moreover have "unat (ucast g :: 64 word) = unat g"
    using calculation(1) by (simp add: unsigned_ucast_eq take_bit_nat_eq_self)
  ultimately have u: "unat (ucast g + b :: 64 word) = unat g + unat b"
    by (simp add: unat_word_ariths)
  then have "sint (ucast g + b :: 64 word) = int (unat g + unat b)"
    using \<open>unat g < 2 ^ 32\<close> b by (subst sint_small) simp_all
  moreover have "- (2 ^ 63) \<le> sint (lv_matures_at_unix loan)"
    using sint_greater_eq [of "lv_matures_at_unix loan"] by simp
  ultimately show ?thesis
    using sint_greater_eq [of t]
    by (simp add: is_matured_def effective_grace_def sint_sat_add_i64 b_def [symmetric] g_def [symmetric] add.assoc)
qed

text \<open>
  C19. A healthy loan costs nothing: a Fixed loan whose debt is below 1.05 times its
  principal and whose maturity plus grace and buffer lies ahead, like a loan that is not
  active or has no debt, is skipped without a simulation, a submission or a read. The ratio is
  exact for a non-zero principal and for principal and debt up to \<open>2^45\<close> atoms; beyond, the
  rounding of the \<open>f64\<close> prefilter may let a loan just below 1.05 through to the simulation. The
  configured buffer is below \<open>2^62\<close> seconds, so that adding it does not wrap.
\<close>

theorem healthy_loan_untouched:
  assumes "lv_state loan \<noteq> LoanState_Active y \<or> lv_outstanding_debt_atoms loan = 0 \<or>
      (\<not> loan_is_p2pool y loan \<and>
       0 < lv_principal_debt_atoms loan \<and> lv_principal_debt_atoms loan \<le> 2 ^ 45 \<and>
       lv_outstanding_debt_atoms loan \<le> 2 ^ 45 \<and>
       20 * unat (lv_outstanding_debt_atoms loan) < 21 * unat (lv_principal_debt_atoms loan) \<and>
       sint t < min (2 ^ 63 - 1) (sint (lv_matures_at_unix loan) + int (unat (mv_grace_period_seconds market)) +
         int (unat (maturity_extra_buffer (cfg_thresholds (hc_cfg ctx))))))"
    and "unat (maturity_extra_buffer (cfg_thresholds (hc_cfg ctx))) < 2 ^ 62"
  shows "scan_loan c k y ctx market t loan n s = (Ok n, s)"
  using assms(1)
proof (elim disjE conjE)
  assume "\<not> loan_is_p2pool y loan" and p: "0 < lv_principal_debt_atoms loan" "lv_principal_debt_atoms loan \<le> 2 ^ 45"
    "lv_outstanding_debt_atoms loan \<le> 2 ^ 45"
    and r: "20 * unat (lv_outstanding_debt_atoms loan) < 21 * unat (lv_principal_debt_atoms loan)"
    and t: "sint t < min (2 ^ 63 - 1) (sint (lv_matures_at_unix loan) + int (unat (mv_grace_period_seconds market)) +
         int (unat (maturity_extra_buffer (cfg_thresholds (hc_cfg ctx)))))"
  have "\<not> is_matured ctx market t loan" unfolding is_matured_iff [OF assms(2)] using t by linarith
  moreover have "\<not> may_breach_ltv y loan"
    using prefilter_iff [of "lv_principal_debt_atoms loan" "lv_outstanding_debt_atoms loan"] p r \<open>\<not> loan_is_p2pool y loan\<close>
    by (auto simp: may_breach_ltv_def)
  ultimately show ?thesis by (simp add: scan_loan_def pdone_def)
qed (simp_all add: scan_loan_def pdone_def)

section \<open>The handler's contract\<close>

lemma silent_prepend [emits_intro]: "silent m \<Longrightarrow> silent (prepend_or_nothing m)"
  unfolding prepend_or_nothing_def by (intro emits_intro)

lemma keeps_prepend [keeps_intro]: "keeps_own m \<Longrightarrow> keeps_own (prepend_or_nothing m)"
  unfolding prepend_or_nothing_def by (intro keeps_intro)

lemma silent_fetch_swb_bundle [emits_intro]: "silent (fetch_swb_bundle c k ctx b)"
  unfolding fetch_swb_bundle_def by (intro emits_intro)

lemma keeps_fetch_swb_bundle [keeps_intro]: "keeps_own (fetch_swb_bundle c k ctx b)"
  unfolding fetch_swb_bundle_def by (intro keeps_intro)

lemma silent_pick_repay_amount [emits_intro]: "silent (pick_repay_amount c y ata loan)"
  unfolding pick_repay_amount_def by (intro emits_intro)

lemma keeps_pick_repay_amount [keeps_intro]: "keeps_own (pick_repay_amount c y ata loan)"
  unfolding pick_repay_amount_def by (intro keeps_intro)

lemma keeps_close_loan [keeps_intro]: "keeps_own (close_loan c k y ctx label mk market loan db cb ixs luts)"
  unfolding close_loan_def Let_def by (intro keeps_intro)

lemma keeps_try_settle [keeps_intro]: "keeps_own (try_settle_matured c k y ctx market loan)"
  unfolding try_settle_matured_def Let_def by (intro keeps_intro)

lemma keeps_try_liquidate [keeps_intro]: "keeps_own (try_liquidate_ltv c k y ctx market loan)"
  unfolding try_liquidate_ltv_def Let_def by (intro keeps_intro)

text \<open>The events of a close: nothing sent, or one successful simulation of what is then sent.\<close>

definition v0_pre :: "sdk \<Rightarrow> handler_context \<Rightarrow> instruction list" where
  "v0_pre k ctx = priority_fee_preamble k (hc_rpc ctx) V0_COMPUTE_UNIT_LIMIT"

definition sent_after_sim ::
    "instruction list \<Rightarrow> lookup_table list \<Rightarrow> pubkey \<Rightarrow> instruction list \<Rightarrow> event list \<Rightarrow> bool" where
  "sent_after_sim pre luts payer bundle1 es \<longleftrightarrow>
     (\<exists>rest. es = EvSim bundle1 luts payer True # rest \<and>
        (\<forall>ixs l p ok. EvSim ixs l p ok \<notin> set rest) \<and>
        (\<forall>tx. EvSend tx \<in> set rest \<longrightarrow>
           tx_ixs tx = pre @ bundle1 \<and> luts_of tx = luts \<and> tx_payer tx = payer))"

lemma sent_after_sim_gated: "sent_after_sim pre luts payer b es \<Longrightarrow> self_gated pre es"
proof -
  assume "sent_after_sim pre luts payer b es"
  then obtain rest where es: "es = EvSim b luts payer True # rest" and
    rest: "\<And>ixs l p ok. EvSim ixs l p ok \<notin> set rest"
      "\<And>tx. EvSend tx \<in> set rest \<Longrightarrow> tx_ixs tx = pre @ b \<and> luts_of tx = luts \<and> tx_payer tx = payer"
    unfolding sent_after_sim_def by blast
  have "gated pre (Some (b, luts, payer)) rest" by (rule gated_sends) (use rest in auto)
  then show "self_gated pre es" by (simp add: es self_gated_def)
qed

lemma emits_v0_sends:
  "emits (send_signed_v0_labeled c k r label ixs luts [payer])
     (\<lambda>_ es. (\<forall>i l p ok. EvSim i l p ok \<notin> set es) \<and> (\<forall>tx. EvSend tx \<in> set es \<longrightarrow>
        tx_ixs tx = priority_fee_preamble k r V0_COMPUTE_UNIT_LIMIT @ ixs \<and> luts_of tx = luts \<and>
        tx_payer tx = kp_pubkey k payer))"
  unfolding send_signed_v0_labeled.simps
  by (rule emits_count_ix [OF emits_send_v0_with_retry]) (fastforce dest: retry_trace_sends)+

lemma emits_sim_and_send:
  "emits (pbind (simulate_v0 c k b luts (kp_pubkey k payer)) (\<lambda>confirm.
      if \<not> sim_ok confirm then pdone (Ok False)
      else pbind (send_signed_v0_labeled c k r label b luts [payer]) (\<lambda>_. pdone (Ok True))))
     (\<lambda>_ es. sends es = [] \<or> sent_after_sim (priority_fee_preamble k r V0_COMPUTE_UNIT_LIMIT) luts (kp_pubkey k payer) b es)"
proof (rule emits_pbind [OF emits_simulate_v0])
  fix v :: simulation_result and es
  assume "es = [] \<and> \<not> is_ok (Ok v) \<or> (\<exists>va. Ok v = Ok va \<and> es = [EvSim b luts (kp_pubkey k payer) (sim_ok va)])"
  then have es: "es = [EvSim b luts (kp_pubkey k payer) (sim_ok v)]" by simp
  have "emits (pbind (send_signed_v0_labeled c k r label b luts [payer]) (\<lambda>_. pdone (Ok True)))
      (\<lambda>_ es'. sent_after_sim (priority_fee_preamble k r V0_COMPUTE_UNIT_LIMIT) luts (kp_pubkey k payer) b
         (EvSim b luts (kp_pubkey k payer) True # es'))"
    by (rule emits_pbind [OF emits_v0_sends]) (auto intro!: emits_pdone simp: sent_after_sim_def)
  then show "emits (if \<not> sim_ok v then pdone (Ok False)
      else pbind (send_signed_v0_labeled c k r label b luts [payer]) (\<lambda>_. pdone (Ok True)))
     (\<lambda>_ es'. sends (es @ es') = [] \<or> sent_after_sim (priority_fee_preamble k r V0_COMPUTE_UNIT_LIMIT) luts (kp_pubkey k payer) b (es @ es'))"
    by (cases "sim_ok v") (auto simp: es intro: emits_pdone elim: emits_mono)
qed auto

lemma emits_close_loan:
  "emits (close_loan c k y ctx label mk market loan db cb ixs luts)
     (\<lambda>_ es. sends es = [] \<or> (\<exists>v. sent_after_sim (v0_pre k ctx) luts (kp_pubkey k (fee_payer (hc_signers ctx)))
        (ixs @ [build_ix y (mk (close_args_of k y ctx market loan db cb v))]) es))"
proof -
  let ?\<Phi> = "\<lambda>_ es. sends es = [] \<or> (\<exists>v. sent_after_sim (v0_pre k ctx) luts (kp_pubkey k (fee_payer (hc_signers ctx)))
        (ixs @ [build_ix y (mk (close_args_of k y ctx market loan db cb v))]) es)"
  have "emits (pbind (simulate_v0 c k b luts (kp_pubkey k (fee_payer (hc_signers ctx)))) (\<lambda>confirm.
      if \<not> sim_ok confirm then pdone (Ok False)
      else pbind (send_signed_v0_labeled c k (hc_rpc ctx) label b luts [fee_payer (hc_signers ctx)]) (\<lambda>_. pdone (Ok True)))) ?\<Phi>"
    if "b = ixs @ [build_ix y (mk (close_args_of k y ctx market loan db cb v))]" for b v
    unfolding that by (rule emits_mono [OF emits_sim_and_send]) (auto simp: v0_pre_def)
  then show ?thesis
    unfolding close_loan_def Let_def
    by (intro emits_bind_silent silent_pick_repay_amount) (auto split: option.split intro!: emits_pdone)
qed

text \<open>A check simulation in front of a close.\<close>

definition checked_close ::
    "sdk \<Rightarrow> ydelta \<Rightarrow> handler_context \<Rightarrow> (close_args \<Rightarrow> ydelta_ix) \<Rightarrow> (bank_info \<Rightarrow> bank_info \<Rightarrow> ydelta_ix) \<Rightarrow>
     market_view \<Rightarrow> loan_view \<Rightarrow> event list \<Rightarrow> bool" where
  "checked_close k y ctx mk check market loan es \<longleftrightarrow>
     (let payer = kp_pubkey k (fee_payer (hc_signers ctx)) in
      \<exists>swb luts db cb v rest.
        es = EvSim (swb @ [build_ix y (check db cb)]) luts payer True # rest \<and>
        sent_after_sim (v0_pre k ctx) luts payer
          (swb @ [build_ix y (mk (close_args_of k y ctx market loan db cb v))]) rest)"

lemma emits_checked_close:
  assumes "\<And>v. emits (f v) (\<lambda>_ es. sends es = [] \<or> (sim_ok v \<and> P \<and> (\<exists>a. sent_after_sim (v0_pre k ctx) luts
      (kp_pubkey k (fee_payer (hc_signers ctx))) (swb @ [build_ix y (mk (close_args_of k y ctx market loan db cb a))]) es)))"
  shows "emits (pbind (simulate_v0 c k (swb @ [build_ix y (check db cb)]) luts (kp_pubkey k (fee_payer (hc_signers ctx)))) f)
     (\<lambda>_ es. sends es = [] \<or> P \<and> checked_close k y ctx mk check market loan es)"
proof (rule emits_pbind [OF emits_simulate_v0])
  fix v :: simulation_result and es
  assume "es = [] \<and> \<not> is_ok (Ok v) \<or> (\<exists>va. Ok v = Ok va \<and>
      es = [EvSim (swb @ [build_ix y (check db cb)]) luts (kp_pubkey k (fee_payer (hc_signers ctx))) (sim_ok va)])"
  then have es: "es = [EvSim (swb @ [build_ix y (check db cb)]) luts (kp_pubkey k (fee_payer (hc_signers ctx))) (sim_ok v)]"
    by simp
  show "emits (f v) (\<lambda>_ es'. sends (es @ es') = [] \<or> P \<and> checked_close k y ctx mk check market loan (es @ es'))"
  proof (rule emits_mono [OF assms], elim disjE conjE exE)
    fix es' a
    assume ok: "sim_ok v" and P and sent: "sent_after_sim (v0_pre k ctx) luts (kp_pubkey k (fee_payer (hc_signers ctx)))
        (swb @ [build_ix y (mk (close_args_of k y ctx market loan db cb a))]) es'"
    have "checked_close k y ctx mk check market loan (es @ es')"
      unfolding checked_close_def Let_def
      by (rule exI [of _ swb], rule exI [of _ luts], rule exI [of _ db], rule exI [of _ cb], rule exI [of _ a], rule exI [of _ es'])
        (use ok sent in \<open>simp add: es\<close>)
    with \<open>P\<close> show "sends (es @ es') = [] \<or> P \<and> checked_close k y ctx mk check market loan (es @ es')" by blast
  qed (simp add: es)
qed auto

lemma emits_try_settle:
  "emits (try_settle_matured c k y ctx market loan)
     (\<lambda>_ es. sends es = [] \<or> checked_close k y ctx SettleMaturedLoan
        (\<lambda>db cb. CheckMaturityLiquidatable (mv_address market) (kp_pubkey k (fee_payer (hc_signers ctx)))
           (lv_matched_loan_sequence loan) (bi_bank db) (cfg_marginfi_program_id (hc_cfg ctx))) market loan es)"
proof -
  note cl = emits_mono [OF emits_close_loan]
  note cc = emits_checked_close [where P = True, simplified]
  show ?thesis
    unfolding try_settle_matured_def Let_def
    by (intro emits_after_silent silent_banks_snapshot emits_bind_silent silent_pdone emits_case_prod
        silent_fetch_swb_bundle cc emits_if) (auto intro!: emits_pdone cl)
qed

text \<open>
  C1. A liquidation is checked three times before it is submitted. Whatever the world
  answers, either \<open>try_liquidate_ltv\<close> submits nothing, or the expected bonus reaches the
  configured minimum and its events start with two successful simulations over the same
  Switchboard update and lookup tables: first the program's LTV check of this loan, then
  the very liquidation of this loan that every submitted transaction carries behind the
  compute-budget preamble.
\<close>

theorem liquidation_double_checked:
  "emits (try_liquidate_ltv c k y ctx market loan)
     (\<lambda>_ es. sends es = [] \<or>
        ucast (min_liquidation_profit_atoms (cfg_thresholds (hc_cfg ctx))) \<le> expected_bonus market loan \<and>
        checked_close k y ctx LiquidateLoan
          (\<lambda>db cb. CheckLtvLiquidatable (mv_address market) (kp_pubkey k (fee_payer (hc_signers ctx)))
             (lv_matched_loan_sequence loan) (bi_bank db) (bi_bank cb) (bi_oracles db) (bi_oracles cb)
             (cfg_marginfi_program_id (hc_cfg ctx))) market loan es)"
  unfolding try_liquidate_ltv_def Let_def
  by (intro emits_after_silent silent_banks_snapshot emits_bind_silent silent_pdone emits_case_prod
      silent_fetch_swb_bundle emits_checked_close emits_if)
    (auto intro!: emits_pdone emits_mono [OF emits_close_loan])

lemma emits_try_liquidate_checked:
  "emits (try_liquidate_ltv c k y ctx market loan)
     (\<lambda>_ es. sends es = [] \<or> (\<exists>check. checked_close k y ctx LiquidateLoan check market loan es))"
  unfolding try_liquidate_ltv_def Let_def
  by (intro emits_after_silent silent_banks_snapshot emits_bind_silent silent_pdone emits_case_prod
      silent_fetch_swb_bundle emits_mono [OF emits_checked_close [where P = True]] emits_if)
    (auto intro!: emits_pdone emits_mono [OF emits_close_loan])

lemma checked_close_gated: "checked_close k y ctx mk check market loan es \<Longrightarrow> self_gated (v0_pre k ctx) es"
proof -
  assume "checked_close k y ctx mk check market loan es"
  then obtain ixs luts p b rest where es: "es = [EvSim ixs luts p True] @ rest" and
    "sent_after_sim (v0_pre k ctx) luts p b rest"
    unfolding checked_close_def Let_def by auto
  then show ?thesis
    unfolding es by (intro self_gated_append) (auto intro: self_gated_no_send sent_after_sim_gated)
qed

lemma try_settle_gated: "emits (try_settle_matured c k y ctx market loan) (\<lambda>_ es. self_gated (v0_pre k ctx) es)"
  by (rule emits_mono [OF emits_try_settle]) (auto intro: checked_close_gated self_gated_no_send)

lemma try_liquidate_gated: "emits (try_liquidate_ltv c k y ctx market loan) (\<lambda>_ es. self_gated (v0_pre k ctx) es)"
  by (rule emits_mono [OF emits_try_liquidate_checked]) (auto intro: checked_close_gated self_gated_no_send)

interpretation liquidator: gated_handler liquidator_key "try_settle_or_liquidate c k y ctx market" "v0_pre k ctx"
  for c k y ctx market
proof
  fix x :: "loan_view \<times> bool \<times> bool"
  obtain loan matured breach where x: "x = (loan, matured, breach)" by (cases x)
  show "keeps_own (try_settle_or_liquidate c k y ctx market x)"
    unfolding try_settle_or_liquidate_def x split by (intro keeps_intro)
  show "emits (try_settle_or_liquidate c k y ctx market x) (\<lambda>_ es. self_gated (v0_pre k ctx) es)"
    unfolding try_settle_or_liquidate_def x split
    by (intro emits_if emits_pbind [OF try_liquidate_gated] try_settle_gated emits_pdone)
      (auto intro: emits_mono [OF try_settle_gated] self_gated_append emits_pdone)
qed

lemma silent_now_unix [emits_intro]: "silent (now_unix c)"
  unfolding now_unix_def by (intro emits_intro)

lemma keeps_now_unix [keeps_intro]: "keeps_own (now_unix c)"
  unfolding now_unix_def by (intro keeps_intro)

lemma scan_loan_gated: "emits (scan_loan c k y ctx market t loan n) (\<lambda>_ es. self_gated (v0_pre k ctx) es)"
  unfolding scan_loan_def Let_def by (intro emits_if liquidator.attempt_one_gated) (simp_all add: emits_pdone)

lemma scan_market_gated:
  "emits (liquidator_scan_market c k y ctx market) (\<lambda>_ es. self_gated (v0_pre k ctx) es)"
  unfolding liquidator_scan_market_def
  by (intro emits_bind_silent silent_list_loans_for_market emits_after_silent silent_now_unix emits_pfor scan_loan_gated)
    (auto intro: self_gated_append)

text \<open>
  The liquidator never submits blindly: every transaction of a tick carries, behind the
  compute-budget preamble, exactly the bundle, the lookup tables and the payer of the last
  simulation before it, and that simulation succeeded.
\<close>

lemma liquidator_events:
  "emits (liquidator_tick c k y ctx)
     (\<lambda>_ es. self_gated (priority_fee_preamble k (hc_rpc ctx) V0_COMPUTE_UNIT_LIMIT) es)"
  unfolding liquidator_tick_def v0_pre_def [symmetric]
  by (intro emits_bind_silent silent_list_markets emits_pbind [OF emits_pfor [where Q = "self_gated (v0_pre k ctx)"]]
      emits_if emits_ptry [OF scan_market_gated])
    (auto intro: emits_pdone self_gated_append)

lemma liquidator_tick_restores: "restores (liquidator_tick c k y ctx)"
proof -
  have "restores (scan_loan c k y ctx market t loan n)" for market t loan n
    unfolding scan_loan_def Let_def by (intro handler_intro liquidator.attempt_one_restores)
  then show ?thesis
    unfolding liquidator_tick_def liquidator_scan_market_def
    by (intro handler_intro restores_keeps [OF keeps_list_markets] restores_keeps [OF keeps_list_loans_for_market] keeps_now_unix)
qed

end
