(* ===== verification/Match_Cranker.thy ===== *)
theory Match_Cranker
  imports Liquidator
begin

text \<open>
  \<open>handlers/match_cranker.rs\<close>: the match crank. A market whose best rates cross is
  simulated, the fill count is read from the simulation's logs, and the crank is submitted
  unless it would fill nothing; logs without a readable count do not stop it.
\<close>

section \<open>Definitions\<close>

definition strip_prefix :: "string \<Rightarrow> string \<Rightarrow> string option" where
  "strip_prefix p line = (if prefix p line then Some (drop (length p) line) else None)"

text \<open>\<open>rest.split_whitespace().next().unwrap_or(rest)\<close>, on ASCII text.\<close>

definition first_token :: "string \<Rightarrow> string" where
  "first_token rest =
     (case takeWhile (\<lambda>ch. \<not> is_space ch) (dropWhile is_space rest) of [] \<Rightarrow> rest | tok \<Rightarrow> tok)"

text \<open>One log line; \<open>None\<close> is \<open>continue\<close>.\<close>

definition fills_of_line :: "sdk \<Rightarrow> ydelta \<Rightarrow> string \<Rightarrow> u32 option" where
  "fills_of_line k y line =
     (case strip_prefix ''Program data: '' line of
        None \<Rightarrow> None
      | Some rest \<Rightarrow> (case base64_decode k (first_token rest) of
          None \<Rightarrow> None
        | Some bytes \<Rightarrow>
            if length bytes < 80 \<or> take 8 bytes \<noteq> MatchCrankLog_discriminant y then None
            else Some (from_le_bytes (take 4 (drop 72 bytes)))))"

fun parse_match_crank_fills :: "sdk \<Rightarrow> ydelta \<Rightarrow> string list \<Rightarrow> u32 option" where
  "parse_match_crank_fills k y [] = None"
| "parse_match_crank_fills k y (line # logs) =
     (case fills_of_line k y line of Some fills \<Rightarrow> Some fills | None \<Rightarrow> parse_match_crank_fills k y logs)"

definition pull_feeds :: "bank_info \<Rightarrow> bank_info \<Rightarrow> pubkey list" where
  "pull_feeds debt_bank collateral_bank =
     (if is_switchboard_pull debt_bank then [primary_oracle debt_bank] else []) @
     (if is_switchboard_pull collateral_bank then [primary_oracle collateral_bank] else [])"

definition mc_fetch_swb_bundle ::
    "'w client \<Rightarrow> sdk \<Rightarrow> handler_context \<Rightarrow> bank_info \<Rightarrow> bank_info \<Rightarrow>
     ('w, 'h, (instruction list \<times> lookup_table list) res) prog" where
  "mc_fetch_swb_bundle c k ctx debt_bank collateral_bank =
     (case hc_swb ctx of
        None \<Rightarrow> pdone (Ok ([], []))
      | Some cranker \<Rightarrow>
          if pull_feeds debt_bank collateral_bank = [] then pdone (Ok ([], []))
          else prepend_or_nothing (fetch_update_ixs c k cranker (pull_feeds debt_bank collateral_bank)))"

definition crank_one ::
    "'w client \<Rightarrow> sdk \<Rightarrow> ydelta \<Rightarrow> handler_context \<Rightarrow> market_view \<Rightarrow> ('w, 'h, bool res) prog" where
  "crank_one c k y ctx market =
     pseq banks_snapshot (\<lambda>banks.
     pbind (pdone (bank_for banks NoBankForDebtMint (mv_debt_mint market))) (\<lambda>debt_bank.
     pbind (pdone (bank_for banks NoBankForCollateralMint (mv_collateral_mint market))) (\<lambda>collateral_bank.
     let payer = fee_payer (hc_signers ctx); payer_pk = kp_pubkey k payer in
     pbind (mc_fetch_swb_bundle c k ctx debt_bank collateral_bank) (\<lambda>(swb_ixs, swb_luts).
     let real_bundle = swb_ixs @ [build_ix y (MatchCrank (bi_bank debt_bank) (mv_address market) payer_pk
           (bi_bank debt_bank) (cfg_marginfi_group (hc_cfg ctx)) (bi_bank collateral_bank)
           (bi_oracles debt_bank) (bi_oracles collateral_bank)
           (match_cranker_max_fills (cfg_handlers (hc_cfg ctx))))] in
     pbind (simulate_v0 c k real_bundle swb_luts payer_pk) (\<lambda>sim.
     if \<not> sim_ok sim then pdone (Ok False)
     else if parse_match_crank_fills k y (sim_logs sim) = Some 0 then pdone (Ok False)
     else pbind (send_signed_v0_labeled c k (hc_rpc ctx) ''match_crank'' real_bundle swb_luts [payer])
            (\<lambda>_. pdone (Ok True)))))))"

definition mc_scan_market ::
    "'w client \<Rightarrow> sdk \<Rightarrow> ydelta \<Rightarrow> handler_context \<Rightarrow> market_view \<Rightarrow> ('w, pubkey set, bool res) prog" where
  "mc_scan_market c k y ctx market =
     pbind (market_is_rate_crossed c y (mv_address market)) (\<lambda>crossed.
     if \<not> crossed then pdone (Ok False)
     else guarded (mv_address market) (crank_one c k y ctx market) (pdone (Ok False)) pdone)"

definition match_cranker_tick ::
    "'w client \<Rightarrow> sdk \<Rightarrow> ydelta \<Rightarrow> handler_context \<Rightarrow> ('w, pubkey set, unit res) prog" where
  "match_cranker_tick c k y ctx =
     pbind (list_markets c y (cfg_program_id (hc_cfg ctx))) (\<lambda>markets.
     pbind (pfor (\<lambda>market cranked.
              if mv_is_paused market then pdone (Ok cranked)
              else pseq (mc_scan_market c k y ctx market) (\<lambda>res. pdone (tally res cranked))) markets 0)
       (\<lambda>_. pdone (Ok ())))"

section \<open>Reading the fill count\<close>

text \<open>The record \<open>emit_stack\<close> writes: discriminant, market, cranker, fills, padding.\<close>

definition match_crank_record :: "ydelta \<Rightarrow> bytes \<Rightarrow> bytes \<Rightarrow> u32 \<Rightarrow> bytes \<Rightarrow> bytes" where
  "match_crank_record y market cranker fills pad =
     MatchCrankLog_discriminant y @ market @ cranker @ to_le_bytes fills @ pad"

lemma first_token_word:
  "tok \<noteq> [] \<Longrightarrow> (\<forall>ch \<in> set tok. \<not> is_space ch) \<Longrightarrow> first_token tok = tok"
  by (cases tok) (auto simp: first_token_def takeWhile_eq_all_conv [THEN iffD2] split: list.splits)

lemma parse_skips:
  "(\<forall>line \<in> set earlier. fills_of_line k y line = None) \<Longrightarrow>
   parse_match_crank_fills k y (earlier @ logs) = parse_match_crank_fills k y logs"
  by (induction earlier) auto

text \<open>
  C24. Provided that Base64 decoding inverts the encoder that wrote the log, the fill count
  survives the trip through the log line: whatever lines stand before it, as long as none
  of them is itself such a record, and whatever comes after, the parser returns the count
  the program wrote.
\<close>

theorem fills_roundtrip:
  assumes "base64_decode k tok = Some (match_crank_record y market cranker fills pad)"
    and "tok \<noteq> []" and "\<forall>ch \<in> set tok. \<not> is_space ch"
    and "length (MatchCrankLog_discriminant y) = 8" "length market = 32" "length cranker = 32" "length pad = 4"
    and "\<forall>line \<in> set earlier. fills_of_line k y line = None"
  shows "parse_match_crank_fills k y (earlier @ (''Program data: '' @ tok) # later) = Some fills"
proof -
  have "from_le_bytes (to_le_bytes fills) = fills" by (rule from_to_le_bytes [of 4]) simp
  then have "fills_of_line k y (''Program data: '' @ tok) = Some fills"
    using assms(1,4-7) first_token_word [OF assms(2,3)]
    by (simp add: fills_of_line_def strip_prefix_def match_crank_record_def)
  then show ?thesis by (simp add: parse_skips [OF assms(8)])
qed

section \<open>The handler's contract\<close>

lemma silent_mc_fetch [emits_intro]: "silent (mc_fetch_swb_bundle c k ctx db cb)"
  unfolding mc_fetch_swb_bundle_def by (intro emits_intro)

lemma keeps_mc_fetch [keeps_intro]: "keeps_own (mc_fetch_swb_bundle c k ctx db cb)"
  unfolding mc_fetch_swb_bundle_def by (intro keeps_intro)

interpretation match_cranker: gated_handler mv_address "crank_one c k y ctx" "v0_pre k ctx" for c k y ctx
proof
  show "keeps_own (crank_one c k y ctx x)" for x
    unfolding crank_one_def Let_def by (intro keeps_intro)
  have send: "emits (pbind (send_signed_v0_labeled c k (hc_rpc ctx) l b luts [p]) (\<lambda>_. pdone (Ok True)))
      (\<lambda>_ es. gated (v0_pre k ctx) (Some (b, luts, kp_pubkey k p)) es)" for l b luts p
    unfolding v0_pre_def by (rule emits_pbind [OF gated_send_v0]) (auto intro: emits_pdone)
  show "emits (crank_one c k y ctx x) (\<lambda>_ es. self_gated (v0_pre k ctx) es)" for x
    unfolding crank_one_def Let_def
    by (intro emits_after_silent silent_banks_snapshot emits_bind_silent silent_pdone emits_case_prod
        silent_mc_fetch emits_sim_gate emits_if send) (simp_all add: emits_pdone)
qed

lemma mc_scan_gated: "emits (mc_scan_market c k y ctx m) (\<lambda>_ es. self_gated (v0_pre k ctx) es)"
  unfolding mc_scan_market_def
  by (intro emits_bind_silent silent_market_is_rate_crossed emits_if
      emits_guarded [OF match_cranker.attempt_gated]) (auto intro: emits_pdone self_gated_append)

text \<open>
  The match cranker never submits blindly: every transaction of a tick carries exactly
  the bundle of the last simulation before it, and that simulation succeeded.
\<close>

lemma match_cranker_events:
  "emits (match_cranker_tick c k y ctx)
     (\<lambda>_ es. self_gated (priority_fee_preamble k (hc_rpc ctx) V0_COMPUTE_UNIT_LIMIT) es)"
  unfolding match_cranker_tick_def v0_pre_def [symmetric]
  by (intro emits_bind_silent silent_list_markets emits_pbind [OF emits_pfor [where Q = "self_gated (v0_pre k ctx)"]]
      emits_if emits_pseq [OF mc_scan_gated])
    (auto intro: emits_pdone self_gated_append)

lemma match_cranker_tick_restores: "restores (match_cranker_tick c k y ctx)"
proof -
  have scan: "restores (mc_scan_market c k y ctx m)" for m
    unfolding mc_scan_market_def
    by (intro handler_intro restores_keeps [OF keeps_market_is_rate_crossed]
        restores_guarded match_cranker.attempt_keeps)
  have step: "restores (pseq (mc_scan_market c k y ctx m) (\<lambda>res. pdone (tally res n)))" for m n
    using scan by (intro restores_result) simp_all
  show ?thesis
    unfolding match_cranker_tick_def
    by (intro restores_pbind restores_pfor restores_if restores_pdone step restores_keeps [OF keeps_list_markets])
qed

text \<open>
  C23. A crank that would fill nothing is never paid for: when simulation succeeds and its
  logs report zero fills, the crank is skipped and nothing is submitted.
\<close>

theorem zero_fill_not_submitted:
  fixes c :: "'w client" and s s' :: "('w, 'h) sys"
  assumes "\<And>tx w. fst (c_simulate c tx w) = Inr \<lparr>sv_err = None, sv_logs = Some logs\<rparr>"
    and "parse_match_crank_fills k y logs = Some 0"
    and "crank_one c k y ctx market s = (res, s')"
  shows "res \<noteq> Ok True \<and> (\<exists>es. trace s' = trace s @ es \<and> sends es = [])"
proof -
  have answer: "emits (call c (c_simulate c tx) :: ('w, 'h, sim_value res) prog) (\<lambda>r es. es = [] \<and> (\<forall>v. r = Ok v \<longrightarrow> sv_logs v = Some logs))" for tx
    unfolding emits_def
  proof
    fix s :: "('w, 'h) sys"
    obtain w where "c_simulate c tx (world s) = (Inr \<lparr>sv_err = None, sv_logs = Some logs\<rparr>, w)"
      using assms(1) [of tx "world s"] by (metis prod.collapse)
    then show "\<exists>es. trace (snd (call c (c_simulate c tx) s)) = trace s @ es \<and> es = [] \<and>
        (\<forall>v. fst (call c (c_simulate c tx) s) = Ok v \<longrightarrow> sv_logs v = Some logs)"
      by (simp add: call_def pseq_run await_def pdone_def)
  qed
  have sim: "emits (simulate_v0 c k b luts p :: ('w, 'h, simulation_result res) prog) (\<lambda>r es. sends es = [] \<and> (\<forall>v. r = Ok v \<longrightarrow> sim_logs v = logs))"
    for b luts p
    unfolding simulate_v0_def
    by (intro emits_bind_silent silent_call silent_pdone emits_pbind [OF answer] emits_pseq [OF emits_emit])
      (auto intro!: emits_pdone)
  have "emits (crank_one c k y ctx market :: ('w, 'h, bool res) prog) (\<lambda>res es. res \<noteq> Ok True \<and> sends es = [])"
    unfolding crank_one_def Let_def
    by (intro emits_after_silent silent_banks_snapshot emits_bind_silent silent_pdone emits_case_prod
        silent_mc_fetch emits_pbind [OF sim]) (auto simp: assms(2) intro!: emits_pdone)
  from emitsD [OF this assms(3)] show ?thesis by blast
qed

end
