(* ===== verification/Supervisor.thy ===== *)
theory Supervisor
  imports Match_Cranker
begin

text \<open>
  \<open>handlers/mod.rs\<close> and the background loops of \<open>metrics.rs\<close>: the supervisor that runs a
  handler until shutdown, the balance watcher that pauses the fee-payer handlers, the token
  balance gauge and the bank refresh. The loops run until the stop flag is set, so they
  take a number of rounds; the sleep between two rounds takes fuel, and a theorem says how
  much is enough.
\<close>

section \<open>Definitions\<close>

definition FAIL_REASON_RPC :: string where "FAIL_REASON_RPC = ''rpc_error''"
definition FAIL_REASON_INSUFFICIENT_FUNDS :: string where
  "FAIL_REASON_INSUFFICIENT_FUNDS = ''insufficient_funds''"
definition FAIL_REASON_SIM_FAILED :: string where "FAIL_REASON_SIM_FAILED = ''sim_failed''"
definition FAIL_REASON_TX_REJECTED :: string where "FAIL_REASON_TX_REJECTED = ''tx_rejected''"
definition FAIL_REASON_DECODE :: string where "FAIL_REASON_DECODE = ''decode_error''"
definition FAIL_REASON_INTERNAL :: string where "FAIL_REASON_INTERNAL = ''internal''"

text \<open>The argument is the text \<open>format!("{err:#}")\<close> of the error chain.\<close>

definition classify_handler_error :: "string \<Rightarrow> string" where
  "classify_handler_error text1 =
     (let msg = to_lowercase text1 in
      if str_contains ''insufficient'' msg \<or> str_contains ''lamports'' msg \<or> str_contains ''not enough'' msg
      then FAIL_REASON_INSUFFICIENT_FUNDS
      else if str_contains ''simulation'' msg \<or> str_contains ''simulate'' msg
      then FAIL_REASON_SIM_FAILED
      else if str_contains ''blockhash'' msg \<or> str_contains ''send_and_confirm'' msg \<or>
              str_contains ''tx_rejected'' msg
      then FAIL_REASON_TX_REJECTED
      else if str_contains ''rpc'' msg \<or> str_contains ''connection'' msg \<or> str_contains ''timed out'' msg \<or>
              str_contains ''reqwest'' msg \<or> str_contains ''http'' msg
      then FAIL_REASON_RPC
      else if str_contains ''decode'' msg \<or> str_contains ''deserialize'' msg \<or> str_contains ''bytemuck'' msg
      then FAIL_REASON_DECODE
      else FAIL_REASON_INTERNAL)"

text \<open>The \<open>Handler\<close> trait; the tick is given its context already.\<close>

record ('w, 'h) handler =
  handler_name :: string
  requires_fee_payer :: bool
  tick :: "('w, 'h, unit res) prog"

text \<open>One round of the supervisor. \<open>disp\<close> renders an error as \<open>anyhow\<close> does.\<close>

definition supervise_round :: "(err \<Rightarrow> string) \<Rightarrow> ('w, 'h) handler \<Rightarrow> ('w, 'h, unit res) prog" where
  "supervise_round disp h =
     pbind (pseq (gets fee_payer_low) (\<lambda>low.
        if requires_fee_payer h \<and> low then pdone (Ok ''paused_low_balance'')
        else ptry (tick h) (\<lambda>_. pdone (Ok ''ok''))
               (\<lambda>e. pseq (emit (EvFailure (handler_name h) (classify_handler_error (disp e))))
                      (\<lambda>_. pdone (Ok ''err'')))))
       (\<lambda>outcome. pseq (emit (EvTick (handler_name h) outcome)) (\<lambda>_. pdone (Ok ())))"

text \<open>
  The stop-aware sleep, in nanoseconds. \<open>Some True\<close>: the stop flag was seen; \<open>Some False\<close>:
  the deadline has passed; \<open>None\<close>: the fuel has run out. The deadline is unbounded here;
  \<open>Instant\<close> addition panics in the source for intervals past the range of the clock.
\<close>

fun sleep_to :: "'w client \<Rightarrow> nat \<Rightarrow> nat \<Rightarrow> ('w, 'h, bool option) prog" where
  "sleep_to c 0 deadline = pdone None"
| "sleep_to c (Suc fuel) deadline =
     pseq (gets stop) (\<lambda>halt. if halt then pdone (Some True)
     else pseq (sense (c_instant c)) (\<lambda>now. if deadline \<le> now then pdone (Some False)
     else pseq (await c (\<lambda>w. ((), c_sleep c (min (deadline - now) (10 ^ 9)) w)))
            (\<lambda>_. sleep_to c fuel deadline)))"

definition sleep_until_or_stop :: "'w client \<Rightarrow> nat \<Rightarrow> nat \<Rightarrow> ('w, 'h, bool option) prog" where
  "sleep_until_or_stop c fuel duration =
     pseq (sense (c_instant c)) (\<lambda>now. sleep_to c fuel (now + duration))"

text \<open>
  \<open>spawn\<close>. \<open>Ok True\<close>: the loop has returned; \<open>Ok False\<close>: still running after the given
  rounds, or the sleep's fuel ran out.
\<close>

fun supervise ::
    "'w client \<Rightarrow> (err \<Rightarrow> string) \<Rightarrow> ('w, 'h) handler \<Rightarrow> nat \<Rightarrow> nat \<Rightarrow> nat \<Rightarrow> ('w, 'h, bool res) prog" where
  "supervise c disp h interval fuel 0 = pdone (Ok False)"
| "supervise c disp h interval fuel (Suc rounds) =
     pseq (gets stop) (\<lambda>halt. if halt then pdone (Ok True)
     else pbind (supervise_round disp h) (\<lambda>_.
          pseq (sleep_until_or_stop c fuel interval) (\<lambda>r. case r of
              None \<Rightarrow> pdone (Ok False)
            | Some True \<Rightarrow> pdone (Ok True)
            | Some False \<Rightarrow> supervise c disp h interval fuel rounds)))"

text \<open>The loops of \<open>metrics.rs\<close>: here a sleep cut short by shutdown is followed by the check.\<close>

fun metrics_loop :: "'w client \<Rightarrow> ('w, 'h, unit res) prog \<Rightarrow> nat \<Rightarrow> nat \<Rightarrow> nat \<Rightarrow> ('w, 'h, bool res) prog" where
  "metrics_loop c body interval fuel 0 = pdone (Ok False)"
| "metrics_loop c body interval fuel (Suc rounds) =
     pseq (gets stop) (\<lambda>halt. if halt then pdone (Ok True)
     else pbind body (\<lambda>_.
          pseq (sleep_until_or_stop c fuel interval) (\<lambda>r. case r of
              None \<Rightarrow> pdone (Ok False)
            | Some _ \<Rightarrow> metrics_loop c body interval fuel rounds)))"

definition sol_balance_round :: "'w client \<Rightarrow> sdk \<Rightarrow> signers \<Rightarrow> u64 \<Rightarrow> ('w, 'h, unit res) prog" where
  "sol_balance_round c k sg min_balance_lamports =
     pseq (await c (c_get_balance c (kp_pubkey k (fee_payer sg)))) (\<lambda>r. case r of
         Inl e \<Rightarrow> pdone (Ok ())
       | Inr lamports \<Rightarrow>
           pseq (gets fee_payer_low) (\<lambda>was_low.
             let is_low = lamports < min_balance_lamports in
             if is_low \<noteq> was_low then pseq (puts (\<lambda>sh. sh\<lparr>fee_payer_low := is_low\<rparr>)) (\<lambda>_. pdone (Ok ()))
             else pdone (Ok ())))"

definition spawn_sol_balance_loop ::
    "'w client \<Rightarrow> sdk \<Rightarrow> signers \<Rightarrow> u64 \<Rightarrow> nat \<Rightarrow> nat \<Rightarrow> ('w, 'h, bool res) prog" where
  "spawn_sol_balance_loop c k sg min_balance_lamports =
     metrics_loop c (sol_balance_round c k sg min_balance_lamports) (60 * 10 ^ 9)"

definition new_balances :: "(pubkey \<times> pubkey) list \<Rightarrow> account option list \<Rightarrow> (pubkey \<times> u64) list" where
  "new_balances entries accts =
     fold (\<lambda>(i, mint, ata). AList.update mint
             (case (if i < length accts then accts ! i else None) of
                None \<Rightarrow> 0
              | Some a \<Rightarrow> (case spl_token_amount (acct_data a) of None \<Rightarrow> 0 | Some n \<Rightarrow> n)))
       (List.enumerate 0 entries) []"

definition ata_balance_round ::
    "'w client \<Rightarrow> sdk \<Rightarrow> signers \<Rightarrow> nat list \<Rightarrow> ('w, 'h, unit res) prog" where
  "ata_balance_round c k sg order =
     pseq banks_snapshot (\<lambda>reg.
     pbind (pdone (rmap (\<lambda>mint. rbind (or_panic (registry_get reg mint)) (\<lambda>bank.
              Ok (mint, ata_for k bank (kp_pubkey k (fee_payer sg))))) (map fst reg))) (\<lambda>entries.
     if entries = [] then pdone (Ok ())
     else ptry (batch_get_multiple_accounts c order (map snd entries))
       (\<lambda>accts. pseq (gets ata_balances) (\<lambda>guard. case guard of
            Poisoned _ \<Rightarrow> pdone (Ok ())
          | Healthy _ \<Rightarrow> pseq (puts (\<lambda>sh. sh\<lparr>ata_balances := Healthy (new_balances entries accts)\<rparr>))
                           (\<lambda>_. pdone (Ok ()))))
       (\<lambda>e. pdone (Ok ()))))"

definition spawn_ata_balance_loop ::
    "'w client \<Rightarrow> sdk \<Rightarrow> signers \<Rightarrow> nat list \<Rightarrow> nat \<Rightarrow> nat \<Rightarrow> nat \<Rightarrow> ('w, 'h, bool res) prog" where
  "spawn_ata_balance_loop c k sg order interval = metrics_loop c (ata_balance_round c k sg order) interval"

definition spawn_bank_refresh_loop ::
    "'w client \<Rightarrow> sdk \<Rightarrow> ydelta \<Rightarrow> config \<Rightarrow> nat \<Rightarrow> nat \<Rightarrow> nat \<Rightarrow> ('w, 'h, bool res) prog" where
  "spawn_bank_refresh_loop c k y cfg interval =
     metrics_loop c (ptry (refresh_banks c k y cfg) (\<lambda>_. pdone (Ok ())) (\<lambda>_. pdone (Ok ()))) interval"

text \<open>The five handlers.\<close>

definition promoter_handler ::
    "'w client \<Rightarrow> sdk \<Rightarrow> ydelta \<Rightarrow> handler_context \<Rightarrow> ('w, (pubkey \<times> u64) set) handler" where
  "promoter_handler c k y ctx =
     \<lparr>handler_name = ''promoter'', requires_fee_payer = True, tick = promoter_tick c k y ctx\<rparr>"

definition claimer_handler ::
    "'w client \<Rightarrow> sdk \<Rightarrow> ydelta \<Rightarrow> handler_context \<Rightarrow> ('w, (pubkey \<times> pubkey \<times> u16) set) handler" where
  "claimer_handler c k y ctx =
     \<lparr>handler_name = ''claimer'', requires_fee_payer = True, tick = claimer_tick c k y ctx\<rparr>"

definition liquidator_handler ::
    "'w client \<Rightarrow> sdk \<Rightarrow> ydelta \<Rightarrow> handler_context \<Rightarrow> ('w, pubkey set) handler" where
  "liquidator_handler c k y ctx =
     \<lparr>handler_name = ''liquidator'', requires_fee_payer = True, tick = liquidator_tick c k y ctx\<rparr>"

definition curator_handler ::
    "'w client \<Rightarrow> sdk \<Rightarrow> ydelta \<Rightarrow> handler_context \<Rightarrow> ('w, (pubkey \<times> u16) set) handler" where
  "curator_handler c k y ctx =
     \<lparr>handler_name = ''curator_fee_claimer'', requires_fee_payer = False, tick = curator_tick c k y ctx\<rparr>"

definition match_cranker_handler ::
    "'w client \<Rightarrow> sdk \<Rightarrow> ydelta \<Rightarrow> handler_context \<Rightarrow> ('w, pubkey set) handler" where
  "match_cranker_handler c k y ctx =
     \<lparr>handler_name = ''match_cranker'', requires_fee_payer = True, tick = match_cranker_tick c k y ctx\<rparr>"

section \<open>The sleep ends\<close>

text \<open>
  What is relied on of the runtime's clock: reading it does not turn it back, and a sleep
  lasts at least as long as asked for.
\<close>

definition clock_law :: "'w client \<Rightarrow> bool" where
  "clock_law c \<longleftrightarrow>
     (\<forall>w. fst (c_instant c w) \<le> fst (c_instant c (snd (c_instant c w)))) \<and>
     (\<forall>w n. fst (c_instant c w) + n \<le> fst (c_instant c (c_sleep c n w)))"

lemma sleep_to_ends:
  fixes c :: "'w client" and s :: "('w, 'h) sys"
  assumes "clock_law c" "deadline \<le> fst (c_instant c (world s)) + n * 10 ^ 9" "n < fuel"
  shows "\<exists>b. fst (sleep_to c fuel deadline s) = Some b"
  using assms(2,3)
proof (induction fuel arbitrary: n s)
  case (Suc fuel)
  obtain now w where now: "c_instant c (world s) = (now, w)" by fastforce
  show ?case
  proof (cases "stop (shm s) \<or> deadline \<le> now")
    case True
    then show ?thesis using now by (auto simp: prog_run)
  next
    case False
    then obtain n' where n: "n = Suc n'" using Suc.prems(1) now by (cases n) auto
    let ?w = "c_sleep c (min (deadline - now) (10 ^ 9)) w"
    let ?s = "s\<lparr>world := ?w, shm := c_interfere c ?w (shm s),
      steps := steps s @ [Switched (shm s) (c_interfere c ?w (shm s))]\<rparr>"
    have "now \<le> fst (c_instant c w)" using assms(1) now unfolding clock_law_def by (metis fst_conv snd_conv)
    moreover have "fst (c_instant c w) + min (deadline - now) (10 ^ 9) \<le> fst (c_instant c ?w)"
      using assms(1) unfolding clock_law_def by blast
    ultimately have "deadline \<le> fst (c_instant c (world ?s)) + n' * 10 ^ 9"
      using Suc.prems(1) now n by auto
    then have "\<exists>b. fst (sleep_to c fuel deadline ?s) = Some b"
      using Suc.prems(2) n by (intro Suc.IH [of ?s n']) auto
    then show ?thesis using False now by (simp add: prog_run)
  qed
qed simp

lemma sleep_ends:
  assumes "clock_law c" "duration div 10 ^ 9 + 2 \<le> fuel"
  shows "\<exists>b. fst (sleep_until_or_stop c fuel duration s) = Some b"
proof -
  obtain now w where now: "c_instant c (world s) = (now, w)" by fastforce
  have "now \<le> fst (c_instant c w)" using assms(1) now unfolding clock_law_def by (metis fst_conv snd_conv)
  moreover have "duration \<le> (duration div 10 ^ 9 + 1) * 10 ^ 9"
    using div_mult_mod_eq [of duration "10 ^ 9"] mod_less_divisor [of "10 ^ 9" duration] by simp
  ultimately have "now + duration \<le> fst (c_instant c (world (s\<lparr>world := w\<rparr>))) + (duration div 10 ^ 9 + 1) * 10 ^ 9"
    by simp
  from sleep_to_ends [OF assms(1) this] assms(2) show ?thesis
    by (auto simp: sleep_until_or_stop_def prog_run now)
qed

text \<open>
  C20. The sleep between two rounds returns: with a clock that does not run backwards and
  sleeps that last as long as asked for, one second of fuel per second of the interval and
  two more are enough, whatever the other tasks do meanwhile.
\<close>

theorem sleep_terminates:
  assumes "clock_law c" "duration div 10 ^ 9 + 2 \<le> fuel"
  shows "\<exists>b. fst (sleep_until_or_stop c fuel duration s) = Some b"
  using assms by (rule sleep_ends)

section \<open>What a supervised handler does\<close>

lemma silent_sleep_to: "silent (sleep_to c fuel d)"
  by (induction fuel) (auto intro!: emits_intro)

lemma silent_sleep_until [emits_intro]: "silent (sleep_until_or_stop c fuel duration)"
  unfolding sleep_until_or_stop_def by (intro emits_intro silent_sleep_to)

text \<open>
  The traces of the supervisor, round by round. \<open>J\<close> describes the memory a round may find and
  \<open>P\<close> what a tick may emit with each of its results. A round is paused only over a memory in
  which the flag pauses the handler, and ticks only over one in which it does not; a finished
  tick is counted once, by its own result, a failed one with the reason of its own error. The
  flag says whether the run has ended in a panic: only then does a round lack its counter, and
  it is the last one. The number counts the rounds.
\<close>

definition pauses :: "('w, 'h) handler \<Rightarrow> shared \<Rightarrow> bool" where
  "pauses h sh \<longleftrightarrow> requires_fee_payer h \<and> fee_payer_low sh"

inductive supervised_trace ::
    "(err \<Rightarrow> string) \<Rightarrow> ('w, 'h) handler \<Rightarrow> (shared \<Rightarrow> bool) \<Rightarrow> (unit res \<Rightarrow> event list \<Rightarrow> bool) \<Rightarrow>
     bool \<Rightarrow> nat \<Rightarrow> event list \<Rightarrow> bool"
  for disp :: "err \<Rightarrow> string" and h :: "('w, 'h) handler" and J :: "shared \<Rightarrow> bool"
    and P :: "unit res \<Rightarrow> event list \<Rightarrow> bool" where
  idle: "supervised_trace disp h J P False 0 []"
| panicked: "J sh \<Longrightarrow> \<not> pauses h sh \<Longrightarrow> P Panic t \<Longrightarrow> supervised_trace disp h J P True (Suc 0) t"
| paused: "J sh \<Longrightarrow> pauses h sh \<Longrightarrow> supervised_trace disp h J P pan n es \<Longrightarrow>
     supervised_trace disp h J P pan (Suc n) (EvTick (handler_name h) ''paused_low_balance'' # es)"
| ticked: "J sh \<Longrightarrow> \<not> pauses h sh \<Longrightarrow> P (Ok ()) t \<Longrightarrow> supervised_trace disp h J P pan n es \<Longrightarrow>
     supervised_trace disp h J P pan (Suc n) (t @ EvTick (handler_name h) ''ok'' # es)"
| failed: "J sh \<Longrightarrow> \<not> pauses h sh \<Longrightarrow> P (Err e) t \<Longrightarrow> supervised_trace disp h J P pan n es \<Longrightarrow>
     supervised_trace disp h J P pan (Suc n)
       (t @ EvFailure (handler_name h) (classify_handler_error (disp e)) # EvTick (handler_name h) ''err'' # es)"

text \<open>One round, by what the tick returned.\<close>

lemma supervise_round_result:
  assumes "supervise_round disp h s = (q, s1)"
  shows "if pauses h (shm s)
    then q = Ok () \<and> s1 = s\<lparr>steps := steps s @ [Did (EvTick (handler_name h) ''paused_low_balance'')]\<rparr>
    else case tick h s of
        (Ok _, s2) \<Rightarrow> q = Ok () \<and> s1 = s2\<lparr>steps := steps s2 @ [Did (EvTick (handler_name h) ''ok'')]\<rparr>
      | (Err e, s2) \<Rightarrow> q = Ok () \<and> s1 = s2\<lparr>steps := steps s2 @
          [Did (EvFailure (handler_name h) (classify_handler_error (disp e))), Did (EvTick (handler_name h) ''err'')]\<rparr>
      | (Panic, s2) \<Rightarrow> q = Panic \<and> s1 = s2"
  using assms by (auto simp: supervise_round_def pauses_def prog_run split: prod.splits rresult.splits if_splits)

lemma supervise_round_never_err: "supervise_round disp h s \<noteq> (Err e, s')"
  by (auto simp: supervise_round_def prog_run split: prod.splits rresult.splits if_splits)

lemma round_trace:
  assumes tick: "emits (tick h) P" and keep: "preserves J (tick h)" and J: "J (shm s)"
    and run: "supervise_round disp h s = (q, s1)"
  shows "J (shm s1) \<and> (\<exists>es. trace s1 = trace s @ es \<and>
    (if q = Panic then supervised_trace disp h J P True (Suc 0) es
     else \<forall>pan n rest. supervised_trace disp h J P pan n rest \<longrightarrow> supervised_trace disp h J P pan (Suc n) (es @ rest)))"
proof (cases "pauses h (shm s)")
  case True
  then have q: "q = Ok ()" and s1: "s1 = s\<lparr>steps := steps s @ [Did (EvTick (handler_name h) ''paused_low_balance'')]\<rparr>"
    using supervise_round_result [OF run] by simp_all
  have "supervised_trace disp h J P pan (Suc n) ([EvTick (handler_name h) ''paused_low_balance''] @ rest)"
    if "supervised_trace disp h J P pan n rest" for pan n rest
    using supervised_trace.paused [OF J True that] by simp
  then show ?thesis using J by (simp add: q s1)
next
  case False
  obtain r s2 where t: "tick h s = (r, s2)" by fastforce
  obtain es where es: "trace s2 = trace s @ es" "P r es" using emitsD [OF tick t] by blast
  have J2: "J (shm s2)" using keep J t unfolding preserves_def by (metis snd_conv)
  note result = supervise_round_result [OF run, unfolded t]
  show ?thesis
  proof (cases r)
    case (Ok u)
    with result False have q: "q = Ok ()" and s1: "s1 = s2\<lparr>steps := steps s2 @ [Did (EvTick (handler_name h) ''ok'')]\<rparr>"
      by simp_all
    have "supervised_trace disp h J P pan (Suc n) ((es @ [EvTick (handler_name h) ''ok'']) @ rest)"
      if "supervised_trace disp h J P pan n rest" for pan n rest
      using supervised_trace.ticked [where sh = "shm s" and t = es, OF J False _ that] es(2) Ok by simp
    then show ?thesis using J2 es(1) by (simp add: q s1)
  next
    case (Err e)
    with result False have q: "q = Ok ()" and s1: "s1 = s2\<lparr>steps := steps s2 @
        [Did (EvFailure (handler_name h) (classify_handler_error (disp e))), Did (EvTick (handler_name h) ''err'')]\<rparr>"
      by simp_all
    have "supervised_trace disp h J P pan (Suc n) ((es @
        [EvFailure (handler_name h) (classify_handler_error (disp e)), EvTick (handler_name h) ''err'']) @ rest)"
      if "supervised_trace disp h J P pan n rest" for pan n rest
      using supervised_trace.failed [where sh = "shm s" and t = es, OF J False _ that] es(2) Err by simp
    then show ?thesis using J2 es(1) by (simp add: q s1)
  next
    case Panic
    with result False have q: "q = Panic" "s1 = s2" by simp_all
    have "supervised_trace disp h J P True (Suc 0) es"
      using supervised_trace.panicked [where J = J and sh = "shm s"] J False es(2) Panic by blast
    then show ?thesis using J2 es(1) q by simp
  qed
qed

lemma preserves_sleep_to: "rely c J \<Longrightarrow> preserves J (sleep_to c fuel d)"
  by (induction fuel) (auto intro!: preserves_intro)

lemma preserves_sleep_until: "rely c J \<Longrightarrow> preserves J (sleep_until_or_stop c fuel d)"
  unfolding sleep_until_or_stop_def by (intro preserves_intro preserves_sleep_to)

lemma sleep_to_sees_stop: "sleep_to c fuel d s = (Some True, s') \<Longrightarrow> stop (shm s')"
  by (induction fuel arbitrary: s) (auto simp: prog_run split: prod.splits if_splits)

lemma sleep_sees_stop: "sleep_until_or_stop c fuel d s = (Some True, s') \<Longrightarrow> stop (shm s')"
  by (auto simp: sleep_until_or_stop_def prog_run split: prod.splits dest: sleep_to_sees_stop)

text \<open>It has seen the stop flag, or is still running, or has panicked.\<close>

lemma supervise_returns:
  "supervise c disp h interval fuel rounds s = (r, s') \<Longrightarrow>
   (r = Ok True \<and> stop (shm s')) \<or> r = Ok False \<or> r = Panic"
proof (induction rounds arbitrary: s)
  case (Suc rounds)
  show ?case
  proof (cases "stop (shm s)")
    case False
    obtain q s1 where round: "supervise_round disp h s = (q, s1)" by fastforce
    obtain z s2 where sleep: "sleep_until_or_stop c fuel interval s1 = (z, s2)" by fastforce
    show ?thesis
      using Suc False round sleep supervise_round_never_err [of disp h s] sleep_sees_stop [of c fuel interval s1 s2]
      by (cases q; cases z) (auto simp: prog_run split: bool.splits)
  qed (use Suc.prems in \<open>simp add: prog_run\<close>)
qed (simp add: prog_run)

text \<open>A run, and how many rounds it had when it is still going although its sleeps had fuel.\<close>

lemma supervise_accounts:
  fixes c :: "'w client" and h :: "('w, 'h) handler"
  assumes tick: "emits (tick h) P" and rely: "rely c J" and keep: "preserves J (tick h)"
  shows "supervise c disp h interval fuel rounds s = (r, s') \<Longrightarrow> J (shm s) \<Longrightarrow>
    \<exists>es n. trace s' = trace s @ es \<and> supervised_trace disp h J P (r = Panic) n es \<and> n \<le> rounds \<and>
      (r = Ok False \<and> clock_law c \<and> interval div 10 ^ 9 + 2 \<le> fuel \<longrightarrow> n = rounds)"
proof (induction rounds arbitrary: s)
  case 0
  then show ?case by (auto simp: prog_run intro!: exI [of _ "[]"] supervised_trace.idle)
next
  case (Suc rounds)
  show ?case
  proof (cases "stop (shm s)")
    case True
    with Suc.prems show ?thesis
      by (auto simp: prog_run intro!: exI [of _ "[]"] exI [of _ 0] supervised_trace.idle)
  next
    case False
    obtain q s1 where round: "supervise_round disp h s = (q, s1)" by fastforce
    obtain z s2 where sleep: "sleep_until_or_stop c fuel interval s1 = (z, s2)" by fastforce
    obtain es where J1: "J (shm s1)" and es: "trace s1 = trace s @ es"
      "if q = Panic then supervised_trace disp h J P True (Suc 0) es
       else \<forall>pan n rest. supervised_trace disp h J P pan n rest \<longrightarrow> supervised_trace disp h J P pan (Suc n) (es @ rest)"
      using round_trace [OF tick keep Suc.prems(2) round] by blast
    have J2: "J (shm s2)" using preserves_sleep_until [OF rely] J1 sleep unfolding preserves_def by (metis snd_conv)
    have tr: "trace s2 = trace s @ es" using emitsD [OF silent_sleep_until [unfolded silent_def] sleep] es(1) by simp
    have one: "q \<noteq> Panic \<Longrightarrow> supervised_trace disp h J P False (Suc 0) es"
      using es(2) supervised_trace.idle by (metis append_Nil2)
    consider (panic) "q = Panic" "r = Panic" "s' = s1"
      | (out) "q = Ok ()" "z = None" "r = Ok False" "s' = s2"
      | (halt) "q = Ok ()" "r = Ok True" "s' = s2"
      | (go) "q = Ok ()" "supervise c disp h interval fuel rounds s2 = (r, s')"
      using Suc.prems(1) False round sleep supervise_round_never_err [of disp h s]
      by (cases q; cases z) (auto simp: prog_run split: bool.splits)
    then show ?thesis
    proof cases
      case panic
      then show ?thesis using es by (auto intro!: exI [of _ es] exI [of _ "Suc 0"])
    next
      case out
      then show ?thesis
        using tr one sleep sleep_ends [of c interval fuel s1]
        by (auto intro!: exI [of _ es] exI [of _ "Suc 0"])
    next
      case halt
      then show ?thesis using tr one by (auto intro!: exI [of _ es] exI [of _ "Suc 0"])
    next
      case go
      then show ?thesis using Suc.IH [OF go(2) J2] tr es(2)
        by (metis append.assoc Suc_le_mono rresult.distinct(3))
    qed
  qed
qed

section \<open>Interfaces\<close>

text \<open>
  What the supervisor needs of a handler to speak about a whole run: a property of event
  lists that every tick has, that concatenation keeps and that the counters do not disturb.
\<close>

locale supervised =
  fixes h :: "('w, 'h) handler" and P :: "event list \<Rightarrow> bool"
  assumes tick_events: "emits (tick h) (\<lambda>_ es. P es)"
    and quiet: "P []"
    and appended: "P es \<Longrightarrow> P es' \<Longrightarrow> P (es @ es')"
    and counted: "P [EvTick name outcome]" "P [EvFailure name reason]"
begin

lemma trace_property: "supervised_trace disp h J (\<lambda>_ es. P es) pan n es \<Longrightarrow> P es"
proof (induction rule: supervised_trace.induct)
  case (paused sh pan n es)
  then show ?case using appended [OF counted(1), of es] by simp
next
  case (ticked sh t pan n es)
  then show ?case using appended [OF counted(1), of es] appended by fastforce
next
  case (failed sh e t pan n es)
  then have "P ([EvFailure (handler_name h) (classify_handler_error (disp e))] @ [EvTick (handler_name h) ''err''] @ es)"
    by (intro appended counted)
  then show ?case using appended [OF failed(3)] by simp
qed (simp_all add: quiet)

lemma run_events: "emits (supervise c disp h interval fuel rounds) (\<lambda>_ es. P es)"
  unfolding emits_def
proof
  fix s
  have "rely c (\<lambda>_. True)" "preserves (\<lambda>_. True) (tick h)" by (simp_all add: rely_def preserves_def)
  from supervise_accounts [OF tick_events this prod.collapse [symmetric], of disp interval fuel rounds s]
  show "\<exists>es. trace (snd (supervise c disp h interval fuel rounds s)) = trace s @ es \<and> P es"
    using trace_property by blast
qed

end

text \<open>Payers of the submitted transactions.\<close>

definition paid_by :: "pubkey set \<Rightarrow> event list \<Rightarrow> bool" where
  "paid_by S es \<longleftrightarrow> (\<forall>tx. EvSend tx \<in> set es \<longrightarrow> tx_payer tx \<in> S)"

lemma self_gated_counters [simp]: "self_gated pre [EvTick name outcome]" "self_gated pre [EvFailure name reason]"
  by (simp_all add: self_gated_def)

lemma paid_by_counters [simp]:
  "paid_by S []" "paid_by S [EvTick name outcome]" "paid_by S [EvFailure name reason]"
  by (simp_all add: paid_by_def)

lemma paid_by_append: "paid_by S es \<Longrightarrow> paid_by S es' \<Longrightarrow> paid_by S (es @ es')"
  by (auto simp: paid_by_def)

interpretation promoter_run: supervised "promoter_handler c k y ctx" "self_gated []" for c k y ctx
  by unfold_locales (simp_all add: promoter_handler_def promoter_events self_gated_append)

interpretation claimer_run: supervised "claimer_handler c k y ctx" "self_gated []" for c k y ctx
  by unfold_locales (simp_all add: claimer_handler_def claimer_events self_gated_append)

interpretation liquidator_run: supervised "liquidator_handler c k y ctx"
    "self_gated (priority_fee_preamble k (hc_rpc ctx) V0_COMPUTE_UNIT_LIMIT)" for c k y ctx
  by unfold_locales (simp_all add: liquidator_handler_def liquidator_events self_gated_append)

interpretation match_cranker_run: supervised "match_cranker_handler c k y ctx"
    "self_gated (priority_fee_preamble k (hc_rpc ctx) V0_COMPUTE_UNIT_LIMIT)" for c k y ctx
  by unfold_locales (simp_all add: match_cranker_handler_def match_cranker_events self_gated_append)

lemma curator_events:
  "emits (curator_tick c k y ctx) (\<lambda>_ es. paid_by (kp_pubkey k ` snd ` set (curators (hc_signers ctx))) es)"
proof -
  let ?S = "kp_pubkey k ` snd ` set (curators (hc_signers ctx))"
  have "paid_by ?S es" if "\<exists>reg. \<forall>tx. EvSend tx \<in> set es \<longrightarrow> rightful_claim k y ctx reg subs tx" for es subs
    unfolding paid_by_def
  proof (intro allI impI)
    fix tx assume "EvSend tx \<in> set es"
    with that obtain sv :: sub_vault_view and signer where "map_of (curators (hc_signers ctx)) (sv_curator sv) = Some signer"
      "tx_payer tx = kp_pubkey k signer" unfolding rightful_claim_def by blast
    then show "tx_payer tx \<in> ?S" by (force dest: map_of_SomeD)
  qed
  then have scan: "emits (curator_scan c k y ctx subs) (\<lambda>_ es. paid_by ?S es)" for subs
    by (intro emits_mono [OF emits_curator_scan]) blast
  show ?thesis
    unfolding curator_tick_def
    by (intro emits_if emits_bind_silent [OF silent_list_sub_vaults] emits_pbind [OF scan])
      (auto intro!: emits_pdone)
qed

interpretation curator_run: supervised "curator_handler c k y ctx"
    "paid_by (kp_pubkey k ` snd ` set (curators (hc_signers ctx)))" for c k y ctx
  by unfold_locales (simp_all add: curator_handler_def curator_events paid_by_append)

section \<open>Runs\<close>

text \<open>
  Whole runs are gated: over any number of supervised rounds, whatever the node and the
  other tasks do, every transaction of the promoter and the claimer was approved, bundle
  for bundle, by the last simulation before it; so was every transaction of the liquidator
  and the match cranker, behind the compute-budget preamble; and the curator handler's
  transactions are all paid by configured curator keys.
\<close>

lemma supervised_runs_gated:
  "emits (supervise c disp (promoter_handler c k y ctx) interval fuel rounds) (\<lambda>_ es. self_gated [] es) \<and>
   emits (supervise c disp (claimer_handler c k y ctx) interval fuel rounds) (\<lambda>_ es. self_gated [] es) \<and>
   emits (supervise c disp (liquidator_handler c k y ctx) interval fuel rounds)
     (\<lambda>_ es. self_gated (priority_fee_preamble k (hc_rpc ctx) V0_COMPUTE_UNIT_LIMIT) es) \<and>
   emits (supervise c disp (match_cranker_handler c k y ctx) interval fuel rounds)
     (\<lambda>_ es. self_gated (priority_fee_preamble k (hc_rpc ctx) V0_COMPUTE_UNIT_LIMIT) es) \<and>
   emits (supervise c disp (curator_handler c k y ctx) interval fuel rounds)
     (\<lambda>_ es. paid_by (kp_pubkey k ` snd ` set (curators (hc_signers ctx))) es)"
  by (intro conjI promoter_run.run_events claimer_run.run_events liquidator_run.run_events
      match_cranker_run.run_events curator_run.run_events)


text \<open>
  Shutdown is prompt: a supervised loop that finds the stop flag set returns without
  another tick, and a sleep that finds it set returns without sleeping.
\<close>

lemma stop_ends_supervision:
  assumes "stop (shm s)"
  shows "supervise c disp h interval fuel (Suc rounds) s = (Ok True, s) \<and>
    fst (sleep_until_or_stop c (Suc fuel) duration s) = Some True"
  using assms by (simp add: sleep_until_or_stop_def prog_run split: prod.split)

text \<open>
  The balance watcher sets the flag to what the node reported: after a round with an
  answer, the fee payer counts as low exactly when its balance is below the threshold; when
  the query fails the flag is left as the other tasks left it.
\<close>

lemma balance_flag_tracks:
  assumes "c_get_balance c (kp_pubkey k (fee_payer sg)) (world s) = (answer, w)"
    and "sol_balance_round c k sg threshold s = (r, s')"
  shows "r = Ok () \<and> fee_payer_low (shm s') =
    (case answer of Inr lamports \<Rightarrow> unat lamports < unat threshold
     | Inl e \<Rightarrow> fee_payer_low (c_interfere c w (shm s)))"
  using assms by (auto simp: sol_balance_round_def prog_run word_less_nat_alt split: sum.splits if_splits)

text \<open>
  C12. Every handler leaves its in-flight set as it found it, after any tick that does not
  panic: no candidate is locked out of later ticks.
\<close>

theorem inflight_restored:
  "restores (promoter_tick c k y ctx) \<and> restores (claimer_tick c k y ctx) \<and>
   restores (liquidator_tick c k y ctx) \<and> restores (curator_tick c k y ctx) \<and>
   restores (match_cranker_tick c k y ctx)"
  by (intro conjI promoter_tick_restores claimer_tick_restores liquidator_tick_restores
      curator_tick_restores match_cranker_tick_restores)

text \<open>The reasons are a fixed set of labels.\<close>

lemma classify_labels:
  "classify_handler_error m \<in> {''rpc_error'', ''insufficient_funds'', ''sim_failed'', ''tx_rejected'', ''decode_error'', ''internal''}"
  by (simp add: classify_handler_error_def Let_def FAIL_REASON_RPC_def FAIL_REASON_INSUFFICIENT_FUNDS_def
      FAIL_REASON_SIM_FAILED_def FAIL_REASON_TX_REJECTED_def FAIL_REASON_DECODE_def FAIL_REASON_INTERNAL_def)

end
