(* ===== verification/Crank_Runs.thy ===== *)
theory Crank_Runs
  imports Crank_Steps Supervisor
begin

text \<open>
  The contract of the tasks: which steps the handlers and the background loops take between
  their suspensions. It is interpreted twice, on the shared data, which every segment of
  every task keeps, and on shutdown, after which a handler submits at most once more.
\<close>

definition no_sends :: "step list \<Rightarrow> bool" where
  "no_sends sts \<longleftrightarrow> list_all (\<lambda>ev. \<not> is_send ev) (events sts)"

lemma no_sends_simps [simp]:
  "no_sends []" "no_sends [Switched a b]" "no_sends (sts @ sts') \<longleftrightarrow> no_sends sts \<and> no_sends sts'"
  by (simp_all add: no_sends_def)

lemma no_sends_Did [simp]: "no_sends [Did ev] \<longleftrightarrow> \<not> is_send ev"
  by (simp add: no_sends_def)

text \<open>
  \<open>continues Q C m\<close>: \<open>m\<close> may be run after steps without a submission that obey \<open>Q\<close> and
  started where \<open>C\<close> held, and the whole then obeys \<open>Q\<close>. This is how the code between the
  check of the stop flag and the submission is seen.
\<close>

definition continues ::
    "(shared \<Rightarrow> step list \<Rightarrow> shared \<Rightarrow> bool) \<Rightarrow> (shared \<Rightarrow> bool) \<Rightarrow> ('w, 'h, 'r) prog \<Rightarrow> bool" where
  "continues Q C m \<longleftrightarrow>
     (\<forall>s a sts. C a \<longrightarrow> no_sends sts \<longrightarrow> Q a sts (shm s) \<longrightarrow>
        (\<exists>sts'. steps (snd (m s)) = steps s @ sts' \<and> Q a (sts @ sts') (shm (snd (m s)))))"

section \<open>The contract\<close>

text \<open>
  What the tasks write: a fresh sorted listing into the market cache, the balance flag, the
  token balances, and the merge of a well-formed registry. What they submit: a transaction
  after steps that began where the client did not find the stop flag set.
\<close>

definition unstopped :: "handler_context \<Rightarrow> shared \<Rightarrow> bool" where
  "unstopped ctx sh \<longleftrightarrow> \<not> (stop_wired (hc_rpc ctx) \<and> stop sh)"

locale task_contract = step_law Q
    for Q :: "shared \<Rightarrow> step list \<Rightarrow> shared \<Rightarrow> bool" +
  fixes ctx :: handler_context
  assumes caching: "ms \<noteq> [] \<Longrightarrow> sorted (map mv_address ms) \<Longrightarrow>
      Q sh [] (sh\<lparr>markets_cache := Healthy (Some \<lparr>fetched_at = t, cached_markets = ms\<rparr>)\<rparr>)"
    and flagging: "Q sh [] (sh\<lparr>fee_payer_low := low\<rparr>)"
    and balances: "Q sh [] (sh\<lparr>ata_balances := v\<rparr>)"
    and merging: "banks sh = Healthy reg \<Longrightarrow> wf_registry fresh \<Longrightarrow>
      Q sh [] (sh\<lparr>banks := Healthy (merge_from reg fresh)\<rparr>)"
    and spending: "unstopped ctx a \<Longrightarrow> no_sends sts \<Longrightarrow> Q a sts b \<Longrightarrow> Q a (sts @ [Did (EvSend tx)]) b"

sublocale task_contract \<subseteq> quiet: step_law "\<lambda>a sts b. Q a sts b \<and> no_sends sts"
  by unfold_locales (auto simp: idle switched harmless intro: followed)

context task_contract
begin

text \<open>Submission.\<close>

lemma continues_obeys: "obeys Q m \<Longrightarrow> continues Q C m"
  unfolding continues_def obeys_def by (metis followed)

lemma continues_pseq:
  assumes "obeys (\<lambda>a sts b. Q a sts b \<and> no_sends sts) m" "\<And>q. continues Q C (f q)"
  shows "continues Q C (pseq m f)"
  unfolding continues_def
proof (intro allI impI)
  fix s :: "('a, 'b) sys" and a sts
  assume A: "C a" "no_sends sts" "Q a sts (shm s)"
  obtain q s1 where m: "m s = (q, s1)" by fastforce
  obtain l where l: "steps s1 = steps s @ l" "Q (shm s) l (shm s1)" "no_sends l"
    using assms(1) m unfolding obeys_def by (metis snd_conv)
  have "no_sends (sts @ l)" "Q a (sts @ l) (shm s1)" using A l followed by simp_all
  then obtain l' where "steps (snd (f q s1)) = steps s1 @ l'" "Q a ((sts @ l) @ l') (shm (snd (f q s1)))"
    using assms(2) [of q] A(1) unfolding continues_def by blast
  with m l show "\<exists>sts'. steps (snd (pseq m f s)) = steps s @ sts' \<and> Q a (sts @ sts') (shm (snd (pseq m f s)))"
    by (auto simp: pseq_run)
qed

lemma continues_pbind:
  "obeys (\<lambda>a sts b. Q a sts b \<and> no_sends sts) m \<Longrightarrow> (\<And>q. continues Q C (f q)) \<Longrightarrow> continues Q C (pbind m f)"
  unfolding pbind_def
  by (rule continues_pseq) (auto intro: continues_obeys obeys_pdone split: rresult.split)

lemma continues_send:
  assumes "\<And>q. obeys Q (f q)"
  shows "continues Q (unstopped ctx) (pseq (emit (EvSend tx)) f)"
  unfolding continues_def
proof (intro allI impI)
  fix s :: "('a, 'b) sys" and a sts
  assume A: "unstopped ctx a" "no_sends sts" "Q a sts (shm s)"
  let ?s = "snd (emit (EvSend tx) s)"
  obtain l where "steps (snd (f () ?s)) = steps ?s @ l" "Q (shm ?s) l (shm (snd (f () ?s)))"
    using assms unfolding obeys_def by blast
  then show "\<exists>sts'. steps (snd (pseq (emit (EvSend tx)) f s)) = steps s @ sts' \<and>
      Q a (sts @ sts') (shm (snd (pseq (emit (EvSend tx)) f s)))"
    using followed [OF spending [OF A], of l] by (auto simp: pseq_run emit_def)
qed

lemma obeys_unless_stopped:
  assumes "obeys Q halted" "continues Q (unstopped ctx) m"
  shows "obeys Q (pseq (stopped (hc_rpc ctx)) (\<lambda>halt. if halt then halted else m))"
  unfolding obeys_def
proof
  fix s
  show "\<exists>sts. steps (snd (pseq (stopped (hc_rpc ctx)) (\<lambda>halt. if halt then halted else m) s)) = steps s @ sts \<and>
      Q (shm s) sts (shm (snd (pseq (stopped (hc_rpc ctx)) (\<lambda>halt. if halt then halted else m) s)))"
  proof (cases "stop_wired (hc_rpc ctx) \<and> stop (shm s)")
    case True
    with assms(1) show ?thesis
      by (simp add: pseq_run stopped_def gets_def obeys_def)
  next
    case False
    then have "unstopped ctx (shm s)" by (simp add: unstopped_def)
    then have "\<exists>sts'. steps (snd (m s)) = steps s @ sts' \<and> Q (shm s) ([] @ sts') (shm (snd (m s)))"
      using assms(2) idle no_sends_simps(1) unfolding continues_def by blast
    with False show ?thesis by (simp only: pseq_run stopped_def gets_def prod.case if_False append_Nil)
  qed
qed

lemma continues_case_option:
  "continues Q C m \<Longrightarrow> (\<And>x. continues Q C (f x)) \<Longrightarrow> continues Q C (case x of None \<Rightarrow> m | Some x \<Rightarrow> f x)"
  by (cases x) auto

lemma obeys_retry_loop [obeys_intro]: "obeys Q (retry_loop c (hc_rpc ctx) mk attempts l)"
proof (induction attempts arbitrary: l)
  case (Cons a attempts)
  show ?case
    unfolding retry_loop.simps
    by (intro obeys_unless_stopped continues_pseq continues_case_option continues_pbind continues_send
        continues_obeys [OF obeys_pdone] quiet.obeys_check_previous quiet.obeys_pctx quiet.obeys_call
        quiet.obeys_pdone obeys_intro Cons.IH)
qed (simp add: obeys_pdone)

lemma obeys_send_signed [obeys_intro]: "obeys Q (send_signed_labeled c k (hc_rpc ctx) label ixs kps)"
  by (cases kps)
    (simp_all add: send_with_retry_def obeys_pdone obeys_count_ix obeys_retry_loop del: retry_loop.simps)

lemma obeys_send_signed_v0 [obeys_intro]: "obeys Q (send_signed_v0_labeled c k (hc_rpc ctx) label ixs luts kps)"
  by (cases kps)
    (simp_all add: send_v0_with_retry_def obeys_pdone obeys_count_ix obeys_retry_loop del: retry_loop.simps)

lemma obeys_cache_put:
  "ms \<noteq> [] \<Longrightarrow> sorted (map mv_address ms) \<Longrightarrow> obeys Q (markets_cache_put c ms)"
  unfolding markets_cache_put_def by (intro obeys_intro obeys_puts caching)

lemma obeys_list_markets [obeys_intro]: "obeys Q (list_markets c y pid :: ('w, 'h, _) prog)"
proof -
  have "obeys Q (pbind (fetch_markets c y pid :: ('w, 'h, _) prog) (\<lambda>fresh.
      if fresh = [] then
        pseq markets_cache_stale (\<lambda>old. case old of Some stale \<Rightarrow> pdone (Ok stale) | None \<Rightarrow> pdone (Ok fresh))
      else pseq (markets_cache_put c fresh) (\<lambda>_. pdone (Ok fresh))))"
  proof (rule obeys_pbind_res [OF obeys_fetch_markets])
    fix fresh :: "market_view list" and s s' :: "('w, 'h) sys"
    assume "fetch_markets c y pid s = (Ok fresh, s')"
    then show "obeys Q (if fresh = [] then
        pseq markets_cache_stale (\<lambda>old. case old of Some stale \<Rightarrow> pdone (Ok stale) | None \<Rightarrow> pdone (Ok fresh))
        else pseq (markets_cache_put c fresh) (\<lambda>_. pdone (Ok fresh)))"
      unfolding markets_cache_stale_def
      by (cases "fresh = []"; simp only: if_True if_False simp_thms; intro obeys_intro obeys_cache_put)
        (auto dest: fetch_markets_sorted)
  qed
  moreover have "obeys Q (markets_cache_get c)"
    unfolding markets_cache_get_def by (intro obeys_intro)
  ultimately show ?thesis
    unfolding list_markets_def by (intro obeys_pseq obeys_case_option obeys_pdone)
qed

lemma obeys_refresh_markets [obeys_intro]: "obeys Q (refresh_markets c y pid)"
  unfolding refresh_markets_def
  by (rule obeys_pbind_res [OF obeys_fetch_markets])
    (auto intro!: obeys_intro obeys_cache_put dest: fetch_markets_sorted)

lemma obeys_sim_then_send [obeys_intro]: "obeys Q (sim_then_send c k ctx label ix)"
  unfolding sim_then_send_def Let_def by (intro obeys_intro obeys_send_signed obeys_send_signed_v0)

section \<open>The handlers\<close>

lemma obeys_promote_one [obeys_intro]: "obeys Q (promote_one c k y ctx m e)"
  unfolding promote_one_def assemble_vault_settle_def require_account_def
  by (intro obeys_intro)

lemma obeys_promoter_tick [obeys_intro]: "obeys Q (promoter_tick c k y ctx)"
  unfolding promoter_tick_def promote_market_def read_pending_matched_loans_def require_account_def Let_def
  by (intro obeys_intro obeys_promote_one)

lemma obeys_sweep_one [obeys_intro]: "obeys Q (sweep_one c k y ctx e)"
  unfolding sweep_one_def by (intro obeys_intro)

lemma obeys_claimer_tick [obeys_intro]: "obeys Q (claimer_tick c k y ctx)"
  unfolding claimer_tick_def list_sub_vaults_def list_pending_vault_claims_def Let_def
  by (intro obeys_intro obeys_sweep_one)

lemma obeys_curator_step [obeys_intro]: "obeys Q (curator_step c k y ctx reg sv a)"
  unfolding curator_step_def claim_one_def by (intro obeys_intro)

lemma obeys_curator_tick [obeys_intro]: "obeys Q (curator_tick c k y ctx)"
  unfolding curator_tick_def curator_scan_def list_sub_vaults_def
  by (intro obeys_intro obeys_curator_step)

lemma obeys_close_loan [obeys_intro]: "obeys Q (close_loan c k y ctx label mk m l db cb ixs luts)"
  unfolding close_loan_def pick_repay_amount_def Let_def by (intro obeys_intro)

lemma obeys_settle_or_liquidate [obeys_intro]: "obeys Q (try_settle_or_liquidate c k y ctx m x)"
  unfolding try_settle_or_liquidate_def try_liquidate_ltv_def try_settle_matured_def fetch_swb_bundle_def
    prepend_or_nothing_def Let_def
  by (intro obeys_intro obeys_close_loan)

lemma obeys_scan_loan [obeys_intro]: "obeys Q (scan_loan c k y ctx m t l n)"
  unfolding scan_loan_def Let_def by (intro obeys_intro obeys_settle_or_liquidate)

lemma obeys_liquidator_tick [obeys_intro]: "obeys Q (liquidator_tick c k y ctx)"
  unfolding liquidator_tick_def liquidator_scan_market_def list_loans_for_market_def now_unix_def
  by (intro obeys_intro obeys_scan_loan)

lemma obeys_mc_scan [obeys_intro]: "obeys Q (mc_scan_market c k y ctx m)"
  unfolding mc_scan_market_def crank_one_def market_is_rate_crossed_def require_account_def
    mc_fetch_swb_bundle_def prepend_or_nothing_def Let_def
  by (intro obeys_intro)

lemma obeys_match_cranker_tick [obeys_intro]: "obeys Q (match_cranker_tick c k y ctx)"
  unfolding match_cranker_tick_def by (intro obeys_intro obeys_mc_scan)

section \<open>Supervision and background loops\<close>

lemma obeys_sleep [obeys_intro]: "obeys Q (sleep_until_or_stop c fuel d)"
proof -
  have "obeys Q (sleep_to c fuel d)" for d
    by (induction fuel) (auto intro!: obeys_intro)
  then show ?thesis unfolding sleep_until_or_stop_def by (intro obeys_intro)
qed

lemma obeys_metrics_loop:
  assumes "obeys Q body"
  shows "obeys Q (metrics_loop c body interval fuel rounds)"
proof (induction rounds)
  case (Suc rounds)
  then show ?case
    unfolding metrics_loop.simps by (intro obeys_intro assms)
qed (simp add: obeys_pdone)

lemma obeys_sol_loop: "obeys Q (spawn_sol_balance_loop c k sg threshold fuel rounds)"
  unfolding spawn_sol_balance_loop_def sol_balance_round_def Let_def
  by (intro obeys_metrics_loop obeys_intro obeys_puts flagging)

lemma obeys_ata_loop: "obeys Q (spawn_ata_balance_loop c k sg order interval fuel rounds)"
  unfolding spawn_ata_balance_loop_def ata_balance_round_def batch_get_multiple_accounts_def
  by (intro obeys_metrics_loop obeys_intro obeys_puts balances)

lemma obeys_discover [obeys_intro]: "obeys Q (discover_from_markets c k y pid mp)"
  unfolding discover_from_markets_def resolve_from_chain_def Let_def
  by (intro obeys_intro)

lemma obeys_merge [obeys_intro]:
  assumes "wf_registry fresh"
  shows "obeys Q (write_banks (\<lambda>reg. merge_from reg fresh))"
  unfolding obeys_def
  using merging idle assms by (auto simp: write_banks_def prog_run split: lock.split)

lemma obeys_refresh_loop: "obeys Q (spawn_bank_refresh_loop c k y cfg interval fuel rounds)"
  unfolding spawn_bank_refresh_loop_def refresh_banks_def
  by (intro obeys_metrics_loop obeys_ptry obeys_pdone obeys_pbind_res [OF obeys_discover])
    (auto intro!: obeys_intro obeys_merge dest: discover_from_markets_wf)

text \<open>
  The warm-keeper of \<open>swb_cranker.rs\<close> submits through the plain client, which knows no stop
  flag: it keeps the contract where every submission is allowed.
\<close>

lemma obeys_crank:
  assumes "\<And>sh tx. Q sh [Did (EvSend tx)] sh"
  shows "obeys Q (crank c k sc oracles)"
proof -
  have "obeys Q (emit (EvSend tx))" for tx using assms by (simp add: obeys_def emit_def)
  then show ?thesis
    unfolding crank_def try_crank_def fetch_update_via_def Let_def by (intro obeys_intro obeys_failover)
qed

lemma obeys_swb_loop:
  assumes "\<And>sh tx. Q sh [Did (EvSend tx)] sh"
  shows "obeys Q (swb_crank_loop c k sc interval rounds)"
proof (induction rounds)
  case (Suc rounds)
  then show ?case
    unfolding swb_crank_loop.simps swb_crank_round_def Let_def
    by (intro obeys_intro obeys_crank obeys_swb_sleep assms)
qed (simp add: obeys_pdone)

end

text \<open>The supervisor also counts its rounds.\<close>

locale supervision_contract = task_contract +
  assumes counted: "Q sh [Did (EvTick name outcome)] sh"
begin

lemma obeys_supervise_round: "obeys Q (tick h) \<Longrightarrow> obeys Q (supervise_round disp h)"
proof -
  have "obeys Q (emit (EvTick name outcome))" for name outcome by (simp add: obeys_def emit_def counted)
  moreover have "obeys Q (emit (EvFailure name reason))" for name reason by (simp add: obeys_quiet_emit)
  moreover assume "obeys Q (tick h)"
  ultimately show ?thesis unfolding supervise_round_def by (intro obeys_intro)
qed

lemma obeys_supervise:
  assumes "obeys Q (tick h)"
  shows "obeys Q (supervise c disp h interval fuel rounds)"
proof (induction rounds)
  case (Suc rounds)
  then show ?case
    unfolding supervise.simps
    by (intro obeys_intro obeys_supervise_round assms) (auto intro!: obeys_intro split: option.split bool.split)
qed (simp add: obeys_pdone)

end

section \<open>What every segment keeps\<close>

text \<open>
  \<open>kept I a sts b\<close>: in the steps from \<open>a\<close> to \<open>b\<close>, every segment that starts with \<open>I\<close>
  ends with \<open>I\<close>; where a resumed task finds \<open>I\<close> broken, nothing is asked of it.
\<close>

primrec kept :: "(shared \<Rightarrow> bool) \<Rightarrow> shared \<Rightarrow> step list \<Rightarrow> shared \<Rightarrow> bool" where
  "kept I a [] b = (I a \<longrightarrow> I b)"
| "kept I a (st # sts) b = (case st of
      Did ev \<Rightarrow> kept I a sts b
    | Switched d d' \<Rightarrow> (I a \<longrightarrow> I d) \<and> kept I d' sts b)"

lemma kept_from: "(I a \<longrightarrow> I a') \<Longrightarrow> kept I a' sts b \<Longrightarrow> kept I a sts b"
  by (induction sts) (auto split: step.splits)

lemma kept_append: "kept I a sts b \<Longrightarrow> kept I b sts' d \<Longrightarrow> kept I a (sts @ sts') d"
  by (induction sts arbitrary: a) (auto split: step.splits intro: kept_from)

lemma kept_Did: "kept I a sts b \<Longrightarrow> kept I a (sts @ [Did ev]) b"
  by (induction sts arbitrary: a) (auto split: step.splits)

text \<open>The registry and the market snapshot the handlers work from.\<close>

definition healthy_data :: "(pubkey \<rightharpoonup> bank_info) \<Rightarrow> shared \<Rightarrow> bool" where
  "healthy_data base sh \<longleftrightarrow> knows base sh \<and> has_snapshot sh"

interpretation data: supervision_contract "kept (healthy_data base)" ctx for base ctx
  by unfold_locales
    (auto simp: healthy_data_def has_snapshot_def knows_def merge_wf map_of_merge_from map_le_def map_add_def
      dom_def split: option.split intro: kept_append kept_Did)

interpretation registry: supervision_contract "kept (knows base)" ctx for base ctx
  by unfold_locales
    (auto simp: knows_def merge_wf map_of_merge_from map_le_def map_add_def dom_def split: option.split
      intro: kept_append kept_Did)

interpretation stop_frame: supervision_contract "kept (\<lambda>sh. stop sh = v)" ctx for v ctx
  by unfold_locales (auto intro: kept_append kept_Did)

section \<open>Submissions after shutdown\<close>

text \<open>
  The number of events of a kind that happen while the stop flag is set, up to the first
  suspension at which another task cleared it, if there is one.
\<close>

primrec late :: "(event \<Rightarrow> bool) \<Rightarrow> bool \<Rightarrow> step list \<Rightarrow> nat" where
  "late p h [] = 0"
| "late p h (st # sts) = (case st of
      Did ev \<Rightarrow> (if h \<and> p ev then 1 else 0) + late p h sts
    | Switched a b \<Rightarrow> if stop a \<and> \<not> stop b then 0 else late p (stop b) sts)"

definition cleared :: "step list \<Rightarrow> bool" where
  "cleared sts \<longleftrightarrow> (\<exists>a b. Switched a b \<in> set sts \<and> stop a \<and> \<not> stop b)"

lemma cleared_simps [simp]:
  "\<not> cleared []" "cleared (Did ev # sts) = cleared sts"
  "cleared (Switched a b # sts) \<longleftrightarrow> stop a \<and> \<not> stop b \<or> cleared sts"
  by (auto simp: cleared_def)

text \<open>The task itself leaves the flag alone.\<close>

definition frames_stop :: "shared \<Rightarrow> step list \<Rightarrow> shared \<Rightarrow> bool" where
  "frames_stop a sts b \<longleftrightarrow> kept (\<lambda>sh. stop sh = True) a sts b \<and> kept (\<lambda>sh. stop sh = False) a sts b"

lemma frames_stop_simps [simp]:
  "frames_stop a [] b \<longleftrightarrow> stop a = stop b"
  "frames_stop a (Did ev # sts) b \<longleftrightarrow> frames_stop a sts b"
  "frames_stop a (Switched d d' # sts) b \<longleftrightarrow> stop a = stop d \<and> frames_stop d' sts b"
  by (auto simp: frames_stop_def)

lemma frames_stop_cong: "stop a = stop a' \<Longrightarrow> frames_stop a sts b = frames_stop a' sts b"
  by (cases sts) (auto simp: frames_stop_def split: step.split intro: kept_from)

lemma late_append:
  "frames_stop a sts b \<Longrightarrow>
   late p (stop a) (sts @ sts') = late p (stop a) sts + (if cleared sts then 0 else late p (stop b) sts')"
proof (induction sts arbitrary: a)
  case (Cons st sts)
  then show ?case by (cases st) auto
qed simp

lemma stop_stays: "frames_stop a sts b \<Longrightarrow> \<not> cleared sts \<Longrightarrow> stop a \<Longrightarrow> stop b"
proof (induction sts arbitrary: a)
  case (Cons st sts)
  then show ?case by (cases st) auto
qed simp

lemma late_unstopped: "frames_stop a sts b \<Longrightarrow> \<not> cleared sts \<Longrightarrow> \<not> stop b \<Longrightarrow> late p (stop a) sts = 0"
proof (induction sts arbitrary: a)
  case (Cons st sts)
  then show ?case by (cases st) (auto dest: stop_stays)
qed simp

lemma late_none: "list_all (\<lambda>ev. \<not> p ev) (events sts) \<Longrightarrow> late p h sts = 0"
  by (induction sts arbitrary: h) (auto split: step.splits)

lemma late_no_sends: "no_sends sts \<Longrightarrow> late is_send h sts = 0"
  by (rule late_none) (simp add: no_sends_def)

text \<open>None when the flag was set from the start, at most one otherwise.\<close>

definition tapers :: "(event \<Rightarrow> bool) \<Rightarrow> shared \<Rightarrow> step list \<Rightarrow> shared \<Rightarrow> bool" where
  "tapers p a sts b \<longleftrightarrow> frames_stop a sts b \<and> late p (stop a) sts \<le> (if stop a then 0 else 1)"

lemma frames_stop_append: "frames_stop a sts b \<Longrightarrow> frames_stop b sts' d \<Longrightarrow> frames_stop a (sts @ sts') d"
  unfolding frames_stop_def using kept_append by blast

lemma tapers_append:
  assumes "tapers p a sts b" "tapers p b sts' d"
  shows "tapers p a (sts @ sts') d"
proof -
  have f: "frames_stop a sts b" "frames_stop b sts' d" using assms by (simp_all add: tapers_def)
  then show ?thesis
    using assms stop_stays [OF f(1)] late_unstopped [OF f(1)] frames_stop_append [OF f]
    by (auto simp: tapers_def late_append [OF f(1)] split: if_splits)
qed

definition winds_down :: "handler_context \<Rightarrow> shared \<Rightarrow> step list \<Rightarrow> shared \<Rightarrow> bool" where
  "winds_down ctx a sts b \<longleftrightarrow>
     (if stop_wired (hc_rpc ctx) then tapers is_send a sts b else frames_stop a sts b)"

lemma winds_down_send:
  assumes "unstopped ctx a" "no_sends sts" "winds_down ctx a sts b"
  shows "winds_down ctx a (sts @ [Did (EvSend tx)]) b"
proof -
  have f: "frames_stop a sts b" using assms(3) by (simp add: winds_down_def tapers_def split: if_splits)
  then have "frames_stop a (sts @ [Did (EvSend tx)]) b" by (simp add: frames_stop_def kept_Did)
  then show ?thesis
    using assms(1) late_append [OF f, of is_send "[Did (EvSend tx)]"] late_no_sends [OF assms(2)]
    by (auto simp: unstopped_def winds_down_def tapers_def)
qed

interpretation shutdown: supervision_contract "winds_down ctx" ctx for ctx
proof (unfold_locales, goal_cases)
  case (2 a sts b sts' d)
  then show ?case by (auto simp: winds_down_def intro: tapers_append frames_stop_append split: if_splits)
next
  case 9
  then show ?case by (rule winds_down_send)
qed (auto simp: winds_down_def tapers_def)

section \<open>Rounds after shutdown\<close>

text \<open>
  No tick counts rounds, so what a supervised loop counts with the stop flag set is the
  round it was in.
\<close>

definition uncounted :: "shared \<Rightarrow> step list \<Rightarrow> shared \<Rightarrow> bool" where
  "uncounted a sts b \<longleftrightarrow> frames_stop a sts b \<and> list_all (\<lambda>ev. \<not> is_tick ev) (events sts)"

interpretation calm: task_contract uncounted ctx for ctx
  by unfold_locales (auto simp: uncounted_def frames_stop_def intro: frames_stop_append kept_append kept_Did)

interpretation tapering: step_law "tapers is_tick"
  by unfold_locales (erule (1) tapers_append | simp add: tapers_def)+

lemma uncounted_tapers: "obeys uncounted m \<Longrightarrow> obeys (tapers is_tick) m"
  by (erule obeys_mono) (simp add: uncounted_def tapers_def late_none)

definition counted_once :: "shared \<Rightarrow> step list \<Rightarrow> shared \<Rightarrow> bool" where
  "counted_once a sts b \<longleftrightarrow> frames_stop a sts b \<and> late is_tick (stop a) sts \<le> 1"

lemma round_counted_once:
  assumes "obeys uncounted (tick h)"
  shows "obeys counted_once (supervise_round disp h)"
proof -
  have quiet: "obeys uncounted (pseq (gets fee_payer_low) (\<lambda>low.
        if requires_fee_payer h \<and> low then pdone (Ok ''paused_low_balance'')
        else ptry (tick h) (\<lambda>_. pdone (Ok ''ok''))
               (\<lambda>e. pseq (emit (EvFailure (handler_name h) (classify_handler_error (disp e))))
                      (\<lambda>_. pdone (Ok ''err'')))))"
    by (intro calm.obeys_pseq calm.obeys_gets obeys_if calm.obeys_pdone calm.obeys_ptry assms
        calm.obeys_quiet_emit) simp_all
  show ?thesis
    unfolding supervise_round_def pbind_def
  proof (rule obeys_then [OF quiet, where ?Q2.0 = counted_once])
    show "counted_once a (x @ y) d" if "uncounted a x b" "counted_once b y d" for a x b y d
      using that frames_stop_append late_append [of a x b is_tick y] late_none [of is_tick x]
      by (auto simp: uncounted_def counted_once_def)
  qed (simp add: obeys_def counted_once_def prog_run split: rresult.split)
qed

lemma tapers_unless_stopped:
  assumes "obeys (\<lambda>a sts b. frames_stop a sts b \<and> (\<not> stop a \<longrightarrow> late p (stop a) sts \<le> 1)) m"
  shows "obeys (tapers p) (pseq (gets stop) (\<lambda>halt. if halt then pdone r else m))"
  unfolding obeys_def
proof
  fix s
  obtain sts where "steps (snd (m s)) = steps s @ sts" "frames_stop (shm s) sts (shm (snd (m s)))"
    "\<not> stop (shm s) \<longrightarrow> late p (stop (shm s)) sts \<le> 1"
    using assms unfolding obeys_def by blast
  then show "\<exists>sts. steps (snd (pseq (gets stop) (\<lambda>halt. if halt then pdone r else m) s)) = steps s @ sts \<and>
      tapers p (shm s) sts (shm (snd (pseq (gets stop) (\<lambda>halt. if halt then pdone r else m) s)))"
    by (cases "stop (shm s)") (simp_all add: pseq_run gets_def pdone_def tapers_def)
qed

lemma supervise_tapers:
  fixes c :: "'w client" and h :: "('w, 'h) handler"
  assumes "obeys uncounted (tick h)"
  shows "obeys (tapers is_tick) (supervise c disp h interval fuel rounds)"
proof (induction rounds)
  case (Suc rounds)
  let ?body = "pbind (supervise_round disp h) (\<lambda>_.
          pseq (sleep_until_or_stop c fuel interval) (\<lambda>r. case r of
              None \<Rightarrow> pdone (Ok False)
            | Some True \<Rightarrow> pdone (Ok True)
            | Some False \<Rightarrow> supervise c disp h interval fuel rounds))"
  have "obeys (\<lambda>a sts b. frames_stop a sts b \<and> (\<not> stop a \<longrightarrow> late is_tick (stop a) sts \<le> 1)) ?body"
    unfolding pbind_def
  proof (rule obeys_then [OF round_counted_once [OF assms], where ?Q2.0 = "tapers is_tick"])
    fix a x b y d
    assume A: "counted_once a x b" "tapers is_tick b y d"
    then have f: "frames_stop a x b" "frames_stop b y d" by (simp_all add: counted_once_def tapers_def)
    from A show "frames_stop a (x @ y) d \<and> (\<not> stop a \<longrightarrow> late is_tick (stop a) (x @ y) \<le> 1)"
      using frames_stop_append [OF f] late_unstopped [OF f(1), of is_tick] late_append [OF f(1), of is_tick y]
      by (auto simp: counted_once_def tapers_def split: if_splits)
  qed (auto intro!: tapering.obeys_pseq tapering.obeys_pdone uncounted_tapers [OF calm.obeys_sleep] Suc
      split: rresult.split option.split bool.split)
  then show ?case unfolding supervise.simps by (rule tapers_unless_stopped)
qed (simp add: tapering.obeys_pdone)

end
