(* ===== verification/Crank_Config.thy ===== *)
theory Crank_Config
  imports Bank_Registry
begin

text \<open>
  \<open>config.rs\<close>: the configuration read from the environment, and the redaction of the RPC
  URL for the logs. The environment is a partial map; a variable that is not valid Unicode
  is treated by the code like an absent one.
\<close>

section \<open>Definitions\<close>

type_synonym env = "string \<Rightarrow> string option"

definition network_from_str :: "string \<Rightarrow> network res" where
  "network_from_str s =
     (let l = to_lowercase s in
      if l = ''localhost'' \<or> l = ''local'' then Ok Localhost
      else if l = ''mainnet'' \<or> l = ''mainnet-beta'' then Ok Mainnet
      else Err (BootErr (BadNetwork l)))"

definition require_var :: "env \<Rightarrow> string \<Rightarrow> string res" where
  "require_var env name = ok_or (BootErr (MissingVar name)) (env name)"

definition bool_var :: "env \<Rightarrow> string \<Rightarrow> bool \<Rightarrow> bool res" where
  "bool_var env name dflt =
     (case env name of
        None \<Rightarrow> Ok dflt
      | Some v \<Rightarrow>
          let l = to_lowercase v in
          if l = ''true'' \<or> l = ''1'' \<or> l = ''yes'' then Ok True
          else if l = ''false'' \<or> l = ''0'' \<or> l = ''no'' then Ok False
          else Err (BootErr (BadBool name l)))"

text \<open>\<open>str::parse\<close> of an unsigned integer of \<open>w\<close> bits: an optional plus sign and digits.\<close>

definition is_digit :: "char \<Rightarrow> bool" where
  "is_digit ch \<longleftrightarrow> 48 \<le> (of_char ch :: nat) \<and> (of_char ch :: nat) \<le> 57"

definition digits_value :: "string \<Rightarrow> nat" where
  "digits_value ds = foldl (\<lambda>n ch. n * 10 + (of_char ch - 48)) 0 ds"

definition parse_uint :: "nat \<Rightarrow> string \<Rightarrow> nat option" where
  "parse_uint w s =
     (let ds = (case s of [] \<Rightarrow> [] | ch # rest \<Rightarrow> if ch = CHR ''+'' then rest else s) in
      if ds = [] \<or> \<not> list_all is_digit ds then None
      else if digits_value ds < 2 ^ w then Some (digits_value ds) else None)"

definition u64_var :: "env \<Rightarrow> string \<Rightarrow> u64 \<Rightarrow> u64 res" where
  "u64_var env name dflt =
     (case env name of
        None \<Rightarrow> Ok dflt
      | Some v \<Rightarrow> rbind (ok_or (BootErr (BadInt name v)) (parse_uint 64 v)) (\<lambda>n. Ok (word_of_nat n)))"

definition u32_var :: "env \<Rightarrow> string \<Rightarrow> u32 \<Rightarrow> u32 res" where
  "u32_var env name dflt =
     (case env name of
        None \<Rightarrow> Ok dflt
      | Some v \<Rightarrow> rbind (ok_or (BootErr (BadInt name v)) (parse_uint 32 v)) (\<lambda>n. Ok (word_of_nat n)))"

definition parse_pubkey :: "sdk \<Rightarrow> string \<Rightarrow> pubkey res" where
  "parse_pubkey k s = ok_or (BootErr (BadPubkey s)) (pubkey_from_str k s)"

text \<open>\<open>json\<close> is \<open>serde_json::from_str\<close> at an array of strings.\<close>

definition parse_curator_keypairs_json :: "(string \<Rightarrow> string + string list) \<Rightarrow> string \<Rightarrow> string list res" where
  "parse_curator_keypairs_json json raw =
     (let trimmed = trim raw in
      if trimmed = [] then Ok []
      else if hd trimmed = CHR ''['' then
        rbind (map_err (\<lambda>e. BootErr (BadCuratorJson e)) (of_sum (json trimmed))) (\<lambda>arr. Ok (map trim arr))
      else Ok [trimmed])"

definition fee_payer_source :: "env \<Rightarrow> keypair_source res" where
  "fee_payer_source env =
     (case (env ''FEE_PAYER_KEYPAIR'', env ''FEE_PAYER_KEYPAIR_BASE58'') of
        (Some _, Some _) \<Rightarrow> Err (BootErr BothKeypairSources)
      | (Some path, None) \<Rightarrow> Ok (PathSource path)
      | (None, Some b58) \<Rightarrow> Ok (Base58Source b58)
      | (None, None) \<Rightarrow> Err (BootErr NoKeypairSource))"

definition handlers_from_env :: "env \<Rightarrow> handlers_config res" where
  "handlers_from_env env =
     rbind (bool_var env ''PROMOTER_ENABLED'' True) (\<lambda>promoter.
     rbind (bool_var env ''CLAIMER_ENABLED'' True) (\<lambda>claimer.
     rbind (bool_var env ''LIQUIDATOR_ENABLED'' True) (\<lambda>liquidator.
     rbind (bool_var env ''CURATOR_FEE_CLAIMER_ENABLED'' False) (\<lambda>curator.
     rbind (bool_var env ''MATCH_CRANKER_ENABLED'' True) (\<lambda>matcher.
     rbind (u64_var env ''PROMOTER_INTERVAL_SEC'' 5) (\<lambda>p_int.
     rbind (u64_var env ''CLAIMER_INTERVAL_SEC'' 30) (\<lambda>c_int.
     rbind (u64_var env ''LIQUIDATOR_INTERVAL_SEC'' 10) (\<lambda>l_int.
     rbind (u64_var env ''CURATOR_FEE_CLAIMER_INTERVAL_SEC'' 3600) (\<lambda>f_int.
     rbind (u64_var env ''MATCH_CRANKER_INTERVAL_SEC'' 15) (\<lambda>m_int.
     rbind (u32_var env ''MATCH_CRANKER_MAX_FILLS'' 8) (\<lambda>fills.
       Ok \<lparr>promoter_enabled = promoter, claimer_enabled = claimer, liquidator_enabled = liquidator,
           curator_fee_claimer_enabled = curator, match_cranker_enabled = matcher,
           promoter_interval = p_int, claimer_interval = c_int, liquidator_interval = l_int,
           curator_fee_claimer_interval = f_int, match_cranker_interval = m_int,
           match_cranker_max_fills = fills\<rparr>)))))))))))"

definition thresholds_from_env :: "env \<Rightarrow> thresholds_config res" where
  "thresholds_from_env env =
     rbind (u64_var env ''MIN_LIQUIDATION_PROFIT_ATOMS'' 1000000) (\<lambda>profit.
     rbind (u64_var env ''MATURITY_EXTRA_BUFFER_SEC'' 30) (\<lambda>buffer.
     rbind (u64_var env ''MIN_CURATOR_FEE_CLAIM_ATOMS'' 100000) (\<lambda>fee.
       Ok \<lparr>min_liquidation_profit_atoms = profit, maturity_extra_buffer = buffer,
           min_curator_fee_claim_atoms = fee\<rparr>)))"

text \<open>\<open>default_id\<close> is the text of \<open>ydelta::id()\<close>. The registry starts empty in the shared memory.\<close>

definition from_env ::
    "sdk \<Rightarrow> string \<Rightarrow> (string \<Rightarrow> string + string list) \<Rightarrow> env \<Rightarrow> config res" where
  "from_env k default_id json env =
     rbind (rbind (require_var env ''NETWORK'') network_from_str) (\<lambda>network.
     rbind (require_var env ''RPC_URL'') (\<lambda>rpc_url.
     rbind (parse_pubkey k (case env ''YDELTA_PROGRAM_ID'' of Some s \<Rightarrow> s | None \<Rightarrow> default_id)) (\<lambda>program_id.
     rbind (rbind (require_var env ''MARGINFI_PROGRAM_ID'') (parse_pubkey k)) (\<lambda>marginfi_program_id.
     rbind (rbind (require_var env ''MARGINFI_GROUP'') (parse_pubkey k)) (\<lambda>marginfi_group.
     rbind (fee_payer_source env) (\<lambda>fee_payer_keypair.
     rbind (case env ''FEE_PAYER_PUBKEY'' of None \<Rightarrow> Ok None
            | Some s \<Rightarrow> rbind (parse_pubkey k s) (\<lambda>pk. Ok (Some pk))) (\<lambda>expected.
     rbind (handlers_from_env env) (\<lambda>handlers.
     rbind (thresholds_from_env env) (\<lambda>thresholds.
     rbind (u64_var env ''PRIORITY_FEE_MICRO_LAMPORTS'' 1000) (\<lambda>fee.
     rbind (u32_var env ''COMPUTE_UNIT_LIMIT'' 400000) (\<lambda>cu.
     rbind (u64_var env ''MIN_SIGNER_BALANCE_LAMPORTS'' 50000000) (\<lambda>min_balance.
     rbind (u64_var env ''BANKS_REFRESH_SEC'' 300) (\<lambda>banks_refresh.
     rbind (case env ''CURATOR_KEYPAIRS_JSON'' of None \<Rightarrow> Ok []
            | Some raw \<Rightarrow> parse_curator_keypairs_json json raw) (\<lambda>curators.
       Ok \<lparr>cfg_network = network, cfg_rpc_url = rpc_url, cfg_program_id = program_id,
           cfg_marginfi_program_id = marginfi_program_id, cfg_marginfi_group = marginfi_group,
           cfg_fee_payer_keypair = fee_payer_keypair, cfg_fee_payer_expected_pubkey = expected,
           cfg_handlers = handlers, cfg_thresholds = thresholds,
           cfg_priority_fee_micro_lamports = fee, cfg_compute_unit_limit = cu,
           cfg_min_signer_balance_lamports = min_balance, cfg_banks_refresh_interval = banks_refresh,
           cfg_curator_keypairs_base58 = curators\<rparr>))))))))))))))"

definition redact_url :: "string \<Rightarrow> string" where
  "redact_url url =
     (let no_query = takeWhile (\<lambda>ch. ch \<noteq> CHR ''?'') url in
      case find_str ''://'' no_query of
        None \<Rightarrow> no_query
      | Some scheme_end \<Rightarrow>
          let after_scheme = drop (scheme_end + 3) no_query in
          (case find_str ''@'' after_scheme of
             None \<Rightarrow> no_query
           | Some at \<Rightarrow> take scheme_end no_query @ ''://'' @ drop (at + 1) after_scheme))"

text \<open>
  What the \<open>Debug\<close> implementations hand to the formatter: the derived ones list every field,
  the two written by hand choose what to show. A duration is its number of seconds.
\<close>

datatype debug_value =
    DText string
  | DRaw string
  | DNat nat
  | DBool bool
  | DSecs nat
  | DKey pubkey
  | DOption "debug_value option"
  | DStruct string "(string \<times> debug_value) list"

definition network_as_str :: "network \<Rightarrow> string" where
  "network_as_str n = (case n of Localhost \<Rightarrow> ''localhost'' | Mainnet \<Rightarrow> ''mainnet'')"

definition debug_network :: "network \<Rightarrow> debug_value" where
  "debug_network n = DRaw (case n of Localhost \<Rightarrow> ''Localhost'' | Mainnet \<Rightarrow> ''Mainnet'')"

definition debug_keypair_source :: "keypair_source \<Rightarrow> debug_value" where
  "debug_keypair_source src = DRaw (case src of
       PathSource p \<Rightarrow> ''Path('' @ p @ '')''
     | Base58Source _ \<Rightarrow> ''Base58(<redacted>)'')"

definition debug_handlers :: "handlers_config \<Rightarrow> debug_value" where
  "debug_handlers h = DStruct ''HandlersConfig''
     [(''promoter_enabled'', DBool (promoter_enabled h)),
      (''claimer_enabled'', DBool (claimer_enabled h)),
      (''liquidator_enabled'', DBool (liquidator_enabled h)),
      (''curator_fee_claimer_enabled'', DBool (curator_fee_claimer_enabled h)),
      (''match_cranker_enabled'', DBool (match_cranker_enabled h)),
      (''promoter_interval'', DSecs (unat (promoter_interval h))),
      (''claimer_interval'', DSecs (unat (claimer_interval h))),
      (''liquidator_interval'', DSecs (unat (liquidator_interval h))),
      (''curator_fee_claimer_interval'', DSecs (unat (curator_fee_claimer_interval h))),
      (''match_cranker_interval'', DSecs (unat (match_cranker_interval h))),
      (''match_cranker_max_fills'', DNat (unat (match_cranker_max_fills h)))]"

definition debug_thresholds :: "thresholds_config \<Rightarrow> debug_value" where
  "debug_thresholds t = DStruct ''ThresholdsConfig''
     [(''min_liquidation_profit_atoms'', DNat (unat (min_liquidation_profit_atoms t))),
      (''maturity_extra_buffer'', DSecs (unat (maturity_extra_buffer t))),
      (''min_curator_fee_claim_atoms'', DNat (unat (min_curator_fee_claim_atoms t)))]"

text \<open>The registry behind the lock is the shared one; a poisoned lock counts as empty.\<close>

definition debug_config :: "bank_registry lock \<Rightarrow> config \<Rightarrow> debug_value" where
  "debug_config bank_lock cfg = DStruct ''Config''
     [(''network'', debug_network (cfg_network cfg)),
      (''rpc_url'', DText (redact_url (cfg_rpc_url cfg))),
      (''program_id'', DKey (cfg_program_id cfg)),
      (''marginfi_program_id'', DKey (cfg_marginfi_program_id cfg)),
      (''marginfi_group'', DKey (cfg_marginfi_group cfg)),
      (''fee_payer_keypair'', debug_keypair_source (cfg_fee_payer_keypair cfg)),
      (''fee_payer_expected_pubkey'', DOption (map_option DKey (cfg_fee_payer_expected_pubkey cfg))),
      (''banks_count'', DNat (case bank_lock of Healthy reg \<Rightarrow> length reg | Poisoned _ \<Rightarrow> 0)),
      (''handlers'', debug_handlers (cfg_handlers cfg)),
      (''thresholds'', debug_thresholds (cfg_thresholds cfg)),
      (''priority_fee_micro_lamports'', DNat (unat (cfg_priority_fee_micro_lamports cfg))),
      (''banks_refresh_interval'', DSecs (unat (cfg_banks_refresh_interval cfg))),
      (''curator_keypairs_count'', DNat (length (cfg_curator_keypairs_base58 cfg)))]"

section \<open>Loading\<close>

text \<open>The name a network prints as is one that it is read from.\<close>

lemma network_roundtrip: "network_from_str (network_as_str n) = Ok n"
  by (cases n; simp only: network_as_str_def network.case; code_simp)

text \<open>A setting: the parsed variable, or the default where the variable is not set.\<close>

definition setting :: "(string \<Rightarrow> 'a option) \<Rightarrow> string option \<Rightarrow> 'a \<Rightarrow> 'a \<Rightarrow> bool" where
  "setting parse var dflt v = (case var of None \<Rightarrow> v = dflt | Some s \<Rightarrow> parse s = Some v)"

definition read_bool :: "string \<Rightarrow> bool option" where
  "read_bool s =
     (if to_lowercase s \<in> {''true'', ''1'', ''yes''} then Some True
      else if to_lowercase s \<in> {''false'', ''0'', ''no''} then Some False else None)"

definition read_u64 :: "string \<Rightarrow> u64 option" where
  "read_u64 s = map_option word_of_nat (parse_uint 64 s)"

definition read_u32 :: "string \<Rightarrow> u32 option" where
  "read_u32 s = map_option word_of_nat (parse_uint 32 s)"

lemma bool_var_Ok: "bool_var env name dflt = Ok v \<longleftrightarrow> setting read_bool (env name) dflt v"
  by (auto simp: bool_var_def setting_def read_bool_def Let_def split: option.split)

lemma u64_var_Ok: "u64_var env name dflt = Ok v \<longleftrightarrow> setting read_u64 (env name) dflt v"
  by (auto simp: u64_var_def setting_def read_u64_def rbind_Ok_iff split: option.splits)

lemma u32_var_Ok: "u32_var env name dflt = Ok v \<longleftrightarrow> setting read_u32 (env name) dflt v"
  by (auto simp: u32_var_def setting_def read_u32_def rbind_Ok_iff split: option.splits)

definition handlers_settings :: "env \<Rightarrow> handlers_config \<Rightarrow> bool" where
  "handlers_settings env h \<longleftrightarrow>
     setting read_bool (env ''PROMOTER_ENABLED'') True (promoter_enabled h) \<and>
     setting read_bool (env ''CLAIMER_ENABLED'') True (claimer_enabled h) \<and>
     setting read_bool (env ''LIQUIDATOR_ENABLED'') True (liquidator_enabled h) \<and>
     setting read_bool (env ''CURATOR_FEE_CLAIMER_ENABLED'') False (curator_fee_claimer_enabled h) \<and>
     setting read_bool (env ''MATCH_CRANKER_ENABLED'') True (match_cranker_enabled h) \<and>
     setting read_u64 (env ''PROMOTER_INTERVAL_SEC'') 5 (promoter_interval h) \<and>
     setting read_u64 (env ''CLAIMER_INTERVAL_SEC'') 30 (claimer_interval h) \<and>
     setting read_u64 (env ''LIQUIDATOR_INTERVAL_SEC'') 10 (liquidator_interval h) \<and>
     setting read_u64 (env ''CURATOR_FEE_CLAIMER_INTERVAL_SEC'') 3600 (curator_fee_claimer_interval h) \<and>
     setting read_u64 (env ''MATCH_CRANKER_INTERVAL_SEC'') 15 (match_cranker_interval h) \<and>
     setting read_u32 (env ''MATCH_CRANKER_MAX_FILLS'') 8 (match_cranker_max_fills h)"

lemma handlers_from_env_Ok: "handlers_from_env env = Ok h \<longleftrightarrow> handlers_settings env h"
  unfolding handlers_settings_def handlers_from_env_def rbind_Ok_iff bool_var_Ok u64_var_Ok u32_var_Ok
  by (cases h) auto

definition thresholds_settings :: "env \<Rightarrow> thresholds_config \<Rightarrow> bool" where
  "thresholds_settings env t \<longleftrightarrow>
     setting read_u64 (env ''MIN_LIQUIDATION_PROFIT_ATOMS'') 1000000 (min_liquidation_profit_atoms t) \<and>
     setting read_u64 (env ''MATURITY_EXTRA_BUFFER_SEC'') 30 (maturity_extra_buffer t) \<and>
     setting read_u64 (env ''MIN_CURATOR_FEE_CLAIM_ATOMS'') 100000 (min_curator_fee_claim_atoms t)"

lemma thresholds_from_env_Ok: "thresholds_from_env env = Ok t \<longleftrightarrow> thresholds_settings env t"
  unfolding thresholds_settings_def thresholds_from_env_def rbind_Ok_iff u64_var_Ok
  by (cases t) auto

text \<open>
  C38. Loading is exact: a configuration is accepted precisely when every required variable
  is present and valid, every optional one is absent or valid, and exactly one of the two
  fee payer variables is set; each of its fields is then the parsed variable or the
  documented default.
\<close>

theorem from_env_correct:
  "from_env k default_id json env = Ok cfg \<longleftrightarrow>
     (\<exists>n. env ''NETWORK'' = Some n \<and> network_from_str n = Ok (cfg_network cfg)) \<and>
     env ''RPC_URL'' = Some (cfg_rpc_url cfg) \<and>
     pubkey_from_str k (case env ''YDELTA_PROGRAM_ID'' of Some s \<Rightarrow> s | None \<Rightarrow> default_id) = Some (cfg_program_id cfg) \<and>
     (\<exists>s. env ''MARGINFI_PROGRAM_ID'' = Some s \<and> pubkey_from_str k s = Some (cfg_marginfi_program_id cfg)) \<and>
     (\<exists>s. env ''MARGINFI_GROUP'' = Some s \<and> pubkey_from_str k s = Some (cfg_marginfi_group cfg)) \<and>
     (case cfg_fee_payer_keypair cfg of
        PathSource p \<Rightarrow> env ''FEE_PAYER_KEYPAIR'' = Some p \<and> env ''FEE_PAYER_KEYPAIR_BASE58'' = None
      | Base58Source b \<Rightarrow> env ''FEE_PAYER_KEYPAIR'' = None \<and> env ''FEE_PAYER_KEYPAIR_BASE58'' = Some b) \<and>
     setting (\<lambda>s. map_option Some (pubkey_from_str k s)) (env ''FEE_PAYER_PUBKEY'') None
       (cfg_fee_payer_expected_pubkey cfg) \<and>
     handlers_settings env (cfg_handlers cfg) \<and> thresholds_settings env (cfg_thresholds cfg) \<and>
     setting read_u64 (env ''PRIORITY_FEE_MICRO_LAMPORTS'') 1000 (cfg_priority_fee_micro_lamports cfg) \<and>
     setting read_u32 (env ''COMPUTE_UNIT_LIMIT'') 400000 (cfg_compute_unit_limit cfg) \<and>
     setting read_u64 (env ''MIN_SIGNER_BALANCE_LAMPORTS'') 50000000 (cfg_min_signer_balance_lamports cfg) \<and>
     setting read_u64 (env ''BANKS_REFRESH_SEC'') 300 (cfg_banks_refresh_interval cfg) \<and>
     (case env ''CURATOR_KEYPAIRS_JSON'' of
        None \<Rightarrow> cfg_curator_keypairs_base58 cfg = []
      | Some raw \<Rightarrow> parse_curator_keypairs_json json raw = Ok (cfg_curator_keypairs_base58 cfg))"
proof -
  have pk: "parse_pubkey k s = Ok pk \<longleftrightarrow> pubkey_from_str k s = Some pk" for s pk
    by (auto simp: parse_pubkey_def split: option.split)
  have req: "require_var env name = Ok s \<longleftrightarrow> env name = Some s" for name s
    by (auto simp: require_var_def split: option.split)
  have src: "fee_payer_source env = Ok f \<longleftrightarrow> (case f of
        PathSource p \<Rightarrow> env ''FEE_PAYER_KEYPAIR'' = Some p \<and> env ''FEE_PAYER_KEYPAIR_BASE58'' = None
      | Base58Source b \<Rightarrow> env ''FEE_PAYER_KEYPAIR'' = None \<and> env ''FEE_PAYER_KEYPAIR_BASE58'' = Some b)" for f
    by (auto simp: fee_payer_source_def split: option.splits keypair_source.splits)
  have exp: "(case env ''FEE_PAYER_PUBKEY'' of None \<Rightarrow> Ok None
            | Some s \<Rightarrow> rbind (parse_pubkey k s) (\<lambda>pk. Ok (Some pk))) = Ok v \<longleftrightarrow>
      setting (\<lambda>s. map_option Some (pubkey_from_str k s)) (env ''FEE_PAYER_PUBKEY'') None v" for v
    by (auto simp: setting_def rbind_Ok_iff pk split: option.split)
  have cur: "(case env ''CURATOR_KEYPAIRS_JSON'' of None \<Rightarrow> Ok []
            | Some raw \<Rightarrow> parse_curator_keypairs_json json raw) = Ok v \<longleftrightarrow>
      (case env ''CURATOR_KEYPAIRS_JSON'' of None \<Rightarrow> v = []
       | Some raw \<Rightarrow> parse_curator_keypairs_json json raw = Ok v)" for v
    by (auto split: option.split)
  show ?thesis
    unfolding from_env_def rbind_Ok_iff u64_var_Ok u32_var_Ok handlers_from_env_Ok thresholds_from_env_Ok req pk src exp cur
    by (cases cfg) (simp only: config.simps rresult.inject, blast)
qed

section \<open>Redaction\<close>

lemma find_str_prefix: "find_str p s = Some i \<Longrightarrow> prefix p (drop i s)"
  by (induction p s arbitrary: i rule: find_str.induct) (auto split: if_splits)

text \<open>
  What is shown of a URL. \<open>cred\<close> is empty or ends in an at sign, \<open>query\<close> is empty or starts
  with a question mark.
\<close>

definition credentials :: "string \<Rightarrow> bool" where
  "credentials cred \<longleftrightarrow> cred = [] \<or> (\<exists>user. cred = user @ ''@'')"

definition query_string :: "string \<Rightarrow> bool" where
  "query_string query \<longleftrightarrow> query = [] \<or> (\<exists>q. query = ''?'' @ q)"

lemma before_query:
  assumes "CHR ''?'' \<notin> set url" "query_string query"
  shows "takeWhile (\<lambda>ch. ch \<noteq> CHR ''?'') (url @ query) = url"
  using assms takeWhile_cut [of "CHR ''?''" url] by (auto simp: query_string_def takeWhile_eq_all_conv)

lemma redact_url_at:
  assumes "CHR ''?'' \<notin> set (scheme @ user @ rest)" "CHR '':'' \<notin> set scheme" "CHR ''@'' \<notin> set user"
    and "query_string query"
  shows "redact_url (scheme @ ''://'' @ user @ ''@'' @ rest @ query) = scheme @ ''://'' @ rest"
proof -
  let ?u = "scheme @ ''://'' @ user @ ''@'' @ rest"
  have "takeWhile (\<lambda>ch. ch \<noteq> CHR ''?'') (?u @ query) = ?u" by (rule before_query) (use assms in simp_all)
  then show ?thesis
    using assms find_str_char [of "CHR ''@''" user rest] find_str_skip [of "CHR '':''" scheme "''//''" "user @ ''@'' @ rest"]
    by (simp add: redact_url_def)
qed

lemma redact_url_plain:
  assumes "CHR ''?'' \<notin> set (scheme @ host)" "CHR '':'' \<notin> set scheme" "CHR ''@'' \<notin> set host" "query_string query"
  shows "redact_url (scheme @ ''://'' @ host @ query) = scheme @ ''://'' @ host"
proof -
  let ?u = "scheme @ ''://'' @ host"
  have "takeWhile (\<lambda>ch. ch \<noteq> CHR ''?'') (?u @ query) = ?u" by (rule before_query) (use assms in simp_all)
  then show ?thesis
    using assms find_str_char_None [of "CHR ''@''" host] find_str_skip [of "CHR '':''" scheme "''//''" host]
    by (simp add: redact_url_def)
qed

lemma redact_url_correct:
  assumes "CHR ''?'' \<notin> set (scheme @ cred @ host)" "CHR '':'' \<notin> set scheme" "CHR ''@'' \<notin> set (butlast cred @ host)"
    and "credentials cred" "query_string query"
  shows "redact_url (scheme @ ''://'' @ cred @ host @ query) = scheme @ ''://'' @ host"
  using assms redact_url_at [of scheme "butlast cred" host query] redact_url_plain [of scheme host query]
  by (auto simp: credentials_def butlast_append)

text \<open>
  C39. What \<open>Debug\<close> shows of a configuration. Of the RPC URL it shows the scheme and what
  follows the credentials, up to the query string, whether the URL has credentials and a
  query string, only one of them or neither, as long as the credentials hold no question
  mark and no at sign but the one that ends them. Neither the Base58 fee payer key nor the
  curator keys are shown, only the number of the latter: two configurations that differ in
  these keys, their number apart, and in the hidden parts of the URL print alike. Credentials
  that do hold another at sign are shown from the first one on.
\<close>

theorem config_debug_hides_secrets:
  assumes "CHR ''?'' \<notin> set (scheme @ cred @ cred' @ host)" "CHR '':'' \<notin> set scheme"
    and "CHR ''@'' \<notin> set (butlast cred @ butlast cred' @ host)" "credentials cred" "credentials cred'"
    and "query_string query" "query_string query'" "length keys = length keys'"
  shows "redact_url (scheme @ ''://'' @ cred @ host @ query) = scheme @ ''://'' @ host \<and>
    debug_config bank_lock (cfg
      \<lparr>cfg_fee_payer_keypair := Base58Source secret, cfg_curator_keypairs_base58 := keys,
       cfg_rpc_url := scheme @ ''://'' @ cred @ host @ query\<rparr>) =
    debug_config bank_lock (cfg
      \<lparr>cfg_fee_payer_keypair := Base58Source secret', cfg_curator_keypairs_base58 := keys',
       cfg_rpc_url := scheme @ ''://'' @ cred' @ host @ query'\<rparr>) \<and>
    (CHR ''@'' \<notin> set user \<and> CHR ''?'' \<notin> set (user @ pass) \<longrightarrow>
      redact_url (scheme @ ''://'' @ user @ ''@'' @ pass @ ''@'' @ host @ query) = scheme @ ''://'' @ pass @ ''@'' @ host)"
proof -
  have "redact_url (scheme @ ''://'' @ cred @ host @ query) = scheme @ ''://'' @ host"
    "redact_url (scheme @ ''://'' @ cred' @ host @ query') = scheme @ ''://'' @ host"
    by (rule redact_url_correct; use assms in simp)+
  moreover have "redact_url (scheme @ ''://'' @ user @ ''@'' @ (pass @ ''@'' @ host) @ query) = scheme @ ''://'' @ (pass @ ''@'' @ host)"
    if "CHR ''@'' \<notin> set user" "CHR ''?'' \<notin> set (user @ pass)"
    by (rule redact_url_at) (use assms that in auto)
  ultimately show ?thesis
    using assms(8) by (simp add: debug_config_def debug_keypair_source_def)
qed

end
