(* ===== verification/Crank_Boot.thy ===== *)
theory Crank_Boot
  imports Supervisor Crank_Config
begin

text \<open>
  \<open>signer.rs\<close>, \<open>health_server.rs\<close> and the start-up sequence of \<open>main.rs\<close>. The file
  system, JSON and Base58 decoding and the key construction are the fields of \<open>key_io\<close>.
\<close>

section \<open>Signers\<close>

record key_io =
  stat_mode :: "string \<Rightarrow> string + u32"
  read_file :: "string \<Rightarrow> string + bytes"
  json_bytes :: "bytes \<Rightarrow> string + bytes"
  bs58_decode :: "string \<Rightarrow> string + bytes"
  keypair_try_from :: "bytes \<Rightarrow> string + keypair"

text \<open>\<open>0o777\<close> is 511 and \<open>0o077\<close> is 63.\<close>

definition load_keypair_from_file :: "key_io \<Rightarrow> string \<Rightarrow> keypair res" where
  "load_keypair_from_file io path =
     rbind (map_err (\<lambda>e. Context ''stat keypair file'' (ExternalErr e)) (of_sum (stat_mode io path))) (\<lambda>m.
     let mode = and m 511 in
     if and mode 63 \<noteq> 0 then Err (BootErr (KeypairTooPermissive path (unat mode)))
     else
       rbind (map_err (\<lambda>e. Context ''reading keypair file'' (ExternalErr e)) (of_sum (read_file io path))) (\<lambda>bs.
       rbind (map_err (\<lambda>e. Context ''parsing keypair JSON'' (ExternalErr e)) (of_sum (json_bytes io bs))) (\<lambda>arr.
       map_err (\<lambda>e. BootErr (KeypairInvalid e)) (of_sum (keypair_try_from io arr)))))"

definition load_keypair_from_base58 :: "key_io \<Rightarrow> string \<Rightarrow> keypair res" where
  "load_keypair_from_base58 io s =
     rbind (map_err (\<lambda>e. BootErr (KeypairInvalid e)) (of_sum (bs58_decode io (trim s)))) (\<lambda>bs.
     if length bs \<noteq> 64 then Err (BootErr (KeypairBadLength (length bs)))
     else map_err (\<lambda>e. BootErr (KeypairInvalid e)) (of_sum (keypair_try_from io bs)))"

fun load_keypair :: "key_io \<Rightarrow> keypair_source \<Rightarrow> keypair res" where
  "load_keypair io (PathSource p) = load_keypair_from_file io p"
| "load_keypair io (Base58Source s) = load_keypair_from_base58 io s"

text \<open>A repeated curator replaces the earlier entry.\<close>

fun load_curators :: "sdk \<Rightarrow> key_io \<Rightarrow> string list \<Rightarrow> (pubkey \<times> keypair) list \<Rightarrow> (pubkey \<times> keypair) list res" where
  "load_curators k io [] acc = Ok acc"
| "load_curators k io (b58 # rest) acc =
     rbind (map_err (Context ''CURATOR_KEYPAIRS_JSON: invalid base58 keypair'') (load_keypair_from_base58 io b58))
       (\<lambda>kp. load_curators k io rest (AList.update (kp_pubkey k kp) kp acc))"

definition signers_load :: "sdk \<Rightarrow> key_io \<Rightarrow> config \<Rightarrow> signers res" where
  "signers_load k io cfg =
     rbind (load_keypair io (cfg_fee_payer_keypair cfg)) (\<lambda>payer.
     rbind (case cfg_fee_payer_expected_pubkey cfg of
              None \<Rightarrow> Ok ()
            | Some expected \<Rightarrow>
                if kp_pubkey k payer \<noteq> expected
                then Err (BootErr (FeePayerMismatch (kp_pubkey k payer) expected)) else Ok ()) (\<lambda>_.
     rbind (load_curators k io (cfg_curator_keypairs_base58 cfg) []) (\<lambda>cs.
     if curator_fee_claimer_enabled (cfg_handlers cfg) \<and> cs = [] then Err (BootErr NoCuratorKeypairs)
     else Ok \<lparr>fee_payer = payer, curators = cs\<rparr>)))"

section \<open>Health endpoints\<close>

text \<open>
  \<open>std::str::from_utf8\<close>: the well-formed byte sequences. The text of a request keeps one
  character per byte, so it agrees with Rust's on ASCII text.
\<close>

definition cont :: "u8 \<Rightarrow> bool" where
  "cont b \<longleftrightarrow> 0x80 \<le> b \<and> b \<le> 0xBF"

fun valid_utf8 :: "bytes \<Rightarrow> bool" where
  "valid_utf8 [] = True"
| "valid_utf8 (b0 # bs) =
     (if b0 < 0x80 then valid_utf8 bs
      else if 0xC2 \<le> b0 \<and> b0 \<le> 0xDF then
        (case bs of b1 # r \<Rightarrow> cont b1 \<and> valid_utf8 r | _ \<Rightarrow> False)
      else if 0xE0 \<le> b0 \<and> b0 \<le> 0xEF then
        (case bs of b1 # b2 # r \<Rightarrow>
            cont b1 \<and> (b0 = 0xE0 \<longrightarrow> 0xA0 \<le> b1) \<and> (b0 = 0xED \<longrightarrow> b1 \<le> 0x9F) \<and> cont b2 \<and> valid_utf8 r
          | _ \<Rightarrow> False)
      else if 0xF0 \<le> b0 \<and> b0 \<le> 0xF4 then
        (case bs of b1 # b2 # b3 # r \<Rightarrow>
            cont b1 \<and> (b0 = 0xF0 \<longrightarrow> 0x90 \<le> b1) \<and> (b0 = 0xF4 \<longrightarrow> b1 \<le> 0x8F) \<and> cont b2 \<and> cont b3 \<and>
            valid_utf8 r
          | _ \<Rightarrow> False)
      else False)"

definition request_text :: "bytes \<Rightarrow> string" where
  "request_text data = (if valid_utf8 data then map (\<lambda>b. char_of (unat b)) data else [])"

text \<open>\<open>lines().next()\<close> ends at a line feed and drops a carriage return before it.\<close>

definition first_line :: "string \<Rightarrow> string" where
  "first_line req =
     (let l = takeWhile (\<lambda>ch. ch \<noteq> CHR 0x0A) req in
      if length l < length req \<and> l \<noteq> [] \<and> last l = CHR 0x0D then butlast l else l)"

text \<open>\<open>split_whitespace\<close>: the word after the first one.\<close>

definition skip_word :: "string \<Rightarrow> string" where
  "skip_word s = dropWhile (\<lambda>ch. \<not> is_space ch) (dropWhile is_space s)"

definition next_word :: "string \<Rightarrow> string" where
  "next_word s = takeWhile (\<lambda>ch. \<not> is_space ch) (dropWhile is_space s)"

definition request_path :: "string \<Rightarrow> string" where
  "request_path req = next_word (skip_word (first_line req))"

definition crlf :: string where "crlf = [CHR 0x0D, CHR 0x0A]"

record http_response =
  status_line :: string
  content_length :: string
  body :: string

definition render_response :: "http_response \<Rightarrow> string" where
  "render_response r =
     ''HTTP/1.1 '' @ status_line r @ crlf @ ''Content-Length: '' @ content_length r @ crlf @
     ''Content-Type: text/plain'' @ crlf @ ''Connection: close'' @ crlf @ crlf @ body r"

definition respond :: "string \<Rightarrow> bool \<Rightarrow> http_response" where
  "respond path ready =
     (if path = ''/healthz'' then
        \<lparr>status_line = ''200 OK'', content_length = ''3'', body = ''ok'' @ [CHR 0x0A]\<rparr>
      else if path = ''/readyz'' then
        (if ready then \<lparr>status_line = ''200 OK'', content_length = ''6'', body = ''ready'' @ [CHR 0x0A]\<rparr>
         else \<lparr>status_line = ''503 Service Unavailable'', content_length = ''12'',
               body = ''not ready'' @ [CHR 0x0A]\<rparr>)
      else \<lparr>status_line = ''404 Not Found'', content_length = ''10'', body = ''not found'' @ [CHR 0x0A]\<rparr>)"

text \<open>
  The one read of at most 1024 bytes; \<open>data\<close> are the bytes that have arrived by then. \<open>None\<close>:
  the peer closed before sending anything.
\<close>

definition handle_conn :: "bytes \<Rightarrow> bool \<Rightarrow> string option" where
  "handle_conn data ready =
     (let buf = take 1024 data in
      if buf = [] then None
      else Some (render_response (respond (request_path (request_text buf)) ready)))"

text \<open>
  The accept loop. The listener is an argument: within 250 ms it gives a connection, an error,
  or nothing. \<open>tasks\<close> are the connections handed to a task of their own; \<open>True\<close> says that the
  server has stopped, \<open>False\<close> that it still runs after the given rounds.
\<close>

datatype 'c accepted = Accepted 'c | AcceptFailed | NothingYet

fun health_loop ::
    "'w client \<Rightarrow> ('w \<Rightarrow> 'c accepted \<times> 'w) \<Rightarrow> nat \<Rightarrow> 'c list \<Rightarrow> ('w, 'h, bool \<times> 'c list) prog" where
  "health_loop c accept 0 tasks = pdone (False, tasks)"
| "health_loop c accept (Suc rounds) tasks =
     pseq (await c accept) (\<lambda>res.
     pseq (gets stop) (\<lambda>halt. if halt then pdone (True, tasks)
     else case res of
         Accepted sock \<Rightarrow> health_loop c accept rounds (tasks @ [sock])
       | AcceptFailed \<Rightarrow> health_loop c accept rounds tasks
       | NothingYet \<Rightarrow> health_loop c accept rounds tasks))"

definition health_spawn ::
    "'w client \<Rightarrow> (string + unit) \<Rightarrow> ('w \<Rightarrow> 'c accepted \<times> 'w) \<Rightarrow> nat \<Rightarrow> ('w, 'h, bool \<times> 'c list) prog" where
  "health_spawn c bound accept rounds =
     (case bound of Inl e \<Rightarrow> pdone (True, []) | Inr _ \<Rightarrow> health_loop c accept rounds [])"

section \<open>Start-up\<close>

text \<open>The supervised handlers with their intervals in seconds, in the order they are spawned.\<close>

definition handlers_spawned :: "handlers_config \<Rightarrow> (string \<times> u64) list" where
  "handlers_spawned hs =
     (if promoter_enabled hs then [(''promoter'', promoter_interval hs)] else []) @
     (if claimer_enabled hs then [(''claimer'', claimer_interval hs)] else []) @
     (if liquidator_enabled hs then [(''liquidator'', liquidator_interval hs)] else []) @
     (if curator_fee_claimer_enabled hs then [(''curator_fee_claimer'', curator_fee_claimer_interval hs)] else []) @
     (if match_cranker_enabled hs then [(''match_cranker'', match_cranker_interval hs)] else [])"

record booted =
  bt_ctx :: handler_context
  bt_warmkeeper :: bool
  bt_handlers :: "(string \<times> u64) list"

definition rpc_of_config :: "config \<Rightarrow> rpc" where
  "rpc_of_config cfg =
     with_stop_signal (rpc_new (cfg_priority_fee_micro_lamports cfg) (cfg_compute_unit_limit cfg))"

definition boot_swb :: "string + unit \<Rightarrow> string + nat list \<Rightarrow> signers \<Rightarrow> bank_registry \<Rightarrow> swb_cranker option" where
  "boot_swb queue fetched sg reg =
     (if has_switchboard_pull reg then ok_value (swb_new queue fetched (fee_payer sg)) else None)"

definition warmkeeper_enabled :: "env \<Rightarrow> bool" where
  "warmkeeper_enabled env = (env ''SWITCHBOARD_WARMKEEPER'' \<in> {Some ''true'', Some ''1''})"

text \<open>
  From the loaded configuration to the spawned handlers. \<open>listeners\<close> is the outcome of
  parsing the two bind addresses and installing the exporter; \<open>queue\<close> and \<open>fetched\<close> are
  the answers of the two Switchboard calls at the configured queue. The task that turns a
  signal into the stop flag is one of the other tasks (\<open>c_interfere\<close>).
\<close>

definition boot ::
    "'w client \<Rightarrow> sdk \<Rightarrow> ydelta \<Rightarrow> env \<Rightarrow> config \<Rightarrow> signers \<Rightarrow> unit res \<Rightarrow> string + unit \<Rightarrow> string + nat list \<Rightarrow>
     ('w, 'h, booted res) prog" where
  "boot c k y env cfg sg listeners queue fetched =
     (let r = rpc_of_config cfg in
      pbind (pctx ''discover_banks_from_markets failed'' (discover_banks_from_markets c k y cfg)) (\<lambda>_.
      pseq banks_snapshot (\<lambda>reg.
      pbind (pctx ''ensure_atas_for failed'' (ensure_atas_for c k r reg (fee_payer sg))) (\<lambda>_.
      pbind (pfor (\<lambda>(curator_pk, kp) _.
               pseq banks_snapshot (\<lambda>reg'. ptry (ensure_atas_for c k r reg' kp)
                 (\<lambda>_. pdone (Ok ())) (\<lambda>_. pdone (Ok ())))) (curators sg) ()) (\<lambda>_.
      pbind (pdone listeners) (\<lambda>_.
      pbind (call c (c_get_slot c)) (\<lambda>slot.
      pseq banks_snapshot (\<lambda>reg2.
      let swb = boot_swb queue fetched sg reg2 in
      pdone (Ok \<lparr>bt_ctx = \<lparr>hc_cfg = cfg, hc_rpc = r, hc_signers = sg, hc_swb = swb\<rparr>,
                 bt_warmkeeper = (swb \<noteq> None \<and> warmkeeper_enabled env),
                 bt_handlers = handlers_spawned (cfg_handlers cfg)\<rparr>)))))))))"

text \<open>The whole start: configuration, signers, and the sequence above.\<close>

definition main_boot ::
    "'w client \<Rightarrow> sdk \<Rightarrow> ydelta \<Rightarrow> key_io \<Rightarrow> string \<Rightarrow> (string \<Rightarrow> string + string list) \<Rightarrow> env \<Rightarrow>
     unit res \<Rightarrow> string + unit \<Rightarrow> string + nat list \<Rightarrow> ('w, 'h, booted res) prog" where
  "main_boot c k y io default_id json env listeners queue fetched =
     pbind (pdone (from_env k default_id json env)) (\<lambda>cfg.
     pbind (pdone (signers_load k io cfg)) (\<lambda>sg.
       boot c k y env cfg sg listeners queue fetched))"

section \<open>What loading guarantees\<close>

lemma load_curators_own_key:
  "load_curators k io b58s acc = Ok cs \<Longrightarrow> (\<forall>(pk, kp) \<in> set acc. kp_pubkey k kp = pk) \<Longrightarrow>
   (\<forall>(pk, kp) \<in> set cs. kp_pubkey k kp = pk)"
proof (induction k io b58s acc rule: load_curators.induct)
  case (2 k io b58 rest acc)
  then obtain kp where "load_curators k io rest (AList.update (kp_pubkey k kp) kp acc) = Ok cs"
    and IH: "(\<forall>(pk, kp') \<in> set (AList.update (kp_pubkey k kp) kp acc). kp_pubkey k kp' = pk) \<Longrightarrow>
      (\<forall>(pk, kp) \<in> set cs. kp_pubkey k kp = pk)"
    by (auto simp: rbind_Ok_iff)
  have "set (AList.update (kp_pubkey k kp) kp acc) \<subseteq> insert (kp_pubkey k kp, kp) (set acc)"
    by (induction acc) auto
  then show ?case using IH "2.prems"(2) by fastforce
qed simp

text \<open>
  C27. The signers that load are the ones that were asked for: the fee payer's public key is
  the asserted one when one is configured, every curator key stands under its own public
  key, a configured curator handler has at least one key, and a key that came from a file
  was read only because nobody else may access that file.
\<close>

theorem loaded_signers_sound:
  assumes "signers_load k io cfg = Ok sg"
  shows "(case cfg_fee_payer_expected_pubkey cfg of None \<Rightarrow> True | Some pk \<Rightarrow> kp_pubkey k (fee_payer sg) = pk) \<and>
    (\<forall>(pk, kp) \<in> set (curators sg). kp_pubkey k kp = pk) \<and>
    (curator_fee_claimer_enabled (cfg_handlers cfg) \<longrightarrow> curators sg \<noteq> []) \<and>
    (case cfg_fee_payer_keypair cfg of
       PathSource p \<Rightarrow> (\<exists>m. stat_mode io p = Inr m \<and> and m 63 = 0)
     | Base58Source s \<Rightarrow> (\<exists>bs. bs58_decode io (trim s) = Inr bs \<and> length bs = 64))"
proof -
  obtain payer cs where payer: "load_keypair io (cfg_fee_payer_keypair cfg) = Ok payer"
    and cs: "load_curators k io (cfg_curator_keypairs_base58 cfg) [] = Ok cs"
    and sg: "sg = \<lparr>fee_payer = payer, curators = cs\<rparr>"
    and ok: "case cfg_fee_payer_expected_pubkey cfg of None \<Rightarrow> True | Some pk \<Rightarrow> kp_pubkey k payer = pk"
      "curator_fee_claimer_enabled (cfg_handlers cfg) \<longrightarrow> cs \<noteq> []"
    using assms by (auto simp: signers_load_def rbind_Ok_iff split: if_splits option.splits)
  have low_bits: "and (and m 511) 63 = and m (63 :: u32)" for m
    by (simp add: and.assoc)
  have "case cfg_fee_payer_keypair cfg of
       PathSource p \<Rightarrow> (\<exists>m. stat_mode io p = Inr m \<and> and m 63 = 0)
     | Base58Source s \<Rightarrow> (\<exists>bs. bs58_decode io (trim s) = Inr bs \<and> length bs = 64)"
  proof (cases "cfg_fee_payer_keypair cfg")
    case (PathSource p)
    then show ?thesis using payer low_bits
      by (cases "stat_mode io p") (auto simp: load_keypair_from_file_def Let_def split: if_splits)
  next
    case (Base58Source s)
    then show ?thesis using payer
      by (cases "bs58_decode io (trim s)") (auto simp: load_keypair_from_base58_def split: if_splits)
  qed
  then show ?thesis using load_curators_own_key [OF cs] ok by (simp add: sg split: option.splits)
qed

section \<open>What the endpoints answer\<close>

definition ascii :: "string \<Rightarrow> bytes" where
  "ascii s = map of_char s"

lemma unat_of_char:
  assumes "of_char ch < (128 :: nat)"
  shows "unat (of_char ch :: u8) = of_char ch"
proof -
  have "unat (word_of_nat n :: u8) = n" if "n < 128" for n
    using that by (simp add: unat_of_nat)
  then show ?thesis using assms of_nat_of_char [of ch, where 'a = u8] by metis
qed

lemma request_text_ascii:
  assumes "\<forall>ch \<in> set s. of_char ch < (128 :: nat)"
  shows "request_text (ascii s) = s"
proof -
  have "valid_utf8 (ascii s)"
    using assms by (induction s) (simp_all add: ascii_def word_less_nat_alt unat_of_char)
  moreover have "map (\<lambda>b. char_of (unat b)) (ascii s) = s"
    using assms by (induction s) (simp_all add: ascii_def unat_of_char)
  ultimately show ?thesis by (simp add: request_text_def)
qed

text \<open>Words and gaps.\<close>

definition gap :: "string \<Rightarrow> bool" where
  "gap s \<longleftrightarrow> (\<forall>ch \<in> set s. is_space ch)"

definition unbroken :: "string \<Rightarrow> bool" where
  "unbroken s \<longleftrightarrow> (\<forall>ch \<in> set s. \<not> is_space ch)"

lemma gap_simps [simp]: "gap []" "gap (ch # s) \<longleftrightarrow> is_space ch \<and> gap s" "gap (s @ t) \<longleftrightarrow> gap s \<and> gap t"
  by (auto simp: gap_def)

lemma skip_gap: "gap g \<Longrightarrow> dropWhile is_space (g @ s) = dropWhile is_space s"
  by (induction g) auto

lemma skip_unbroken: "unbroken w \<Longrightarrow> s = [] \<or> is_space (hd s) \<Longrightarrow>
  dropWhile (\<lambda>ch. \<not> is_space ch) (w @ s) = s \<and> takeWhile (\<lambda>ch. \<not> is_space ch) (w @ s) = w"
  by (induction w) (cases s; auto simp: unbroken_def)+

lemma stays_at_word: "unbroken w \<Longrightarrow> w \<noteq> [] \<Longrightarrow> dropWhile is_space (w @ s) = w @ s"
  by (cases w) (auto simp: unbroken_def)

text \<open>The second word of a line with two words, and nothing where there is no second word.\<close>

lemma second_word:
  assumes "gap g" "unbroken meth" "meth \<noteq> []" "gap g'" "g' \<noteq> []" "unbroken path" "path \<noteq> []"
    and "tail = [] \<or> is_space (hd tail)"
  shows "next_word (skip_word (g @ meth @ g' @ path @ tail)) = path"
proof -
  have "is_space (hd (g' @ path @ tail))" using assms(4,5) by (cases g') auto
  then have "skip_word (g @ meth @ g' @ path @ tail) = g' @ path @ tail"
    using skip_unbroken [OF assms(2), of "g' @ path @ tail"] assms(1-3)
    by (simp add: skip_word_def skip_gap stays_at_word)
  then show ?thesis
    using skip_unbroken [OF assms(6,8)] assms(4,6,7) by (simp add: next_word_def skip_gap stays_at_word)
qed

lemma skip_whole_gap: "gap g \<Longrightarrow> dropWhile is_space g = []"
  by (induction g) auto

lemma no_second_word:
  assumes "gap g" "unbroken w" "gap g'"
  shows "next_word (skip_word (g @ w @ g')) = []"
proof (cases "w = []")
  case True
  have "skip_word (g @ g') = []"
    by (simp only: skip_word_def skip_gap [OF assms(1)] skip_whole_gap [OF assms(3)] dropWhile.simps)
  with True show ?thesis by (simp add: next_word_def)
next
  case False
  have "g' = [] \<or> is_space (hd g')" using assms(3) by (cases g') auto
  then have "skip_word (g @ w @ g') = g'"
    using skip_unbroken [OF assms(2)] stays_at_word [OF assms(2) False] by (simp add: skip_word_def skip_gap [OF assms(1)])
  then show ?thesis by (simp only: next_word_def skip_whole_gap [OF assms(3)] takeWhile.simps)
qed

text \<open>A blank at the end of the line changes neither word.\<close>

lemma word_then_blank:
  assumes "is_space x"
  shows "takeWhile (\<lambda>ch. \<not> is_space ch) (s @ [x]) = takeWhile (\<lambda>ch. \<not> is_space ch) s"
    "dropWhile (\<lambda>ch. \<not> is_space ch) (s @ [x]) = dropWhile (\<lambda>ch. \<not> is_space ch) s @ [x]"
    "dropWhile is_space (s @ [x]) = (if gap s then [] else dropWhile is_space s @ [x])"
  using assms by (induction s) auto

lemma next_word_blank: "is_space x \<Longrightarrow> next_word (s @ [x]) = next_word s"
  by (simp only: next_word_def word_then_blank skip_whole_gap split: if_split) (simp add: skip_whole_gap)

lemma second_word_blank: "is_space x \<Longrightarrow> next_word (skip_word (s @ [x])) = next_word (skip_word s)"
proof (cases "gap s")
  case True
  moreover assume "is_space x"
  ultimately show ?thesis by (simp only: skip_word_def word_then_blank skip_whole_gap if_True)
next
  case False
  moreover assume "is_space x"
  ultimately show ?thesis by (simp only: skip_word_def word_then_blank if_False next_word_blank)
qed

lemma path_of_line:
  assumes "CHR 0x0A \<notin> set line"
  shows "request_path (line @ CHR 0x0A # rest) = next_word (skip_word line)"
    "request_path line = next_word (skip_word line)"
proof -
  have cut: "takeWhile (\<lambda>ch. ch \<noteq> CHR 0x0A) (line @ CHR 0x0A # rest) = line"
    "takeWhile (\<lambda>ch. ch \<noteq> CHR 0x0A) line = line"
    using assms takeWhile_cut [of "CHR 0x0A" line rest] by (auto simp: takeWhile_eq_all_conv)
  have cr: "next_word (skip_word (l @ [CHR 0x0D])) = next_word (skip_word l)" for l
    by (rule second_word_blank) (simp add: is_space_def)
  have "next_word (skip_word (butlast line)) = next_word (skip_word line)"
    if "line \<noteq> []" "last line = CHR 0x0D"
    using cr [of "butlast line"] that by (metis append_butlast_last_id)
  then show "request_path (line @ CHR 0x0A # rest) = next_word (skip_word line)"
    by (simp add: request_path_def first_line_def Let_def cut)
  show "request_path line = next_word (skip_word line)"
    by (simp add: request_path_def first_line_def Let_def cut)
qed

lemma answer_of_line:
  assumes "\<forall>ch \<in> set (line @ rest). of_char ch < (128 :: nat)" "CHR 0x0A \<notin> set line" "length line < 1024"
  shows "handle_conn (ascii (line @ CHR 0x0A # rest)) ready =
      Some (render_response (respond (next_word (skip_word line)) ready))"
    "line \<noteq> [] \<Longrightarrow> handle_conn (ascii line) ready = Some (render_response (respond (next_word (skip_word line)) ready))"
proof -
  obtain m where m: "1024 - length line = Suc m" using assms(3) by (metis Suc_diff_Suc)
  have "take 1024 (ascii (line @ CHR 0x0A # rest)) = ascii (line @ CHR 0x0A # take m rest)"
    using assms(3) m by (simp add: ascii_def take_map)
  moreover have "request_text (ascii (line @ CHR 0x0A # take m rest)) = line @ CHR 0x0A # take m rest"
    using assms(1) by (intro request_text_ascii) (auto dest: in_set_takeD)
  ultimately show "handle_conn (ascii (line @ CHR 0x0A # rest)) ready =
      Some (render_response (respond (next_word (skip_word line)) ready))"
    using path_of_line(1) [OF assms(2)] by (simp add: handle_conn_def Let_def) (simp add: ascii_def)
  have "take 1024 (ascii line) = ascii line" using assms(3) by (simp add: ascii_def)
  moreover have "request_text (ascii line) = line" using assms(1) by (intro request_text_ascii) auto
  ultimately show "handle_conn (ascii line) ready = Some (render_response (respond (next_word (skip_word line)) ready))"
    if "line \<noteq> []"
    using path_of_line(2) [OF assms(2)] that by (simp add: handle_conn_def Let_def) (simp add: ascii_def)
qed

text \<open>
  C40. The endpoints, for every request in ASCII whose first line fits the one read of 1024
  bytes: the answer is that of the second word of the first line, or of no path where that
  line has fewer than two words, whatever else the line holds (leading blanks, the method,
  the protocol version or none) and whatever follows it. The answer of \<open>/healthz\<close> is always
  200, that of \<open>/readyz\<close> is 200 exactly when the ready flag is set and 503 otherwise, and that
  of anything else, no path included, is 404. Bytes that are not UTF-8 get the 404 as well;
  only a peer that sends nothing gets no answer. The declared length is that of the body in
  every answer but the 503, which declares 12 bytes and carries 10.
\<close>

theorem health_endpoints:
  assumes "\<forall>ch \<in> set (line @ rest). of_char ch < (128 :: nat)" "CHR 0x0A \<notin> set line" "length line < 1024"
    and "req = line @ CHR 0x0A # rest \<or> req = line \<and> line \<noteq> []"
  shows "(\<forall>g meth g' path tail. line = g @ meth @ g' @ path @ tail \<and> gap g \<and> unbroken meth \<and> meth \<noteq> [] \<and>
        gap g' \<and> g' \<noteq> [] \<and> unbroken path \<and> path \<noteq> [] \<and> (tail = [] \<or> is_space (hd tail)) \<longrightarrow>
        handle_conn (ascii req) ready = Some (render_response (respond path ready))) \<and>
    (\<forall>g w g'. line = g @ w @ g' \<and> gap g \<and> unbroken w \<and> gap g' \<longrightarrow>
        handle_conn (ascii req) ready = Some (render_response (respond [] ready))) \<and>
    (\<forall>path. status_line (respond path ready) =
      (if path = ''/healthz'' \<or> path = ''/readyz'' \<and> ready then ''200 OK''
       else if path = ''/readyz'' then ''503 Service Unavailable'' else ''404 Not Found'')) \<and>
    (\<not> valid_utf8 (take 1024 data) \<longrightarrow> handle_conn data ready = Some (render_response (respond [] ready))) \<and>
    (handle_conn data ready = None \<longleftrightarrow> data = []) \<and>
    (\<forall>path. if path = ''/readyz'' \<and> \<not> ready
     then content_length (respond path ready) = ''12'' \<and> length (body (respond path ready)) = 10
     else parse_uint 64 (content_length (respond path ready)) = Some (length (body (respond path ready))))"
proof (intro conjI allI impI)
  have answer: "handle_conn (ascii req) ready = Some (render_response (respond (next_word (skip_word line)) ready))"
    using answer_of_line [OF assms(1-3)] assms(4) by blast
  show "handle_conn (ascii req) ready = Some (render_response (respond path ready))"
    if "line = g @ meth @ g' @ path @ tail \<and> gap g \<and> unbroken meth \<and> meth \<noteq> [] \<and>
        gap g' \<and> g' \<noteq> [] \<and> unbroken path \<and> path \<noteq> [] \<and> (tail = [] \<or> is_space (hd tail))" for g meth g' path tail
    using answer second_word [of g meth g' path tail] that by simp
  show "handle_conn (ascii req) ready = Some (render_response (respond [] ready))"
    if "line = g @ w @ g' \<and> gap g \<and> unbroken w \<and> gap g'" for g w g'
    using answer no_second_word [of g w g'] that by simp
  show "handle_conn data ready = Some (render_response (respond [] ready))" if "\<not> valid_utf8 (take 1024 data)"
    using that by (auto simp: handle_conn_def Let_def request_text_def request_path_def first_line_def
        skip_word_def next_word_def)
  show "handle_conn data ready = None \<longleftrightarrow> data = []" by (simp add: handle_conn_def Let_def)
  show "if path = ''/readyz'' \<and> \<not> ready
     then content_length (respond path ready) = ''12'' \<and> length (body (respond path ready)) = 10
     else parse_uint 64 (content_length (respond path ready)) = Some (length (body (respond path ready)))" for path
    by (simp add: respond_def parse_uint_def is_digit_def digits_value_def)
qed (simp add: respond_def)

section \<open>What start-up guarantees\<close>

text \<open>
  C26. Contradictory markets stop the start: when the node lists markets of which two bind
  one mint to different banks, start-up fails before anything is submitted, whatever else
  is configured.
\<close>

theorem boot_refuses_conflict:
  assumes "fetch_markets c y (cfg_program_id cfg) s = (Ok ms, s1)" "\<not> single_valued (market_bindings ms)"
  shows "\<exists>e s'. boot c k y env cfg sg listeners queue fetched s = (Err e, s') \<and> trace s' = trace s"
proof -
  have ne: "ms \<noteq> []" using assms(2) by (auto simp: market_bindings_def)
  obtain s2 where put: "markets_cache_put c ms s1 = ((), s2)" by (cases "markets_cache_put c ms s1") auto
  have "silent (refresh_markets c y (cfg_program_id cfg))" by (rule silent_refresh_markets)
  moreover have run: "refresh_markets c y (cfg_program_id cfg) s = (Ok ms, s2)"
    using assms(1) ne put by (simp add: refresh_markets_def pbind_run pseq_run pdone_def)
  ultimately have tr: "trace s2 = trace s" unfolding silent_def by (auto dest: emitsD)
  obtain e where "bind_markets ms [] = Err (BankErr e)"
    using bind_markets_err [of "[]" ms] assms(2) by auto
  then have "discover_banks_from_markets c k y cfg s = (Err (BankErr e), s2)"
    using run ne
    by (simp add: discover_banks_from_markets_def discover_from_markets_def pctx_def pbind_run pseq_run pdone_def)
  then show ?thesis using tr by (simp add: boot_def Let_def pbind_run pctx_def pseq_run pdone_def)
qed

text \<open>
  C25. A start that succeeds has read a valid configuration and loaded its signers, and it
  runs exactly the handlers whose switch in the environment is on, each under its own name
  and at its own interval from the environment (or the default), in the order promoter,
  claimer, liquidator, curator fee claimer, match cranker. They run over an RPC client wired
  to the stop flag with the configured fee and compute limit; the Switchboard cranker is
  present only with at least one gateway, and the warm-keeper only with the cranker.
\<close>

theorem boot_wires_context:
  assumes "main_boot c k y io default_id json env listeners queue fetched s = (Ok b, s')"
  shows "\<exists>cfg sg. from_env k default_id json env = Ok cfg \<and> signers_load k io cfg = Ok sg \<and>
    (\<exists>switches intervals. map fst (bt_handlers b) =
        map fst (filter snd (zip [''promoter'', ''claimer'', ''liquidator'', ''curator_fee_claimer'', ''match_cranker''] switches)) \<and>
      list_all2 (\<lambda>(var, dflt) on. setting read_bool (env var) dflt on)
        [(''PROMOTER_ENABLED'', True), (''CLAIMER_ENABLED'', True), (''LIQUIDATOR_ENABLED'', True),
         (''CURATOR_FEE_CLAIMER_ENABLED'', False), (''MATCH_CRANKER_ENABLED'', True)] switches \<and>
      list_all2 (\<lambda>(var, dflt) secs. setting read_u64 (env var) dflt secs)
        [(''PROMOTER_INTERVAL_SEC'', 5), (''CLAIMER_INTERVAL_SEC'', 30), (''LIQUIDATOR_INTERVAL_SEC'', 10),
         (''CURATOR_FEE_CLAIMER_INTERVAL_SEC'', 3600), (''MATCH_CRANKER_INTERVAL_SEC'', 15)] intervals \<and>
      set (bt_handlers b) \<subseteq>
        set (zip [''promoter'', ''claimer'', ''liquidator'', ''curator_fee_claimer'', ''match_cranker''] intervals)) \<and>
    stop_wired (hc_rpc (bt_ctx b)) \<and>
    compute_unit_limit (hc_rpc (bt_ctx b)) = cfg_compute_unit_limit cfg \<and>
    priority_fee_micro_lamports (hc_rpc (bt_ctx b)) = cfg_priority_fee_micro_lamports cfg \<and>
    hc_cfg (bt_ctx b) = cfg \<and> hc_signers (bt_ctx b) = sg \<and>
    (case hc_swb (bt_ctx b) of None \<Rightarrow> \<not> bt_warmkeeper b
     | Some sc \<Rightarrow> gateways sc \<noteq> [] \<and> swb_payer sc = fee_payer sg \<and> bt_warmkeeper b = warmkeeper_enabled env)"
proof -
  obtain cfg sg where cfg: "from_env k default_id json env = Ok cfg" and sg: "signers_load k io cfg = Ok sg"
    and boot: "boot c k y env cfg sg listeners queue fetched s = (Ok b, s')"
    using assms
    by (cases "from_env k default_id json env"; cases "signers_load k io (case from_env k default_id json env of Ok c \<Rightarrow> c)")
      (auto simp: main_boot_def pbind_run pdone_def)
  let ?h = "cfg_handlers cfg"
  let ?switches = "[promoter_enabled ?h, claimer_enabled ?h, liquidator_enabled ?h, curator_fee_claimer_enabled ?h,
    match_cranker_enabled ?h]"
  let ?intervals = "[promoter_interval ?h, claimer_interval ?h, liquidator_interval ?h, curator_fee_claimer_interval ?h,
    match_cranker_interval ?h]"
  have settings: "handlers_settings env ?h"
    using cfg by (auto simp: from_env_def rbind_Ok_iff handlers_from_env_Ok)
  have swb: "ok_value (swb_new queue fetched p) = Some sc \<Longrightarrow> gateways sc \<noteq> [] \<and> swb_payer sc = p" for p sc
    by (cases queue; cases fetched) (auto simp: swb_new_def split: if_splits)
  have wiring: "bt_handlers b = handlers_spawned ?h \<and> stop_wired (hc_rpc (bt_ctx b)) \<and>
    compute_unit_limit (hc_rpc (bt_ctx b)) = cfg_compute_unit_limit cfg \<and>
    priority_fee_micro_lamports (hc_rpc (bt_ctx b)) = cfg_priority_fee_micro_lamports cfg \<and>
    hc_cfg (bt_ctx b) = cfg \<and> hc_signers (bt_ctx b) = sg \<and>
    (case hc_swb (bt_ctx b) of None \<Rightarrow> \<not> bt_warmkeeper b
     | Some sc \<Rightarrow> gateways sc \<noteq> [] \<and> swb_payer sc = fee_payer sg \<and> bt_warmkeeper b = warmkeeper_enabled env)"
    using boot
    by (auto simp: boot_def Let_def pbind_run pseq_run pdone_def boot_swb_def rpc_of_config_def
        with_stop_signal_def rpc_new_def dest!: swb
        split: prod.splits rresult.splits option.splits if_splits)
  show ?thesis
    using cfg sg wiring settings
    by (intro exI [of _ cfg] exI [of _ sg] conjI exI [of _ ?switches] exI [of _ ?intervals])
      (auto simp: handlers_settings_def handlers_spawned_def)
qed

end
