(* ===== verification/Crank_Process.thy ===== *)
theory Crank_Process
  imports Crank_Runs Crank_Boot
begin

text \<open>
  The running process: the tasks that \<open>main.rs\<close> spawns once start-up is done, interleaved at
  their suspensions over one shared memory, with signals arriving at any time. What the
  other theories show of one task under assumed interference is shown here of all tasks
  together, with nothing assumed of the interference.
\<close>

section \<open>Segments\<close>

text \<open>
  A segment is what a task does between two suspensions: the memory it finds, the events it
  causes, the memory it leaves.
\<close>

type_synonym segment = "shared \<times> event list \<times> shared"

fun segments :: "shared \<Rightarrow> event list \<Rightarrow> step list \<Rightarrow> shared \<Rightarrow> segment list" where
  "segments a evs [] b = [(a, evs, b)]"
| "segments a evs (Did ev # sts) b = segments a (evs @ [ev]) sts b"
| "segments a evs (Switched d d' # sts) b = (a, evs, d) # segments d' [] sts b"

definition thread :: "('w, 'h, 'r) prog \<Rightarrow> ('w, 'h) sys \<Rightarrow> segment list" where
  "thread m s =
     segments (shm s) [] (drop (length (steps s)) (steps (snd (m s)))) (shm (snd (m s)))"

text \<open>
  The tasks of the five supervised handlers and of the background loops, each over any
  number of rounds: what the task will return, and its thread. Each thread may see its own
  answers of the node, so it has a client of its own; the interference of that client is
  only what the thread found when it was resumed, and the process below accepts no thread
  whose findings are not its memory.
\<close>

type_synonym task = "bool res \<times> segment list"

definition task_of :: "('w, 'h, bool res) prog \<Rightarrow> ('w, 'h) sys \<Rightarrow> task" where
  "task_of m s = (fst (m s), thread m s)"

inductive handler_task :: "sdk \<Rightarrow> ydelta \<Rightarrow> (err \<Rightarrow> string) \<Rightarrow> booted \<Rightarrow> 'w client \<Rightarrow>
    string \<Rightarrow> task \<Rightarrow> bool"
  for k y disp bt c where
  promoter: "(''promoter'', secs) \<in> set (bt_handlers bt) \<Longrightarrow> own s = {} \<Longrightarrow>
    handler_task k y disp bt c ''promoter''
      (task_of (supervise c disp (promoter_handler c k y (bt_ctx bt)) (unat secs * 10 ^ 9) fuel rounds) s)"
| claimer: "(''claimer'', secs) \<in> set (bt_handlers bt) \<Longrightarrow> own s = {} \<Longrightarrow>
    handler_task k y disp bt c ''claimer''
      (task_of (supervise c disp (claimer_handler c k y (bt_ctx bt)) (unat secs * 10 ^ 9) fuel rounds) s)"
| liquidator: "(''liquidator'', secs) \<in> set (bt_handlers bt) \<Longrightarrow> own s = {} \<Longrightarrow>
    handler_task k y disp bt c ''liquidator''
      (task_of (supervise c disp (liquidator_handler c k y (bt_ctx bt)) (unat secs * 10 ^ 9) fuel rounds) s)"
| curator: "(''curator_fee_claimer'', secs) \<in> set (bt_handlers bt) \<Longrightarrow> own s = {} \<Longrightarrow>
    handler_task k y disp bt c ''curator_fee_claimer''
      (task_of (supervise c disp (curator_handler c k y (bt_ctx bt)) (unat secs * 10 ^ 9) fuel rounds) s)"
| match_cranker: "(''match_cranker'', secs) \<in> set (bt_handlers bt) \<Longrightarrow> own s = {} \<Longrightarrow>
    handler_task k y disp bt c ''match_cranker''
      (task_of (supervise c disp (match_cranker_handler c k y (bt_ctx bt)) (unat secs * 10 ^ 9) fuel rounds) s)"

inductive background_task :: "sdk \<Rightarrow> ydelta \<Rightarrow> booted \<Rightarrow> 'w client \<Rightarrow> task \<Rightarrow> bool"
  for k y bt c where
  sol_balance: "background_task k y bt c
      (task_of (spawn_sol_balance_loop c k (hc_signers (bt_ctx bt))
         (cfg_min_signer_balance_lamports (hc_cfg (bt_ctx bt))) fuel rounds) (s :: ('w, unit) sys))"
| ata_balance: "background_task k y bt c
      (task_of (spawn_ata_balance_loop c k (hc_signers (bt_ctx bt)) order (60 * 10 ^ 9) fuel rounds)
         (s :: ('w, unit) sys))"
| bank_refresh: "background_task k y bt c
      (task_of (spawn_bank_refresh_loop c k y (hc_cfg (bt_ctx bt))
         (unat (cfg_banks_refresh_interval (hc_cfg (bt_ctx bt))) * 10 ^ 9) fuel rounds) (s :: ('w, unit) sys))"
| warm_keeper: "bt_warmkeeper bt \<Longrightarrow> hc_swb (bt_ctx bt) = Some sc \<Longrightarrow>
    background_task k y bt c (task_of (swb_crank_loop c k sc 60000 rounds) (s :: ('w, unit) sys))"

definition handler_thread ::
    "sdk \<Rightarrow> ydelta \<Rightarrow> (err \<Rightarrow> string) \<Rightarrow> booted \<Rightarrow> 'w client \<Rightarrow> string \<Rightarrow> segment list \<Rightarrow> bool" where
  "handler_thread k y disp bt c name t \<longleftrightarrow> (\<exists>r. handler_task k y disp bt c name (r, t))"

definition background_thread :: "sdk \<Rightarrow> ydelta \<Rightarrow> booted \<Rightarrow> 'w client \<Rightarrow> segment list \<Rightarrow> bool" where
  "background_thread k y bt c t \<longleftrightarrow> (\<exists>r. background_task k y bt c (r, t))"

definition spawned :: "sdk \<Rightarrow> ydelta \<Rightarrow> (err \<Rightarrow> string) \<Rightarrow> booted \<Rightarrow> 'w client \<Rightarrow> segment list \<Rightarrow> bool" where
  "spawned k y disp bt c t \<longleftrightarrow> (\<exists>name. handler_thread k y disp bt c name t) \<or> background_thread k y bt c t"

section \<open>The interleaving\<close>

text \<open>The memory, what is left of each thread, and the events so far with their threads.\<close>

record process =
  memory :: shared
  pending :: "segment list list"
  history :: "(nat \<times> event) list"

text \<open>The task that waits for SIGTERM or SIGINT.\<close>

definition on_signal :: "shared \<Rightarrow> shared" where
  "on_signal sh = sh\<lparr>stop := True\<rparr>"

inductive process_step :: "process \<Rightarrow> process \<Rightarrow> bool" where
  resumed: "i < length (pending p) \<Longrightarrow> pending p ! i = (memory p, evs, sh) # rest \<Longrightarrow>
    process_step p (p\<lparr>memory := sh, pending := (pending p)[i := rest],
      history := history p @ map (Pair i) evs\<rparr>)"
| signalled: "process_step p (p\<lparr>memory := on_signal (memory p)\<rparr>)"

inductive_cases process_stepE: "process_step p p'"

section \<open>Invariants of the memory\<close>

definition keeps_segments :: "(shared \<Rightarrow> bool) \<Rightarrow> segment list \<Rightarrow> bool" where
  "keeps_segments I t \<longleftrightarrow> (\<forall>(a, evs, b) \<in> set t. I a \<longrightarrow> I b)"

lemma kept_segments: "kept I a sts b \<Longrightarrow> keeps_segments I (segments a evs sts b)"
  by (induction a evs sts b rule: segments.induct) (auto simp: keeps_segments_def)

lemma obeys_thread:
  "obeys Q m \<Longrightarrow> \<exists>sts. thread m s = segments (shm s) [] sts (shm (snd (m s))) \<and> Q (shm s) sts (shm (snd (m s)))"
  unfolding obeys_def thread_def by (metis append_eq_conv_conj)

lemma keeps_thread: "obeys (kept I) m \<Longrightarrow> keeps_segments I (thread m s)"
  using obeys_thread kept_segments by metis

lemma step_keeps_segments:
  assumes "process_step p p'" "\<forall>t \<in> set (pending p). keeps_segments I t"
  shows "\<forall>t \<in> set (pending p'). keeps_segments I t"
  using assms(1)
proof (cases rule: process_step.cases)
  case (resumed i evs sh rest)
  then have "keeps_segments I ((memory p, evs, sh) # rest)" using assms(2) by (metis nth_mem)
  then have "keeps_segments I rest" by (simp add: keeps_segments_def)
  with resumed assms(2) show ?thesis by (auto dest!: set_update_subset_insert [THEN subsetD])
qed (use assms(2) in simp)

lemma run_keeps_segments:
  "process_step\<^sup>*\<^sup>* p p' \<Longrightarrow> \<forall>t \<in> set (pending p). keeps_segments I t \<Longrightarrow>
   \<forall>t \<in> set (pending p'). keeps_segments I t"
  by (induction rule: rtranclp_induct) (blast dest: step_keeps_segments)+

text \<open>An invariant that every thread and every signal keeps holds throughout.\<close>

lemma process_invariant:
  assumes "process_step\<^sup>*\<^sup>* p p'" "\<forall>t \<in> set (pending p). keeps_segments I t" "\<And>sh. I sh \<Longrightarrow> I (on_signal sh)"
    and "I (memory p)"
  shows "I (memory p')"
  using assms(1)
proof (induction rule: rtranclp_induct)
  case (step q r)
  note segs = run_keeps_segments [OF step.hyps(1) assms(2)]
  from step.hyps(2) show ?case
  proof (cases rule: process_step.cases)
    case (resumed i evs sh rest)
    then have "keeps_segments I ((memory q, evs, sh) # rest)" using segs by (metis nth_mem)
    with resumed step.IH show ?thesis by (simp add: keeps_segments_def)
  qed (use step.IH assms(3) in simp)
qed (rule assms(4))

text \<open>All threads keep the contract's instances that allow every submission.\<close>

lemmas handler_defs = promoter_handler_def claimer_handler_def liquidator_handler_def curator_handler_def
  match_cranker_handler_def

lemma spawned_keeps:
  assumes "supervision_contract (kept I) (bt_ctx bt)" "spawned k y disp bt c t"
  shows "keeps_segments I t"
proof -
  note law = assms(1)
  note tasks = supervision_contract.axioms(1) [OF law]
  note ticks = task_contract.obeys_promoter_tick [OF tasks] task_contract.obeys_claimer_tick [OF tasks]
    task_contract.obeys_liquidator_tick [OF tasks] task_contract.obeys_curator_tick [OF tasks]
    task_contract.obeys_match_cranker_tick [OF tasks]
  note loops = task_contract.obeys_sol_loop [OF tasks] task_contract.obeys_ata_loop [OF tasks]
    task_contract.obeys_refresh_loop [OF tasks] task_contract.obeys_swb_loop [OF tasks]
  show ?thesis
    using assms(2) unfolding spawned_def handler_thread_def background_thread_def
    by (auto elim!: handler_task.cases background_task.cases
        intro!: keeps_thread supervision_contract.obeys_supervise [OF law] loops
        simp: handler_defs task_of_def ticks)
qed

lemmas spawned_keeps_data = spawned_keeps [OF data.supervision_contract_axioms]
lemmas spawned_keeps_registry = spawned_keeps [OF registry.supervision_contract_axioms]
lemmas spawned_frames_stop = spawned_keeps [OF stop_frame.supervision_contract_axioms]

section \<open>Shutdown\<close>

text \<open>
  \<open>late_events p t\<close>: the events of a kind left in a thread whose first segment is next, in
  segments that start with the flag set, until a resumption finds the flag cleared.
  \<open>potential p h t\<close>: the same for a thread that is not running, where \<open>h\<close> is the flag now.
\<close>

definition tally_of :: "(event \<Rightarrow> bool) \<Rightarrow> event list \<Rightarrow> nat" where
  "tally_of p evs = length (filter p evs)"

lemma tally_of_simps [simp]:
  "tally_of p [] = 0" "tally_of p (ev # evs) = (if p ev then 1 else 0) + tally_of p evs"
  "tally_of p (evs @ evs') = tally_of p evs + tally_of p evs'"
  by (simp_all add: tally_of_def)

fun late_events :: "(event \<Rightarrow> bool) \<Rightarrow> segment list \<Rightarrow> nat" where
  "late_events p [] = 0"
| "late_events p [(a, evs, b)] = (if stop a then tally_of p evs else 0)"
| "late_events p ((a, evs, b) # (a', seg) # rest) =
     (if stop a then tally_of p evs else 0) + (if stop b \<and> \<not> stop a' then 0 else late_events p ((a', seg) # rest))"

definition potential :: "(event \<Rightarrow> bool) \<Rightarrow> bool \<Rightarrow> segment list \<Rightarrow> nat" where
  "potential p h t = (if t \<noteq> [] \<and> h \<and> \<not> stop (fst (hd t)) then 0 else late_events p t)"

lemma late_events_Cons:
  "late_events p ((a, evs, b) # rest) = (if stop a then tally_of p evs else 0) + potential p (stop b) rest"
  by (cases rest rule: list.exhaust) (auto simp: potential_def)

lemma potential_True: "potential p True t \<le> potential p h t"
  by (simp add: potential_def)

lemma segments_head: "\<exists>seg rest. segments a evs sts b = (a, seg) # rest"
  by (induction a evs sts b rule: segments.induct) auto

lemma late_events_segments:
  "late_events p (segments a evs sts b) = (if stop a then tally_of p evs else 0) + late p (stop a) sts"
proof (induction a evs sts b rule: segments.induct)
  case (3 a evs d d' sts b)
  obtain seg rest where "segments d' [] sts b = (d', seg) # rest" using segments_head by blast
  then show ?case using 3 by simp
qed simp_all

lemma tapering_thread:
  assumes "obeys (tapers p) m"
  shows "late_events p (thread m s) \<le> 1"
  using obeys_thread [OF assms, of s] by (auto simp: tapers_def late_events_segments split: if_splits)

lemma winds_down_tapers: "obeys (winds_down ctx) m \<Longrightarrow> stop_wired (hc_rpc ctx) \<Longrightarrow> obeys (tapers is_send) m"
  by (erule obeys_mono) (simp add: winds_down_def)

lemma promoter_obeys: "obeys (winds_down ctx) (supervise c disp (promoter_handler c k y ctx) interval fuel rounds)"
  by (rule shutdown.obeys_supervise) (simp add: promoter_handler_def shutdown.obeys_promoter_tick)

lemma claimer_obeys: "obeys (winds_down ctx) (supervise c disp (claimer_handler c k y ctx) interval fuel rounds)"
  by (rule shutdown.obeys_supervise) (simp add: claimer_handler_def shutdown.obeys_claimer_tick)

lemma liquidator_obeys: "obeys (winds_down ctx) (supervise c disp (liquidator_handler c k y ctx) interval fuel rounds)"
  by (rule shutdown.obeys_supervise) (simp add: liquidator_handler_def shutdown.obeys_liquidator_tick)

lemma curator_obeys: "obeys (winds_down ctx) (supervise c disp (curator_handler c k y ctx) interval fuel rounds)"
  by (rule shutdown.obeys_supervise) (simp add: curator_handler_def shutdown.obeys_curator_tick)

lemma match_cranker_obeys:
  "obeys (winds_down ctx) (supervise c disp (match_cranker_handler c k y ctx) interval fuel rounds)"
  by (rule shutdown.obeys_supervise) (simp add: match_cranker_handler_def shutdown.obeys_match_cranker_tick)

lemmas handlers_obey = promoter_obeys claimer_obeys liquidator_obeys curator_obeys match_cranker_obeys

lemmas ticks_uncounted = calm.obeys_promoter_tick calm.obeys_claimer_tick calm.obeys_liquidator_tick
  calm.obeys_curator_tick calm.obeys_match_cranker_tick

lemma handler_tapers:
  assumes "handler_thread k y disp bt c name t"
  shows "stop_wired (hc_rpc (bt_ctx bt)) \<Longrightarrow> late_events is_send t \<le> 1" "late_events is_tick t \<le> 1"
proof -
  obtain r where "handler_task k y disp bt c name (r, t)" using assms unfolding handler_thread_def by blast
  then have "(stop_wired (hc_rpc (bt_ctx bt)) \<longrightarrow> late_events is_send t \<le> 1) \<and> late_events is_tick t \<le> 1"
    by cases (auto simp del: One_nat_def simp: task_of_def handler_defs ticks_uncounted
        intro!: tapering_thread winds_down_tapers supervise_tapers handlers_obey [unfolded handler_defs])
  then show "stop_wired (hc_rpc (bt_ctx bt)) \<Longrightarrow> late_events is_send t \<le> 1" "late_events is_tick t \<le> 1"
    by simp_all
qed

text \<open>The events of a thread so far, and the events it has left.\<close>

definition events_of :: "nat \<Rightarrow> (nat \<times> event) list \<Rightarrow> event list" where
  "events_of i evs = map snd (filter (\<lambda>(j, ev). j = i) evs)"

lemma events_of_simps [simp]:
  "events_of i [] = []" "events_of i (evs @ evs') = events_of i evs @ events_of i evs'"
  "events_of i (map (Pair j) es) = (if j = i then es else [])"
  by (auto simp: events_of_def filter_map comp_def)

text \<open>One step: the events that thread \<open>i\<close> causes with the flag set come out of its potential.\<close>

lemma step_potential:
  assumes "process_step P P'" "\<forall>t \<in> set (pending P). keeps_segments (\<lambda>sh. stop sh = True) t"
  shows "\<exists>new. history P' = history P @ new \<and> (stop (memory P) \<longrightarrow> stop (memory P')) \<and>
    length (pending P') = length (pending P) \<and>
    (i < length (pending P) \<longrightarrow>
      potential p (stop (memory P')) (pending P' ! i) + (if stop (memory P) then tally_of p (events_of i new) else 0)
        \<le> potential p (stop (memory P)) (pending P ! i))"
  using assms(1)
proof (cases rule: process_step.cases)
  case (resumed j evs sh rest)
  have "keeps_segments (\<lambda>sh. stop sh = True) (pending P ! j)"
    using assms(2) resumed(2) by auto
  then have mono: "stop (memory P) \<Longrightarrow> stop sh" using resumed(3) by (simp add: keeps_segments_def)
  show ?thesis
  proof (cases "i = j")
    case True
    with resumed mono show ?thesis by (auto simp: potential_def late_events_Cons)
  next
    case False
    have "potential p (stop sh) (pending P ! i) \<le> potential p (stop (memory P)) (pending P ! i)"
      using mono by (simp add: potential_def)
    with resumed mono False show ?thesis by auto
  qed
qed (auto simp: on_signal_def potential_True)

lemma run_potential:
  assumes "process_step\<^sup>*\<^sup>* P P'" "\<forall>t \<in> set (pending P). keeps_segments (\<lambda>sh. stop sh = True) t"
  shows "\<exists>new. history P' = history P @ new \<and> (stop (memory P) \<longrightarrow> stop (memory P')) \<and>
    length (pending P') = length (pending P) \<and>
    (i < length (pending P) \<longrightarrow>
      potential p (stop (memory P')) (pending P' ! i) + (if stop (memory P) then tally_of p (events_of i new) else 0)
        \<le> potential p (stop (memory P)) (pending P ! i))"
  using assms(1)
proof (induction rule: rtranclp_induct)
  case (step q r)
  from step_potential [OF step.hyps(2) run_keeps_segments [OF step.hyps(1) assms(2)], of i p] step.IH
  show ?case by fastforce
qed simp

text \<open>From a state with the flag set on, a thread with a bound on its late events stays below it.\<close>

lemma late_bounded:
  assumes "process_step\<^sup>*\<^sup>* P P1" "stop (memory P1)" "process_step\<^sup>*\<^sup>* P1 P2"
    and "\<forall>t \<in> set (pending P). keeps_segments (\<lambda>sh. stop sh = True) t"
    and "i < length (pending P)" "late_events p (pending P ! i) \<le> n"
  shows "\<exists>new. history P2 = history P1 @ new \<and> stop (memory P2) \<and> tally_of p (events_of i new) \<le> n"
proof -
  note before = run_potential [OF assms(1,4), of i p]
    and after = run_potential [OF assms(3) run_keeps_segments [OF assms(1,4)], of i p]
  have "potential p (stop (memory P)) (pending P ! i) \<le> late_events p (pending P ! i)"
    by (simp add: potential_def)
  then show ?thesis using before after assms(2,5,6) by fastforce
qed

section \<open>What each thread submits\<close>

definition left_over :: "segment list \<Rightarrow> event list" where
  "left_over t = concat (map (\<lambda>(a, evs, b). evs) t)"

lemma left_over_thread:
  assumes "trace (snd (m s)) = trace s @ es" "\<exists>sts. steps (snd (m s)) = steps s @ sts"
  shows "left_over (thread m s) = es"
proof -
  have "left_over (segments a evs sts b) = evs @ events sts" for a evs sts b
    by (induction a evs sts b rule: segments.induct) (auto simp: left_over_def)
  moreover obtain sts where sts: "steps (snd (m s)) = steps s @ sts" using assms(2) by blast
  moreover have "trace (snd (m s)) = trace s @ events sts" using sts by (metis trace_def events_append)
  ultimately show ?thesis using assms(1) by (simp add: thread_def)
qed

text \<open>Nothing is lost, invented or reordered within a thread.\<close>

lemma run_conserves:
  assumes "process_step\<^sup>*\<^sup>* p p'" "i < length (pending p)"
  shows "length (pending p') = length (pending p) \<and>
    events_of i (history p') @ left_over (pending p' ! i) = events_of i (history p) @ left_over (pending p ! i)"
  using assms(1)
proof (induction rule: rtranclp_induct)
  case (step q r)
  from step.hyps(2) show ?case
  proof (cases rule: process_step.cases)
    case (resumed j evs sh rest)
    then have "left_over (pending q ! j) = evs @ left_over rest" by (simp add: left_over_def)
    with resumed step.IH assms(2) show ?thesis by (cases "i = j") auto
  qed (use step.IH in simp)
qed simp

text \<open>
  The rule for the submissions of each handler: the promoter and the claimer send what the
  last simulation approved, the liquidator and the match cranker send it behind the
  compute-budget preamble, and the curator handler has its own payers.
\<close>

definition submission_rule :: "sdk \<Rightarrow> handler_context \<Rightarrow> string \<Rightarrow> event list \<Rightarrow> bool" where
  "submission_rule k ctx name es =
     (if name = ''curator_fee_claimer'' then paid_by (kp_pubkey k ` snd ` set (curators (hc_signers ctx))) es
      else self_gated (if name \<in> {''promoter'', ''claimer''} then []
                       else priority_fee_preamble k (hc_rpc ctx) V0_COMPUTE_UNIT_LIMIT) es)"

lemma submission_rule_prefix: "submission_rule k ctx name (es @ es') \<Longrightarrow> submission_rule k ctx name es"
  by (cases "name = ''curator_fee_claimer''") (simp_all add: submission_rule_def self_gated_def paid_by_def gated_append)

lemma submission_rule_names:
  "submission_rule k ctx ''promoter'' = self_gated []"
  "submission_rule k ctx ''claimer'' = self_gated []"
  "submission_rule k ctx ''liquidator'' = self_gated (priority_fee_preamble k (hc_rpc ctx) V0_COMPUTE_UNIT_LIMIT)"
  "submission_rule k ctx ''match_cranker'' = self_gated (priority_fee_preamble k (hc_rpc ctx) V0_COMPUTE_UNIT_LIMIT)"
  "submission_rule k ctx ''curator_fee_claimer'' = paid_by (kp_pubkey k ` snd ` set (curators (hc_signers ctx)))"
  by (simp_all add: submission_rule_def fun_eq_iff)

lemma thread_events:
  assumes "emits m (\<lambda>_ es. P es)" "obeys Q m"
  shows "P (left_over (thread m s))"
proof -
  obtain es where "trace (snd (m s)) = trace s @ es" "P es"
    using assms(1) unfolding emits_def by blast
  moreover have "\<exists>sts. steps (snd (m s)) = steps s @ sts" using assms(2) unfolding obeys_def by blast
  ultimately show ?thesis by (simp add: left_over_thread)
qed

lemmas handler_events = thread_events [OF promoter_run.run_events promoter_obeys]
  thread_events [OF claimer_run.run_events claimer_obeys]
  thread_events [OF liquidator_run.run_events liquidator_obeys]
  thread_events [OF curator_run.run_events curator_obeys]
  thread_events [OF match_cranker_run.run_events match_cranker_obeys]

lemma handler_task_obeys_rule:
  assumes "handler_task k y disp bt c name (r, t)"
  shows "submission_rule k (bt_ctx bt) name (left_over t)"
  using assms by cases (simp_all only: task_of_def prod.inject submission_rule_names handler_events)

lemma handler_thread_obeys_rule:
  "handler_thread k y disp bt c name t \<Longrightarrow> submission_rule k (bt_ctx bt) name (left_over t)"
  unfolding handler_thread_def using handler_task_obeys_rule by blast

text \<open>A thread that finds what it left behind may run to its end alone.\<close>

fun chained :: "shared \<Rightarrow> segment list \<Rightarrow> bool" where
  "chained sh [] = True"
| "chained sh ((a, evs, b) # t) = (a = sh \<and> chained b t)"

lemma runs_alone:
  assumes "i < length (pending p)" "chained (memory p) (pending p ! i)"
  shows "\<exists>p'. process_step\<^sup>*\<^sup>* p p' \<and> pending p' = (pending p)[i := []] \<and>
    history p' = history p @ map (Pair i) (left_over (pending p ! i))"
  using assms
proof (induction "pending p ! i" arbitrary: p)
  case Nil
  then have "pending p = (pending p)[i := []]" by (metis list_update_id)
  with Nil show ?case by (intro exI [of _ p]) (simp add: left_over_def)
next
  case (Cons seg t)
  obtain a evs b where seg: "seg = (a, evs, b)" by (cases seg)
  let ?q = "p\<lparr>memory := b, pending := (pending p)[i := t], history := history p @ map (Pair i) evs\<rparr>"
  have a: "a = memory p" "chained b t" using Cons.prems(2) Cons.hyps(2) seg by (metis chained.simps(2))+
  have "process_step p ?q"
    using Cons.prems(1) Cons.hyps(2) seg a by (intro process_step.resumed) auto
  moreover obtain p' where "process_step\<^sup>*\<^sup>* ?q p'" "pending p' = (pending ?q)[i := []]"
    "history p' = history ?q @ map (Pair i) (left_over t)"
    using Cons.hyps(1) [of ?q] Cons.prems(1) a(2) by auto
  ultimately show ?case
    using Cons.hyps(2) [symmetric] seg
    by (intro exI [of _ p']) (auto simp: left_over_def intro: converse_rtranclp_into_rtranclp)
qed

section \<open>The process\<close>

lemma booted_wired:
  assumes "main_boot c k y io default_id json env listeners queue fetched s = (Ok bt, s')"
  shows "stop_wired (hc_rpc (bt_ctx bt))"
  using assms
  by (auto simp: main_boot_def boot_def Let_def pbind_run pseq_run pdone_def rpc_of_config_def with_stop_signal_def
      split: prod.splits rresult.splits)

text \<open>
  C2. In every interleaving of the tasks, each handler submits by its rule: every transaction
  of the promoter and the claimer was approved, bundle for bundle, by the last simulation of
  that handler before it; so was every transaction of the liquidator and the match cranker,
  behind the compute-budget preamble; and the curator handler's transactions are all paid by
  configured curator keys. (README.md lists no simulation gate for the promoter and the
  claimer; their code has one.)
\<close>

theorem process_submissions_gated:
  assumes "process_step\<^sup>*\<^sup>* p p'" "history p = []" "i < length (pending p)"
    and "handler_thread k y disp bt c name (pending p ! i)"
  shows "submission_rule k (bt_ctx bt) name (events_of i (history p'))"
proof -
  have "events_of i (history p') @ left_over (pending p' ! i) = left_over (pending p ! i)"
    using run_conserves [OF assms(1,3)] assms(2) by simp
  then show ?thesis using handler_thread_obeys_rule [OF assms(4)] submission_rule_prefix by metis
qed

text \<open>
  C13. Shutdown stops the work: in every interleaving, from the moment the stop flag is
  set each handler submits at most one more transaction, the one whose check of the flag
  came before, and finishes at most the round it is in; and no task takes the flag back.
\<close>

theorem process_winds_down:
  fixes c :: "'w client" and cb :: "'b client"
  assumes "main_boot cb k y io default_id json env listeners queue fetched s = (Ok bt, s')"
    and "\<forall>t \<in> set (pending p). \<exists>c :: 'w client. spawned k y disp bt c t"
    and "i < length (pending p)" "handler_thread k y disp bt c name (pending p ! i)"
    and "process_step\<^sup>*\<^sup>* p p1" "stop (memory p1)" "process_step\<^sup>*\<^sup>* p1 p2"
  shows "\<exists>new. history p2 = history p1 @ new \<and> stop (memory p2) \<and>
    tally_of is_send (events_of i new) \<le> 1 \<and> tally_of is_tick (events_of i new) \<le> 1"
proof -
  have segs: "\<forall>t \<in> set (pending p). keeps_segments (\<lambda>sh. stop sh = True) t"
    using assms(2) spawned_frames_stop [where v = True] by blast
  note late = late_bounded [OF assms(5-7) segs assms(3)]
  from late [OF handler_tapers(1) [OF assms(4) booted_wired [OF assms(1)]]] late [OF handler_tapers(2) [OF assms(4)]]
  show ?thesis by auto
qed

text \<open>
  The shared data stays sound in every interleaving of the tasks: a registry that is
  readable and well formed and a non-empty, sorted market snapshot stay so, and the registry
  keeps every entry.
\<close>

lemma process_keeps_data:
  assumes "\<forall>t \<in> set (pending p). \<exists>c :: 'w client. spawned k y disp bt c t"
    and "process_step\<^sup>*\<^sup>* p p'" "healthy_data base (memory p)"
  shows "healthy_data base (memory p')"
proof (rule process_invariant [where I = "healthy_data base", OF assms(2) _ _ assms(3)])
  show "\<forall>t \<in> set (pending p). keeps_segments (healthy_data base) t"
    using assms(1) spawned_keeps_data [where base = base] by blast
qed (simp add: healthy_data_def knows_def has_snapshot_def on_signal_def)

end
