(* ===== verification/Crank_Exit.thy ===== *)
theory Crank_Exit
  imports Crank_Process
begin

text \<open>
  How the process of \<open>main.rs\<close> ends: \<open>main\<close> returns once it has joined the handler tasks, and
  the panic hook ends the process as soon as any task has panicked. The theory shows what
  each exit code means and that no handler is ever missing from a process that goes on.
\<close>

section \<open>The program\<close>

text \<open>
  The tasks with what each of them will return; the first \<open>joined\<close> of them are the handler
  tasks whose handles \<open>main\<close> keeps.
\<close>

record program =
  running :: process
  results :: "bool res list"
  joined :: nat
  exit_code :: "nat option"

definition task_over :: "program \<Rightarrow> nat \<Rightarrow> bool" where
  "task_over pr i \<longleftrightarrow> pending (running pr) ! i = []"

text \<open>
  The loop over the handles at the end of \<open>main\<close> gets through when all handlers have returned.
  The loop drops the result of each join, but a handler that panicked is not joined: the
  hook has ended the process before the task is done. \<open>Ok False\<close> is a loop still running.
\<close>

definition main_returns :: "program \<Rightarrow> bool" where
  "main_returns pr \<longleftrightarrow> (\<forall>i < joined pr. task_over pr i \<and> results pr ! i = Ok True)"

text \<open>The hook runs in the task that panicked, wherever it was spawned.\<close>

definition panic_hook :: "program \<Rightarrow> bool" where
  "panic_hook pr \<longleftrightarrow> (\<exists>i < length (results pr). task_over pr i \<and> results pr ! i = Panic)"

inductive program_step :: "program \<Rightarrow> program \<Rightarrow> bool" where
  works: "exit_code pr = None \<Longrightarrow> process_step (running pr) p \<Longrightarrow> program_step pr (pr\<lparr>running := p\<rparr>)"
| returns: "exit_code pr = None \<Longrightarrow> main_returns pr \<Longrightarrow> program_step pr (pr\<lparr>exit_code := Some 0\<rparr>)"
| panics: "exit_code pr = None \<Longrightarrow> panic_hook pr \<Longrightarrow> program_step pr (pr\<lparr>exit_code := Some 1\<rparr>)"

inductive_cases program_stepE: "program_step pr pr'"

text \<open>
  What start-up leaves behind: one task per spawned handler, in the order of the handles,
  and the background tasks.
\<close>

definition launched :: "sdk \<Rightarrow> ydelta \<Rightarrow> (err \<Rightarrow> string) \<Rightarrow> booted \<Rightarrow> 'w client list \<Rightarrow> program \<Rightarrow> bool" where
  "launched k y disp bt cs pr \<longleftrightarrow>
     exit_code pr = None \<and> history (running pr) = [] \<and> joined pr = length (bt_handlers bt) \<and>
     joined pr \<le> length (results pr) \<and> length (pending (running pr)) = length (results pr) \<and>
     length cs = length (results pr) \<and>
     (\<forall>i < length (results pr).
        if i < joined pr
        then handler_task k y disp bt (cs ! i) (fst (bt_handlers bt ! i)) (results pr ! i, pending (running pr) ! i)
        else background_task k y bt (cs ! i) (results pr ! i, pending (running pr) ! i))"

section \<open>How a handler task ends\<close>

lemma last_segment: "snd (snd (last (segments a evs sts b))) = b \<and> segments a evs sts b \<noteq> []"
  by (induction a evs sts b rule: segments.induct) auto

lemma thread_ends: "snd (snd (last (thread m s))) = shm (snd (m s)) \<and> thread m s \<noteq> []"
  by (simp add: thread_def last_segment)

lemma handler_task_ends:
  assumes "handler_task k y disp bt c name (r, t)"
  shows "t \<noteq> [] \<and> (r = Ok True \<and> stop (snd (snd (last t))) \<or> r = Ok False \<or> r = Panic)"
  using assms
  by cases (simp only: task_of_def prod.inject thread_ends supervise_returns [OF prod.collapse [symmetric]] simp_thms)+

section \<open>The end of the program\<close>

lemma program_run:
  assumes "program_step\<^sup>*\<^sup>* pr pr'"
  shows "process_step\<^sup>*\<^sup>* (running pr) (running pr') \<and> results pr' = results pr \<and> joined pr' = joined pr"
  using assms
  by (induction rule: rtranclp_induct) (auto elim!: program_step.cases intro: rtranclp.rtrancl_into_rtrancl)

lemma exited_is_final: "exit_code pr \<noteq> None \<Longrightarrow> \<not> program_step pr pr'"
  by (auto elim: program_stepE)

text \<open>An exit code is the outcome of the step that set it, and nothing happens after it.\<close>

lemma exit_reasons:
  assumes "program_step\<^sup>*\<^sup>* pr pr'" "exit_code pr = None"
  shows "exit_code pr' = None \<or> exit_code pr' = Some 0 \<and> main_returns pr' \<or> exit_code pr' = Some 1 \<and> panic_hook pr'"
  using assms
proof (induction rule: rtranclp_induct)
  case (step q r)
  from step.hyps(2) show ?case
    by cases (auto simp: main_returns_def panic_hook_def task_over_def)
qed simp

text \<open>Thread \<open>i\<close> ends with the stop flag set.\<close>

definition leaves_stopped :: "process \<Rightarrow> nat \<Rightarrow> bool" where
  "leaves_stopped p i \<longleftrightarrow>
     (if pending p ! i = [] then stop (memory p) else stop (snd (snd (last (pending p ! i)))))"

lemma step_leaves_stopped:
  assumes "process_step p p'" "\<forall>t \<in> set (pending p). keeps_segments (\<lambda>sh. stop sh = True) t"
    and "leaves_stopped p i"
  shows "leaves_stopped p' i"
  using assms(1)
proof (cases rule: process_step.cases)
  case (resumed j evs sh rest)
  have "keeps_segments (\<lambda>sh. stop sh = True) (pending p ! j)" using assms(2) resumed(2) by auto
  then have "stop (memory p) \<Longrightarrow> stop sh" using resumed(3) by (simp add: keeps_segments_def)
  with resumed assms(3) show ?thesis by (cases "i = j") (auto simp: leaves_stopped_def split: if_splits)
qed (use assms(3) in \<open>auto simp: leaves_stopped_def on_signal_def\<close>)

lemma run_leaves_stopped:
  assumes "process_step\<^sup>*\<^sup>* p p'" "\<forall>t \<in> set (pending p). keeps_segments (\<lambda>sh. stop sh = True) t"
    and "leaves_stopped p i"
  shows "leaves_stopped p' i"
  using assms(1)
proof (induction rule: rtranclp_induct)
  case (step q r)
  then show ?case using step_leaves_stopped run_keeps_segments [OF step.hyps(1) assms(2)] by blast
qed (rule assms(3))

lemma launched_spawned:
  assumes "launched k y disp bt (cs :: 'w client list) pr"
  shows "\<forall>t \<in> set (pending (running pr)). \<exists>c :: 'w client. spawned k y disp bt c t"
proof
  fix t assume "t \<in> set (pending (running pr))"
  then obtain i where i: "i < length (results pr)" "t = pending (running pr) ! i"
    using assms by (auto simp: launched_def in_set_conv_nth)
  with assms have task: "if i < joined pr
      then handler_task k y disp bt (cs ! i) (fst (bt_handlers bt ! i)) (results pr ! i, t)
      else background_task k y bt (cs ! i) (results pr ! i, t)" by (simp add: launched_def)
  have "spawned k y disp bt (cs ! i) t"
  proof (cases "i < joined pr")
    case True
    with task have "handler_thread k y disp bt (cs ! i) (fst (bt_handlers bt ! i)) t"
      unfolding handler_thread_def by (simp only: if_True) (rule exI)
    then show ?thesis unfolding spawned_def by (intro disjI1 exI)
  next
    case False
    with task have "background_thread k y bt (cs ! i) t"
      unfolding background_thread_def by (simp only: if_False) (rule exI)
    then show ?thesis unfolding spawned_def ..
  qed
  then show "\<exists>c :: 'w client. spawned k y disp bt c t" ..
qed

lemma launched_handler:
  assumes "launched k y disp bt cs pr" "i < length (bt_handlers bt)"
  shows "handler_task k y disp bt (cs ! i) (fst (bt_handlers bt ! i)) (results pr ! i, pending (running pr) ! i)"
proof -
  have "i < joined pr" "i < length (results pr)" using assms by (auto simp: launched_def)
  with assms(1) show ?thesis by (simp add: launched_def)
qed

text \<open>Where the task of a handler is over, it saw the flag, the model cut it off, or it panicked.\<close>

lemma handler_over:
  assumes "launched k y disp bt cs pr" "program_step\<^sup>*\<^sup>* pr pr'" "i < length (bt_handlers bt)" "task_over pr' i"
  shows "stop (memory (running pr')) \<and> results pr' ! i = Ok True \<or> results pr' ! i = Ok False \<or>
    results pr' ! i = Panic"
proof -
  note ends = handler_task_ends [OF launched_handler [OF assms(1,3)]]
  have segs: "\<forall>t \<in> set (pending (running pr)). keeps_segments (\<lambda>sh. stop sh = True) t"
    using launched_spawned [OF assms(1)] spawned_frames_stop [where v = True] by blast
  have run: "process_step\<^sup>*\<^sup>* (running pr) (running pr')" "results pr' = results pr"
    using program_run [OF assms(2)] by simp_all
  show ?thesis
  proof (cases "results pr ! i = Ok True")
    case True
    then have "leaves_stopped (running pr) i" using ends by (simp add: leaves_stopped_def)
    then have "leaves_stopped (running pr') i" by (rule run_leaves_stopped [OF run(1) segs])
    with True run(2) assms(4) show ?thesis by (simp add: leaves_stopped_def task_over_def)
  qed (use ends run(2) in auto)
qed

text \<open>
  C15. The exit code tells the truth. In every interleaving of the spawned tasks: the process
  ends with code 0 only when all handlers have returned and, if there is any, the stop
  flag is set; it ends with code 1 only when a task has panicked; there is no other code and
  nothing happens after the exit. A handler that has come to its end, and was not just cut off
  by the number of rounds, has seen the stop flag, or has panicked, and then a process
  that is still alive can be ended by the hook: it never goes on for good with a dead handler.
\<close>

theorem process_exits_rightly:
  assumes "launched k y disp bt cs pr" "program_step\<^sup>*\<^sup>* pr pr'"
  shows "(exit_code pr' = Some 0 \<longrightarrow> (\<forall>i < length (bt_handlers bt). task_over pr' i) \<and>
      (bt_handlers bt = [] \<or> stop (memory (running pr')))) \<and>
    (exit_code pr' = Some 1 \<longrightarrow> (\<exists>i < length (results pr). task_over pr' i \<and> results pr ! i = Panic)) \<and>
    (exit_code pr' \<in> {None, Some 0, Some 1}) \<and>
    (exit_code pr' \<noteq> None \<longrightarrow> (\<forall>q. \<not> program_step pr' q)) \<and>
    (\<forall>i < length (bt_handlers bt). task_over pr' i \<longrightarrow> results pr ! i \<noteq> Ok False \<longrightarrow>
      stop (memory (running pr')) \<or> exit_code pr' \<noteq> None \<or> program_step pr' (pr'\<lparr>exit_code := Some 1\<rparr>))"
proof -
  have start: "exit_code pr = None" "joined pr = length (bt_handlers bt)" "joined pr \<le> length (results pr)"
    using assms(1) by (simp_all add: launched_def)
  have run: "results pr' = results pr" "joined pr' = joined pr" using program_run [OF assms(2)] by simp_all
  note over = handler_over [OF assms]
  have "bt_handlers bt = [] \<or> stop (memory (running pr'))" if "main_returns pr'"
    using that over [of 0] start run by (cases "bt_handlers bt") (auto simp: main_returns_def)
  moreover have "program_step pr' (pr'\<lparr>exit_code := Some 1\<rparr>)"
    if "i < length (bt_handlers bt)" "task_over pr' i" "results pr ! i = Panic" "exit_code pr' = None" for i
  proof (rule program_step.panics [OF that(4)])
    have "i < length (results pr')" using that(1) start run by simp
    with that(2,3) run show "panic_hook pr'" unfolding panic_hook_def by metis
  qed
  moreover have "exit_code pr' = None \<or> exit_code pr' = Some 0 \<and> main_returns pr' \<or>
      exit_code pr' = Some 1 \<and> panic_hook pr'" by (rule exit_reasons [OF assms(2) start(1)])
  moreover have "\<forall>q. \<not> program_step pr' q" if "exit_code pr' \<noteq> None"
    using that exited_is_final by blast
  moreover have "\<forall>i < length (bt_handlers bt). task_over pr' i" if "main_returns pr'"
    using that start run by (simp add: main_returns_def)
  moreover have "\<exists>i < length (results pr). task_over pr' i \<and> results pr ! i = Panic" if "panic_hook pr'"
    using that run by (simp add: panic_hook_def)
  ultimately show ?thesis
    using over run(1) by (metis (no_types, lifting) insertCI option.inject option.distinct(1) zero_neq_one)
qed

end
