(* ===== verification/Crank_Life.thy ===== *)
theory Crank_Life
  imports Crank_Exit
begin

text \<open>
  The bot from its first instruction to its exit: what \<open>main\<close> allocates, what start-up leaves in
  the shared memory, and what the spawned tasks make of it.
\<close>

section \<open>Before the tasks\<close>

text \<open>
  The flags, the registry, the market cache and the balances as they are allocated. While
  start-up runs, the only other tasks are the health endpoints, which write none of them,
  and the one that waits for a signal.
\<close>

definition initial_memory :: shared where
  "initial_memory = \<lparr>stop = False, fee_payer_low = False, banks = Healthy [], markets_cache = Healthy None,
     ata_balances = Healthy []\<rparr>"

definition alone_but_for_signals :: "'w client \<Rightarrow> bool" where
  "alone_but_for_signals c \<longleftrightarrow> (\<forall>w sh. c_interfere c w sh \<in> {sh, on_signal sh})"

text \<open>A property that the stop flag does not matter to.\<close>

lemma rely_alone:
  assumes "alone_but_for_signals c" "\<And>sh. I (on_signal sh) = I sh"
  shows "rely c I"
  unfolding rely_def
proof (intro allI impI)
  fix w sh assume "I sh"
  with assms show "I (c_interfere c w sh)" unfolding alone_but_for_signals_def by (metis insertE singletonD)
qed

lemma on_signal_simps [simp]:
  "knows base (on_signal sh) = knows base sh" "has_snapshot (on_signal sh) = has_snapshot sh"
  "banks (on_signal sh) = banks sh" "markets_cache (on_signal sh) = markets_cache sh"
  by (simp_all add: on_signal_def knows_def has_snapshot_def)

section \<open>What a submission leaves alone\<close>

lemma preserves_sleep_ms [preserves_intro]: "rely c I \<Longrightarrow> preserves I (sleep_ms c n)"
  unfolding sleep_ms_def by (intro preserves_intro)

lemma preserves_case_sum [preserves_intro]:
  "(\<And>x. preserves I (f x)) \<Longrightarrow> (\<And>x. preserves I (g x)) \<Longrightarrow> preserves I (case x of Inl a \<Rightarrow> f a | Inr b \<Rightarrow> g b)"
  by (cases x) auto

lemma preserves_retry_loop: "rely c I \<Longrightarrow> preserves I (retry_loop c r mk attempts l)"
proof (induction attempts arbitrary: l)
  case (Cons a attempts)
  have "preserves I (stopped r)" unfolding stopped_def by (rule preserves_gets)
  moreover have "preserves I (check_previous c l)"
    unfolding check_previous_def using Cons.prems by (intro preserves_intro)
  ultimately show ?case
    unfolding retry_loop.simps using Cons by (intro preserves_intro) simp_all
qed (simp add: preserves_pdone)

lemma preserves_send_signed: "rely c I \<Longrightarrow> preserves I (send_signed_labeled c k r label ixs kps)"
  by (cases kps)
    (auto simp: send_with_retry_def count_ix_def simp del: retry_loop.simps
      intro!: preserves_intro preserves_retry_loop split: rresult.split)

lemma preserves_ensure_atas: "rely c I \<Longrightarrow> preserves I (ensure_atas_for c k r reg kp)"
  unfolding ensure_atas_for_def by (intro preserves_intro preserves_send_signed)

section \<open>What discovery leaves behind\<close>

text \<open>An unpoisoned cache holds the listing that discovery worked from, unless it was empty.\<close>

lemma refresh_markets_caches:
  assumes "alone_but_for_signals c" "\<exists>e. markets_cache (shm s) = Healthy e"
    and "refresh_markets c y pid s = (Ok ms, s')"
  shows "ms \<noteq> [] \<longrightarrow> has_snapshot (shm s')"
proof -
  let ?I = "\<lambda>sh. \<exists>e. markets_cache sh = Healthy e"
  obtain f s1 where f: "fetch_markets c y pid s = (f, s1)" by fastforce
  have "rely c ?I" by (rule rely_alone [OF assms(1)]) simp
  then have "preserves ?I (fetch_markets c y pid :: ('a, 'b, _) prog)" by (rule preserves_fetch_markets)
  then have "?I (shm s1)" using assms(2) f unfolding preserves_def by (metis snd_conv)
  moreover have "sorted (map mv_address ms)" if "f = Ok ms" using f that fetch_markets_sorted by blast
  ultimately show ?thesis
    using assms(3) f
    by (cases f) (auto simp: refresh_markets_def markets_cache_put_def has_snapshot_def prog_run
        split: if_splits prod.splits)
qed

lemma discovery_caches:
  assumes "alone_but_for_signals c" "\<exists>e. markets_cache (shm s) = Healthy e"
    and "discover_from_markets c k y pid mp s = (Ok reg, s')"
  shows "reg \<noteq> [] \<longrightarrow> has_snapshot (shm s')"
proof -
  obtain q s1 where q: "refresh_markets c y pid s = (q, s1)" by fastforce
  have "rely c has_snapshot" by (rule rely_alone [OF assms(1)]) simp
  then have pres: "preserves has_snapshot (resolve_from_chain c k mp m :: ('a, 'b, _) prog)" for m
    unfolding resolve_from_chain_def Let_def by (intro preserves_intro)
  show ?thesis
  proof (cases q)
    case (Ok ms)
    note caches = refresh_markets_caches [OF assms(1,2) q [unfolded Ok]]
    show ?thesis
    proof (cases "ms = []")
      case False
      with caches pres assms(3) q Ok show ?thesis
        unfolding preserves_def
        by (auto simp: discover_from_markets_def pctx_def pbind_run pseq_run pdone_def split: rresult.splits)
          (metis snd_conv)
    qed (use assms(3) q Ok in \<open>auto simp: discover_from_markets_def pctx_def prog_run\<close>)
  qed (use assms(3) q in \<open>auto simp: discover_from_markets_def pctx_def prog_run\<close>)
qed

section \<open>From start-up to the exit\<close>

lemma preserves_pfor: "(\<And>x a. preserves I (f x a)) \<Longrightarrow> preserves I (pfor f xs a)"
  by (induction xs arbitrary: a) (auto intro: preserves_intro)

text \<open>The registry and the snapshot as start-up left them.\<close>

definition stocked :: "bank_registry \<Rightarrow> shared \<Rightarrow> bool" where
  "stocked reg sh \<longleftrightarrow> banks sh = Healthy reg \<and> wf_registry reg \<and> (reg \<noteq> [] \<longrightarrow> has_snapshot sh)"

lemma discovery_stocks:
  assumes "alone_but_for_signals c" "\<exists>e. markets_cache (shm s) = Healthy e"
    and "discover_banks_from_markets c k y cfg s = (Ok (), s')"
  shows "\<exists>reg. stocked reg (shm s')"
proof -
  obtain fresh s1 where d: "discover_from_markets c k y (cfg_program_id cfg) (cfg_marginfi_program_id cfg) s = (Ok fresh, s1)"
    and w: "write_banks (\<lambda>_. fresh) s1 = (Ok (), s')"
    using assms(3) by (auto simp: discover_banks_from_markets_def pbind_run split: prod.splits rresult.splits)
  have "shm s' = (shm s1)\<lparr>banks := Healthy fresh\<rparr>"
    using w by (auto simp: write_banks_def prog_run split: lock.splits)
  then have "stocked fresh (shm s')"
    using discovery_caches [OF assms(1,2) d] discover_from_markets_wf [OF d]
    by (simp add: stocked_def has_snapshot_def)
  then show ?thesis ..
qed

lemma begun_with:
  assumes "pbind (pctx x m) f s = (Ok b, s')"
    and "\<And>s1. m s = (Ok (), s1) \<Longrightarrow> \<exists>v. Q v (shm s1)" "\<And>v u. preserves (Q v) (f u)"
  shows "\<exists>v. Q v (shm s')"
proof -
  obtain q s1 where m: "m s = (q, s1)" by fastforce
  with assms(1) have q: "q = Ok ()" "f () s1 = (Ok b, s')"
    by (cases q; auto simp: pctx_def pbind_run pseq_run pdone_def)+
  with assms(2) m obtain v where "Q v (shm s1)" by blast
  with assms(3) q(2) show ?thesis unfolding preserves_def by (metis snd_conv)
qed

lemma started_stocked:
  assumes "alone_but_for_signals c" "shm s = initial_memory"
    and "main_boot c k y io default_id json env listeners queue fetched s = (Ok bt, s')"
  shows "\<exists>reg. stocked reg (shm s')"
proof -
  obtain cfg sg where boot: "boot c k y env cfg sg listeners queue fetched s = (Ok bt, s')"
    using assms(3) by (auto simp: main_boot_def pbind_run pdone_def split: rresult.splits)
  have rely: "rely c (stocked reg)" for reg by (rule rely_alone [OF assms(1)]) (simp add: stocked_def)
  show ?thesis
  proof (rule begun_with [OF boot [unfolded boot_def Let_def]])
    show "\<exists>reg. stocked reg (shm s1)" if "discover_banks_from_markets c k y cfg s = (Ok (), s1)" for s1
      using discovery_stocks [OF assms(1) _ that] assms(2) by (auto simp: initial_memory_def)
  qed (use rely in \<open>auto simp: banks_snapshot_def intro!: preserves_intro preserves_pfor preserves_ensure_atas\<close>)
qed

text \<open>
  C14. The shared data stays sound from start-up to the exit. If the bot starts and
  only signals interfere with start-up, then in every interleaving of the spawned tasks, with
  signals at any time, and at every moment, the registry is readable and well formed and
  holds every bank that start-up discovered, and where there was any, a non-empty sorted
  snapshot of the markets is in place.
\<close>

theorem bot_keeps_data:
  fixes c :: "'b client" and cs :: "'w client list"
  assumes "alone_but_for_signals c" "shm s = initial_memory"
    and "main_boot c k y io default_id json env listeners queue fetched s = (Ok bt, s')"
    and "launched k y disp bt cs pr" "memory (running pr) = shm s'" "program_step\<^sup>*\<^sup>* pr pr'"
  shows "\<exists>reg. banks (shm s') = Healthy reg \<and> knows (map_of reg) (memory (running pr')) \<and>
    (reg \<noteq> [] \<longrightarrow> has_snapshot (memory (running pr')))"
proof -
  obtain reg where reg: "stocked reg (shm s')" using started_stocked [OF assms(1-3)] by blast
  note tasks = launched_spawned [OF assms(4)] and run = program_run [OF assms(6)]
  have "knows (map_of reg) (memory (running pr'))"
  proof (rule process_invariant [where I = "knows (map_of reg)"])
    show "\<forall>t \<in> set (pending (running pr)). keeps_segments (knows (map_of reg)) t"
      using tasks spawned_keeps_registry by blast
  qed (use run reg assms(5) in \<open>simp_all add: stocked_def knows_def\<close>)
  moreover have "has_snapshot (memory (running pr'))" if "reg \<noteq> []"
  proof -
    have "healthy_data (map_of reg) (memory (running pr'))"
      using process_keeps_data [OF tasks, of "running pr'" "map_of reg"] run reg assms(5) that
      by (simp add: healthy_data_def stocked_def knows_def)
    then show ?thesis by (simp add: healthy_data_def)
  qed
  ultimately show ?thesis using reg by (auto simp: stocked_def)
qed

end
