(* ===== verification/Crank_Rounds.thy ===== *)
theory Crank_Rounds
  imports Supervisor
begin

text \<open>
  What a round of a handler cannot be stopped by: a failing candidate does not end the tick,
  so that a tick fails only where it lists its candidates; and what a round is stopped by:
  a fee payer whose balance is low.
\<close>

section \<open>Failing candidates\<close>

lemma never_err_case_option [handler_intro]:
  "never_err m \<Longrightarrow> (\<And>x. never_err (f x)) \<Longrightarrow> never_err (case x of None \<Rightarrow> m | Some x \<Rightarrow> f x)"
  by (cases x) auto

lemma never_err_Ok [handler_intro]: "never_err (pdone (Ok a))"
  by (simp add: never_err_pdone)

lemma pbind_Err:
  assumes "pbind m f s = (Err e, s')" "\<And>a. never_err (f a)"
  shows "m s = (Err e, s')"
  using assms by (auto simp: pbind_run never_err_def split: prod.splits rresult.splits) (metis fst_conv)+

lemma pbind_ErrE:
  assumes "pbind m f s = (Err e, s')"
  obtains "m s = (Err e, s')" | a s1 where "m s = (Ok a, s1)" "f a s1 = (Err e, s')"
  using assms by (auto simp: pbind_run split: prod.splits rresult.splits)

lemma promoter_loop_never_err: "never_err (promote_market c k y ctx m a)"
  unfolding promote_market_def
  by (cases a) (auto intro!: handler_intro promoter.loop_never_err)

lemma liquidator_loop_never_err:
  "never_err (if mv_is_paused m then pdone (Ok n)
     else ptry (liquidator_scan_market c k y ctx m) (\<lambda>n'. pdone (Ok (n + n'))) (\<lambda>e. pdone (Ok n)))"
  by (intro handler_intro)

lemma match_cranker_loop_never_err:
  "never_err (if mv_is_paused m then pdone (Ok n)
     else pseq (mc_scan_market c k y ctx m) (\<lambda>res. pdone (tally res n)))"
  by (intro handler_intro never_err_pdone) simp

lemma curator_loop_never_err: "never_err (curator_step c k y ctx reg sv a)"
  unfolding curator_step_def
  by (cases a) (auto intro!: handler_intro curator.attempt_one_never_err)

text \<open>
  C21. One bad candidate does not stop the others: whatever the node answers for a market, a
  loan, a pending entry or a claim, it never ends a tick with an error. The only errors a
  tick returns are those of listing its candidates: the markets for the promoter, the
  liquidator and the match cranker, the sub-vaults for the curator handler, and the
  sub-vaults, the markets or the pending claims for the claimer.
\<close>

theorem ticks_fail_only_in_listing:
  "(promoter_tick c k y ctx s1 = (Err e, s1') \<longrightarrow> list_markets c y (cfg_program_id (hc_cfg ctx)) s1 = (Err e, s1')) \<and>
   (liquidator_tick c k y ctx s2 = (Err e, s2') \<longrightarrow> list_markets c y (cfg_program_id (hc_cfg ctx)) s2 = (Err e, s2')) \<and>
   (match_cranker_tick c k y ctx s3 = (Err e, s3') \<longrightarrow> list_markets c y (cfg_program_id (hc_cfg ctx)) s3 = (Err e, s3')) \<and>
   (curator_tick c k y ctx s4 = (Err e, s4') \<longrightarrow> list_sub_vaults c y (cfg_program_id (hc_cfg ctx)) s4 = (Err e, s4')) \<and>
   (claimer_tick c k y ctx s5 = (Err e, s5') \<longrightarrow>
      list_sub_vaults c y (cfg_program_id (hc_cfg ctx)) s5 = (Err e, s5') \<or>
      (\<exists>s. list_markets c y (cfg_program_id (hc_cfg ctx)) s = (Err e, s5')) \<or>
      (\<exists>s ms. list_pending_vault_claims c y ms s = (Err e, s5')))"
proof (intro conjI impI)
  assume "promoter_tick c k y ctx s1 = (Err e, s1')"
  then show "list_markets c y (cfg_program_id (hc_cfg ctx)) s1 = (Err e, s1')"
    unfolding promoter_tick_def by (rule pbind_Err) (intro handler_intro promoter_loop_never_err)
next
  assume "liquidator_tick c k y ctx s2 = (Err e, s2')"
  then show "list_markets c y (cfg_program_id (hc_cfg ctx)) s2 = (Err e, s2')"
    unfolding liquidator_tick_def by (rule pbind_Err) (intro handler_intro)
next
  assume "match_cranker_tick c k y ctx s3 = (Err e, s3')"
  then show "list_markets c y (cfg_program_id (hc_cfg ctx)) s3 = (Err e, s3')"
    unfolding match_cranker_tick_def by (rule pbind_Err) (intro handler_intro never_err_pdone tally_not_Err)
next
  assume "curator_tick c k y ctx s4 = (Err e, s4')"
  then show "list_sub_vaults c y (cfg_program_id (hc_cfg ctx)) s4 = (Err e, s4')"
    unfolding curator_tick_def curator_scan_def
    by (auto simp: pdone_def split: if_splits elim!: pbind_Err intro!: handler_intro curator_loop_never_err)
next
  assume "claimer_tick c k y ctx s5 = (Err e, s5')"
  then show "list_sub_vaults c y (cfg_program_id (hc_cfg ctx)) s5 = (Err e, s5') \<or>
      (\<exists>s. list_markets c y (cfg_program_id (hc_cfg ctx)) s = (Err e, s5')) \<or>
      (\<exists>s ms. list_pending_vault_claims c y ms s = (Err e, s5'))"
    unfolding claimer_tick_def Let_def
  proof (elim pbind_ErrE)
    fix subs s
    assume "(if claimable subs = [] then pdone (Ok ()) else
        pbind (list_markets c y (cfg_program_id (hc_cfg ctx))) (\<lambda>markets.
        if markets = [] then pdone (Ok ())
        else pbind (list_pending_vault_claims c y markets) (\<lambda>claims.
        if to_sweep (claimable subs) claims = [] then pdone (Ok ())
        else pbind (pfor (attempt_one claimer_key (sweep_one c k y ctx)) (to_sweep (claimable subs) claims) 0)
               (\<lambda>_. pdone (Ok ()))))) s = (Err e, s5')"
    then have "pbind (list_markets c y (cfg_program_id (hc_cfg ctx))) (\<lambda>markets.
        if markets = [] then pdone (Ok ())
        else pbind (list_pending_vault_claims c y markets) (\<lambda>claims.
        if to_sweep (claimable subs) claims = [] then pdone (Ok ())
        else pbind (pfor (attempt_one claimer_key (sweep_one c k y ctx)) (to_sweep (claimable subs) claims) 0)
               (\<lambda>_. pdone (Ok ())))) s = (Err e, s5')"
      by (simp add: pdone_def split: if_splits)
    then show ?thesis
    proof (cases rule: pbind_ErrE)
      case (2 markets s')
      then have "pbind (list_pending_vault_claims c y markets) (\<lambda>claims.
        if to_sweep (claimable subs) claims = [] then pdone (Ok ())
        else pbind (pfor (attempt_one claimer_key (sweep_one c k y ctx)) (to_sweep (claimable subs) claims) 0)
               (\<lambda>_. pdone (Ok ()))) s' = (Err e, s5')"
        by (simp add: pdone_def split: if_splits)
      then have "list_pending_vault_claims c y markets s' = (Err e, s5')"
        by (rule pbind_Err) (intro handler_intro claimer.loop_never_err)
      then show ?thesis by blast
    qed blast
  qed blast
qed

section \<open>Pauses\<close>

lemma keeps_sleep_until: "keeps_own (sleep_until_or_stop c fuel d)"
proof -
  have "keeps_own (sleep_to c fuel d)" for d
    by (induction fuel) (auto intro!: keeps_intro)
  then show ?thesis unfolding sleep_until_or_stop_def by (intro keeps_intro)
qed

text \<open>
  C22. Low balance pauses the fee-payer handlers: from a state with the flag set, and as long
  as the other tasks leave it set, any number of rounds only counts pauses, and the run
  ends without an error. A handler with its own payer, the curator claimer, ticks all the
  same.
\<close>

theorem low_balance_pauses:
  fixes c :: "'w client" and h :: "('w, 'h) handler"
  assumes "fee_payer_low (shm s)"
  shows "(requires_fee_payer h \<longrightarrow> rely c fee_payer_low \<longrightarrow>
      (\<exists>n \<le> rounds. \<exists>b s'. supervise c disp h interval fuel rounds s = (Ok b, s') \<and> own s' = own s \<and>
         trace s' = trace s @ replicate n (EvTick (handler_name h) ''paused_low_balance''))) \<and>
    (\<not> requires_fee_payer h \<longrightarrow> tick h s = (Ok (), s1) \<longrightarrow>
      supervise_round disp h s = (Ok (), s1\<lparr>steps := steps s1 @ [Did (EvTick (handler_name h) ''ok'')]\<rparr>))"
proof (intro conjI impI)
  assume h: "requires_fee_payer h" and rely: "rely c fee_payer_low"
  show "\<exists>n \<le> rounds. \<exists>b s'. supervise c disp h interval fuel rounds s = (Ok b, s') \<and> own s' = own s \<and>
         trace s' = trace s @ replicate n (EvTick (handler_name h) ''paused_low_balance'')"
    using assms
  proof (induction rounds arbitrary: s)
    case (Suc rounds)
    let ?s = "s\<lparr>steps := steps s @ [Did (EvTick (handler_name h) ''paused_low_balance'')]\<rparr>"
    have round: "supervise_round disp h s = (Ok (), ?s)"
      using Suc.prems h by (simp add: supervise_round_def prog_run)
    obtain q s2 where sl: "sleep_until_or_stop c fuel interval ?s = (q, s2)" by fastforce
    have "trace s2 = trace ?s" using emitsD [OF silent_sleep_until [unfolded silent_def] sl] by simp
    moreover have "own s2 = own ?s"
      using keeps_sleep_until [of c fuel interval, unfolded keeps_own_def, rule_format, of ?s] sl by simp
    moreover have "fee_payer_low (shm s2)"
      using preserves_sleep_until [OF rely, of fuel interval, unfolded preserves_def, rule_format, of ?s]
        sl Suc.prems by simp
    moreover have "supervise c disp h interval fuel (Suc rounds) s = (if stop (shm s) then (Ok True, s) else
        (case q of None \<Rightarrow> (Ok False, s2) | Some True \<Rightarrow> (Ok True, s2)
         | Some False \<Rightarrow> supervise c disp h interval fuel rounds s2))"
      using round sl by (auto simp: prog_run split: option.split bool.split)
    ultimately show ?case
    proof (cases "stop (shm s) \<or> q \<noteq> Some False")
      case True
      then show ?thesis
        using \<open>trace s2 = trace ?s\<close> \<open>own s2 = own ?s\<close> \<open>supervise c disp h interval fuel (Suc rounds) s = _\<close>
        by (cases "stop (shm s)"; cases q) (auto intro: exI [of _ 0] exI [of _ "Suc 0"])
    next
      case False
      obtain n b s' where "n \<le> rounds" "supervise c disp h interval fuel rounds s2 = (Ok b, s')" "own s' = own s2"
        "trace s' = trace s2 @ replicate n (EvTick (handler_name h) ''paused_low_balance'')"
        using Suc.IH [OF \<open>fee_payer_low (shm s2)\<close>] by blast
      with False \<open>trace s2 = trace ?s\<close> \<open>own s2 = own ?s\<close> \<open>supervise c disp h interval fuel (Suc rounds) s = _\<close>
      show ?thesis by (intro exI [of _ "Suc n"]) simp
    qed
  qed (auto simp: pdone_def)
qed (use assms in \<open>auto simp: supervise_round_def prog_run\<close>)

section \<open>Token balances\<close>

text \<open>What the gauge shows of an account: zero where it is absent or not a token account.\<close>

definition token_balance :: "account option \<Rightarrow> u64" where
  "token_balance acct = (case Option.bind acct (\<lambda>a. spl_token_amount (acct_data a)) of None \<Rightarrow> 0 | Some n \<Rightarrow> n)"

lemma map_of_updates:
  assumes "distinct (map fst rows)"
  shows "map_of (fold (\<lambda>(i, mint, ata). AList.update mint (g i)) (List.enumerate n rows) acc) =
    map_of acc ++ map_of (map (\<lambda>(i, mint, ata). (mint, g i)) (List.enumerate n rows))"
  using assms
proof (induction rows arbitrary: n acc)
  case (Cons row rows)
  obtain mint ata where row: "row = (mint, ata)" by (cases row)
  let ?new = "map (\<lambda>(i, mint, ata). (mint, g i)) (List.enumerate (Suc n) rows)"
  have "map fst ?new = map fst (map snd (List.enumerate (Suc n) rows))"
    by (simp add: case_prod_beta comp_def del: map_snd_enumerate)
  then have "fst ` set ?new = fst ` set rows" by (metis list.set_map map_snd_enumerate)
  then have "mint \<notin> fst ` set ?new" using Cons.prems by (simp add: row)
  then have "map_of (map (\<lambda>(i, mint, ata). (mint, g i)) (List.enumerate (Suc n) rows)) mint = None"
    by (simp add: map_of_eq_None_iff)
  then show ?case
    using Cons by (auto simp: row update_conv' fun_eq_iff map_add_def split: option.split)
qed simp

lemma new_balances_correct:
  assumes "distinct (map fst reg)"
  shows "map_of (new_balances (map (\<lambda>(mint, b). (mint, g b)) reg) (map (\<lambda>(mint, b). f (g b)) reg)) =
    map_option (\<lambda>b. token_balance (f (g b))) \<circ> map_of reg"
proof -
  let ?entries = "map (\<lambda>(mint, b). (mint, g b)) reg" and ?accts = "map (\<lambda>(mint, b). f (g b)) reg"
  let ?val = "\<lambda>i. case (if i < length ?accts then ?accts ! i else None) of None \<Rightarrow> 0
      | Some a \<Rightarrow> (case spl_token_amount (acct_data a) of None \<Rightarrow> 0 | Some n \<Rightarrow> n)"
  have "map fst ?entries = map fst reg" by (simp add: comp_def case_prod_beta)
  then have dis: "distinct (map fst ?entries)" using assms by (simp only:)
  have "map_of (new_balances ?entries ?accts) =
      map_of (map (\<lambda>(i, mint, ata). (mint, ?val i)) (List.enumerate 0 ?entries))"
    unfolding new_balances_def by (subst map_of_updates [OF dis]) simp
  also have "map (\<lambda>(i, mint, ata). (mint, ?val i)) (List.enumerate 0 ?entries) =
      map (\<lambda>(mint, b). (mint, token_balance (f (g b)))) reg"
    by (rule nth_equalityI)
      (auto simp: nth_enumerate_eq case_prod_beta token_balance_def split: option.split)
  finally show ?thesis by (simp add: map_of_map fun_eq_iff)
qed

text \<open>
  C36. The balance gauge shows the node's balances: when the node answers every read with one
  entry per key, a round over a well-formed registry succeeds and leaves exactly one balance
  per registered mint, the amount in the fee payer's account for that mint, or zero where
  there is no such token account.
\<close>

theorem token_balances_track:
  fixes c :: "'w client" and s :: "('w, 'h) sys"
  assumes answers: "\<And>ks w. fst (c_get_multiple_accounts c ks w) = Inr (map f ks)"
    and order: "set order = {i. i * CHUNK_SIZE < length reg}"
    and reg: "banks (shm s) = Healthy reg" "wf_registry reg" "reg \<noteq> []"
    and run: "ata_balance_round c k sg order s = (r, s')"
  shows "r = Ok () \<and> (\<forall>bal. ata_balances (shm s') = Healthy bal \<longrightarrow>
    map_of bal = map_option (\<lambda>b. token_balance (f (ata_for k b (kp_pubkey k (fee_payer sg))))) \<circ> map_of reg)"
proof -
  let ?ata = "\<lambda>b. ata_for k b (kp_pubkey k (fee_payer sg))"
  let ?entries = "map (\<lambda>(mint, b). (mint, ?ata b)) reg"
  have d: "distinct (map fst reg)" using reg(2) by (simp add: wf_registry_def)
  have "rmap (\<lambda>mint. rbind (or_panic (registry_get reg mint)) (\<lambda>bank. Ok (mint, ?ata bank))) (map fst reg) =
      Ok (map (\<lambda>mint. (mint, ?ata (the (map_of reg mint)))) (map fst reg))"
    using d by (intro rmap_Ok) (auto simp: registry_get_def)
  also have "map (\<lambda>mint. (mint, ?ata (the (map_of reg mint)))) (map fst reg) = ?entries"
    using d by (auto simp: case_prod_beta)
  finally have rows: "rmap (\<lambda>mint. rbind (or_panic (registry_get reg mint)) (\<lambda>bank. Ok (mint, ?ata bank)))
      (map fst reg) = Ok ?entries" .
  obtain E where E: "E = ?entries" by simp
  obtain s1 where b: "batch_get_multiple_accounts c order (map snd E) s = (Ok (map f (map snd E)), s1)"
    using batch_any_order [of c f order "map snd E" s, OF answers] order E by (metis length_map prod.collapse)
  have accts: "map f (map snd E) = map (\<lambda>(mint, b). f (?ata b)) reg" by (simp add: E case_prod_beta comp_def)
  have nb: "map_of (new_balances E (map f (map snd E))) = map_option (\<lambda>b. token_balance (f (?ata b))) \<circ> map_of reg"
    unfolding accts unfolding E by (rule new_balances_correct [OF d])
  have "E \<noteq> []" using reg(3) E by simp
  then show ?thesis
    using run nb
    by (auto simp: ata_balance_round_def banks_snapshot_def prog_run reg(1) rows [folded E] b simp del: map_map
        split: lock.splits)
qed

end
