(* ===== verification/Crank_Witnesses.thy ===== *)
theory Crank_Witnesses
  imports Crank_Life Crank_Rounds
begin

text \<open>
  Concrete instances of the external crates, and the theorems of the other theories at
  concrete inputs: a clock-driven client whose calls fail unless an instance overrides
  them, an SDK whose public key is the secret, an account layout of one byte, and a
  registry of one bank. Each theorem with a hypothesis is applied to a run in which the
  hypothesis holds.
\<close>

section \<open>Sample instances\<close>

definition key :: "nat \<Rightarrow> pubkey" where
  "key n = Pubkey (replicate 32 (word_of_nat n))"

definition down :: client_error where
  "down = ClientError IoError ''down''"

text \<open>The world is the clock, in nanoseconds.\<close>

definition sample_client :: "nat client" where
  "sample_client =
     \<lparr>c_get_account = \<lambda>pk w. (Inl down, w),
      c_get_multiple_accounts = \<lambda>ks w. (Inl down, w),
      c_get_program_accounts = \<lambda>pid fs w. (Inl down, w),
      c_get_latest_blockhash = \<lambda>w. (Inr [9], w),
      c_get_signature_statuses = \<lambda>sigs w. (Inl down, w),
      c_send_and_confirm = \<lambda>tx w. (Inr [1], w),
      c_simulate = \<lambda>tx w. (Inl down, w),
      c_get_slot = \<lambda>w. (Inr 5, w),
      c_get_balance = \<lambda>pk w. (Inl down, w),
      c_sleep = \<lambda>n w. w + n,
      c_instant = \<lambda>w. (w, w),
      c_unix_secs = \<lambda>w. (Some 0, w),
      c_fetch_update = \<lambda>feeds payer g w. (Inl ''down'', w),
      c_interfere = \<lambda>w sh. sh\<rparr>"

definition sample_ix :: instruction where
  "sample_ix = \<lparr>ix_program_id = key 1, ix_accounts = [], ix_data = []\<rparr>"

definition sample_sdk :: sdk where
  "sample_sdk =
     \<lparr>set_compute_unit_limit = \<lambda>n. sample_ix\<lparr>ix_data := to_le_bytes n\<rparr>,
      set_compute_unit_price = \<lambda>n. sample_ix\<lparr>ix_data := to_le_bytes n\<rparr>,
      find_program_address = \<lambda>seeds pid. (key 11, 255),
      create_program_address = \<lambda>seeds pid. Inr (key 12),
      new_signed_with_payer = \<lambda>ixs payer kps bh. Some [[1]],
      v0_try_compile = \<lambda>payer ixs luts bh. Inr 1,
      v0_try_sign = \<lambda>payer ixs luts bh kps. Inr [[1]],
      kp_pubkey = \<lambda>kp. Pubkey (kp_bytes kp),
      base64_decode = \<lambda>tok. None,
      pubkey_from_str = \<lambda>s. if s = [] then None else if s = ''m'' then Some (key 6) else Some (key 13),
      system_program_id = key 0\<rparr>"

definition sample_market :: market_fixed where
  "sample_market =
     \<lparr>mf_discriminator = 1, mf_debt_mint = key 7, mf_collateral_mint = key 8,
      mf_debt_lending_pool = key 17, mf_collateral_lending_pool = key 18, mf_is_paused = 0,
      mf_admin = key 2, mf_grace_period_seconds = 60, mf_liquidation_keeper_bps = 100,
      mf_liquidation_protocol_bps = 50, mf_matched_loans_root_index = 5,
      mf_claimed_seats_root_index = 3, mf_asks_root_index = 1, mf_asks_best_index = 1,
      mf_bids_best_index = 2\<rparr>"

definition sample_seat :: claimed_seat where
  "sample_seat =
     \<lparr>seat_owner = key 20, seat_owner_kind = 1, seat_sub_vault_id = 4,
      seat_debt_withdrawable_shares = 700\<rparr>"

text \<open>The rate of an order is 100 times its node index: bids at 200, asks at 100.\<close>

definition sample_order :: "u32 \<Rightarrow> resting_order" where
  "sample_order i =
     \<lparr>ro_trader_seat_index = 3, ro_sequence_number = 1, ro_side = 0,
      ro_rate_bps = 100 * ucast i, ro_term_seconds = 3600, ro_principal_atoms = 1000\<rparr>"

definition sample_ydelta :: ydelta where
  "sample_ydelta =
     \<lparr>MARKET_FIXED_SIZE = 1, LOAN_FIXED_SIZE = 1, GLOBAL_VAULT_FIXED_SIZE = 1,
      MARKET_FIXED_DISCRIMINANT = 1, LOAN_FIXED_DISCRIMINANT = 2,
      GLOBAL_VAULT_FIXED_DISCRIMINANT = 3, NIL = - 1, LoanState_Active = 0, LoanState_Repaid = 1,
      LoanType_P2Pool = 1, OWNER_KIND_SUB_VAULT = 1, MATCHED_LOAN_FLAG_VAULT_LENDER = 1,
      MATCHED_LOAN_FLAG_VAULT_PRESETTLED = 2, MatchCrankLog_discriminant = replicate 8 42,
      cast_market = \<lambda>b. Some (sample_market\<lparr>mf_discriminator := ucast (hd b)\<rparr>),
      cast_loan = \<lambda>b. None, cast_global_vault = \<lambda>b. None,
      iter_matched_loans = \<lambda>d root nl. Some [],
      iter_claimed_seats = \<lambda>d root nl. Some [(3, sample_seat)],
      iter_sub_vaults = \<lambda>d root nl. Some [], iter_orders = \<lambda>d root best. Some [],
      get_helper_seat = \<lambda>d i. Some sample_seat, get_helper_order = \<lambda>d i. Some (sample_order i),
      build_ix = \<lambda>call. sample_ix, global_vault_pda = \<lambda>bank. (key 20, 255),
      global_vault_signer_pda = \<lambda>v. (key 21, 255), global_vault_staging_pda = \<lambda>v. (key 22, 255),
      global_vault_integration_account_pda = \<lambda>v. (key 23, 255),
      get_vault_address = \<lambda>m mint. (key 24, 255),
      get_lender_integration_account_address = \<lambda>m. (key 25, 255),
      get_market_signer_address = \<lambda>m. (key 26, 255)\<rparr>"

definition sample_keypair :: keypair where
  "sample_keypair = Keypair (replicate 32 30)"

definition sample_rpc :: rpc where
  "sample_rpc = \<lparr>priority_fee_micro_lamports = 1000, compute_unit_limit = 400000, stop_wired = True\<rparr>"

definition sample_shared :: shared where
  "sample_shared =
     \<lparr>stop = False, fee_payer_low = False, banks = Healthy [], markets_cache = Healthy None,
      ata_balances = Healthy []\<rparr>"

definition start :: "'h \<Rightarrow> (nat, 'h) sys" where
  "start h = \<lparr>world = 0, shm = sample_shared, own = h, steps = []\<rparr>"

lemmas samples = key_def down_def sample_client_def sample_ix_def sample_sdk_def sample_market_def
  sample_seat_def sample_order_def sample_ydelta_def sample_keypair_def sample_rpc_def
  sample_shared_def start_def

section \<open>Submission and batch reads\<close>

definition batch_client :: "nat client" where
  "batch_client = sample_client\<lparr>c_get_multiple_accounts :=
     \<lambda>ks w. (Inr (map (\<lambda>pk. Some \<lparr>acct_data = to_bytes pk, acct_owner = key 1\<rparr>) ks), w)\<rparr>"

text \<open>Two chunks, the second one joined first.\<close>

theorem batch_read_any_order_witness:
  "fst (batch_get_multiple_accounts batch_client [1, 0] (map key [0..<150]) (start ()))
     = Ok (map (\<lambda>pk. Some \<lparr>acct_data = to_bytes pk, acct_owner = key 1\<rparr>) (map key [0..<150]))"
proof (rule batch_read_any_order)
  show "set [1, 0] = {i. i * CHUNK_SIZE < length (map key [0..<150])}"
    by (auto simp: CHUNK_SIZE_def simp del: upt_rec_numeral)
qed (simp add: batch_client_def)

text \<open>A node that never answers a submission: three sends, two pauses, two status queries.\<close>

definition deaf_client :: "nat client" where
  "deaf_client = sample_client\<lparr>c_send_and_confirm := \<lambda>tx w. (Inl down, w)\<rparr>"

theorem send_v0_bounded_retry_witness:
  "\<exists>es. trace (snd (send_signed_v0_labeled deaf_client sample_sdk sample_rpc ''x'' [sample_ix] []
        [sample_keypair] (start ()))) = es \<and> length (sends es) = 3 \<and> length (sends es) \<le> 3 \<and>
     last es = EvIxMetric ''x'' False"
proof -
  let ?run = "send_signed_v0_labeled deaf_client sample_sdk sample_rpc ''x'' [sample_ix] []
        [sample_keypair] (start ())"
  have "length (sends (trace (snd ?run))) \<le> 3"
    using send_v0_bounded_retry [of deaf_client sample_sdk sample_rpc "''x''" "[sample_ix]" "[]"
        sample_keypair "[]"]
    by (auto simp: emits_def start_def dest: spec [where x = "start ()"])
  moreover have "length (sends (trace (snd ?run))) = 3" "last (trace (snd ?run)) = EvIxMetric ''x'' False"
    by (simp_all add: send_v0_with_retry_def count_ix_def stopped_def check_previous_def v0_tx_def
        first_signature.simps deaf_client_def samples prog_run)
  ultimately show ?thesis by simp
qed

definition landed_client :: "nat client" where
  "landed_client = sample_client\<lparr>c_get_signature_statuses :=
     \<lambda>sigs w. (Inr [Some (TxStatus (Some ''InstructionError''))], w)\<rparr>"

theorem landed_failure_reported_ok_witness:
  "fst (retry_loop landed_client sample_rpc (legacy_tx sample_sdk [sample_ix] (key 1) [sample_keypair])
      [1, 2] (Some [1]) (start ())) = Ok [1]"
  using landed_failure_reported_ok [of "start ()" landed_client "[1]" "Inr [Some (TxStatus (Some ''InstructionError''))]" 0
      sample_rpc "legacy_tx sample_sdk [sample_ix] (key 1) [sample_keypair]" 1 "[2]"]
  by (simp add: landed_client_def samples)

section \<open>Chain reads\<close>

text \<open>A genuine account between a short and a foreign one.\<close>

theorem decode_markets_correct_witness:
  "\<exists>ms. decode_markets sample_ydelta
      [(key 5, \<lparr>acct_data = [], acct_owner = key 1\<rparr>), (key 4, \<lparr>acct_data = [1, 0], acct_owner = key 1\<rparr>),
       (key 3, \<lparr>acct_data = [9], acct_owner = key 1\<rparr>)] = Ok ms \<and>
     sorted (map mv_address ms) \<and> mset ms = {# market_view_from_fixed (key 4) sample_market #}"
  using decode_markets_correct [of sample_ydelta
      "[(key 5, \<lparr>acct_data = [], acct_owner = key 1\<rparr>), (key 4, \<lparr>acct_data = [1, 0], acct_owner = key 1\<rparr>),
       (key 3, \<lparr>acct_data = [9], acct_owner = key 1\<rparr>)]"]
  by (simp add: sample_ydelta_def sample_market_def)

definition sample_view :: market_view where
  "sample_view = market_view_from_fixed (key 4) sample_market"

text \<open>A stale snapshot survives an empty answer of the node.\<close>

definition empty_client :: "nat client" where
  "empty_client = sample_client\<lparr>c_get_program_accounts := \<lambda>pid fs w. (Inr [], w)\<rparr>"

definition stale :: "(nat, unit) sys" where
  "stale = (start ())\<lparr>world := 40 * 10 ^ 9, shm := sample_shared\<lparr>markets_cache :=
     Healthy (Some \<lparr>fetched_at = 0, cached_markets = [sample_view]\<rparr>)\<rparr>\<rparr>"

theorem list_markets_never_wiped_witness:
  "fst (list_markets empty_client sample_ydelta (key 1) stale) = Ok [sample_view] \<and>
   has_snapshot (shm (snd (list_markets empty_client sample_ydelta (key 1) stale)))"
proof -
  have run: "fst (list_markets empty_client sample_ydelta (key 1) stale) = Ok [sample_view]"
    by (simp add: list_markets_def markets_cache_get_def markets_cache_stale_def fetch_markets_def
        program_accounts_def decode_markets_def MARKET_CACHE_TTL_def stale_def empty_client_def
        sample_client_def sample_shared_def start_def prog_run)
  have "rely empty_client has_snapshot" by (simp add: rely_def empty_client_def sample_client_def)
  moreover have "has_snapshot (shm stale)" by (simp add: has_snapshot_def stale_def)
  ultimately show ?thesis using list_markets_never_wiped [OF _ _ prod.collapse [symmetric]] run by blast
qed

definition market_client :: "nat client" where
  "market_client = sample_client\<lparr>c_get_account :=
     \<lambda>pk w. (Inr \<lparr>acct_data = [1, 0], acct_owner = key 1\<rparr>, w)\<rparr>"

lemma sample_claims:
  "list_pending_vault_claims market_client sample_ydelta [sample_view] (start ()) =
     (Ok [\<lparr>pc_market = key 4, pc_debt_mint = key 7, pc_debt_bank = key 17,
           pc_lender_global_vault = key 20, pc_sub_vault_id = 4, pc_debt_withdrawable_shares = 700\<rparr>], (start ())\<lparr>steps := [Switched sample_shared sample_shared]\<rparr>)"
  by (simp add: list_pending_vault_claims_def claims_of_market_def split_market_def decode_market_fixed_def
      get_account_data_def sample_view_def market_view_from_fixed_def market_client_def sample_client_def
      sample_ydelta_def sample_market_def sample_seat_def start_def sample_shared_def prog_run)

theorem pending_claims_sound_witness:
  "\<exists>rows row. fst (list_pending_vault_claims market_client sample_ydelta [sample_view] (start ())) = Ok rows \<and>
     row \<in> set rows \<and> pc_debt_withdrawable_shares row \<noteq> 0 \<and> pc_debt_bank row = mv_debt_bank sample_view"
  using pending_claims_sound [OF sample_claims] by (simp add: sample_claims)

theorem rate_crossed_correct_witness:
  "fst (market_is_rate_crossed market_client sample_ydelta (key 4) (start ())) = Ok True"
proof -
  have "fst (market_is_rate_crossed market_client sample_ydelta (key 4) (start ())) =
    Ok (mf_bids_best_index sample_market \<noteq> NIL sample_ydelta \<and> mf_asks_best_index sample_market \<noteq> NIL sample_ydelta \<and>
        unat (ro_rate_bps (sample_order 1)) \<le> unat (ro_rate_bps (sample_order 2)))"
    by (rule rate_crossed_correct [where acct = "\<lparr>acct_data = [1, 0], acct_owner = key 1\<rparr>" and w = 0])
      (simp_all add: market_client_def sample_client_def start_def decode_market_fixed_def sample_ydelta_def
        sample_market_def)
  then show ?thesis by (simp add: sample_market_def sample_ydelta_def sample_order_def)
qed

section \<open>Banks\<close>

definition sample_bank :: bank_info where
  "sample_bank =
     \<lparr>bi_mint = key 7, bi_bank = key 17, bi_liquidity_vault = key 9, bi_liquidity_vault_authority = key 12,
      bi_oracles = [key 5], bi_token_program = spl_token_legacy_id, bi_oracle_setup = 4\<rparr>"

lemma wf_sample_bank: "wf_info (key 7) sample_bank"
  by (simp add: wf_info_def sample_bank_def)

lemma sample_bank_decodes:
  "try_from_account_data (BANK_DISCRIMINATOR @ encode_bank sample_layout) = Ok (view_of_layout sample_layout)"
proof -
  have "length BANK_DISCRIMINATOR = 8" by (simp add: BANK_DISCRIMINATOR_def)
  then show ?thesis
    using length_encode_bank [OF wf_sample_layout] read_body_encode [OF wf_sample_layout]
    by (simp add: try_from_account_data_eq)
qed

lemma sample_layout_view:
  "bv_mint (view_of_layout sample_layout) = key 7" "bv_liquidity_vault (view_of_layout sample_layout) = key 9"
  "bv_oracles (view_of_layout sample_layout) = [key 5]" "bv_oracle_setup (view_of_layout sample_layout) = 4"
  by (simp_all add: view_of_layout_def sample_layout_def key_def default_pubkey_def)

text \<open>The chain with one bank and its mint.\<close>

definition chain_entry :: "pubkey \<Rightarrow> account option" where
  "chain_entry pk =
     (if pk = key 17 then Some \<lparr>acct_data = BANK_DISCRIMINATOR @ encode_bank sample_layout, acct_owner = key 6\<rparr>
      else if pk = key 7 then Some \<lparr>acct_data = [], acct_owner = spl_token_legacy_id\<rparr>
      else None)"

definition bank_client :: "nat client" where
  "bank_client = sample_client\<lparr>
     c_get_multiple_accounts := \<lambda>ks w. (Inr (map chain_entry ks), w),
     c_get_program_accounts := \<lambda>pid fs w. (Inr [(key 4, \<lparr>acct_data = [1, 0], acct_owner = key 1\<rparr>)], w)\<rparr>"

lemma key_eq: "key m = key n \<longleftrightarrow> m mod 256 = n mod 256"
  by (simp add: key_def word_of_nat_eq_iff take_bit_eq_mod)

lemma chain_entries:
  "chain_entry (key 17) = Some \<lparr>acct_data = BANK_DISCRIMINATOR @ encode_bank sample_layout, acct_owner = key 6\<rparr>"
  "chain_entry (key 7) = Some \<lparr>acct_data = [], acct_owner = spl_token_legacy_id\<rparr>"
  "chain_entry (key 11) = None"
  by (simp_all add: chain_entry_def key_eq)

lemma sample_resolves:
  "resolve_from_chain bank_client sample_sdk (key 6) [(key 7, key 17)] s
     = (Ok [(key 7, sample_bank)], s\<lparr>steps := steps s @ [Switched (shm s) (shm s), Switched (shm s) (shm s)]\<rparr>)"
  by (simp add: resolve_from_chain_def check_bank_def check_mint_def index_or_panic_def chain_entries
      sample_bank_decodes sample_layout_view sample_bank_def bank_client_def sample_client_def sample_sdk_def
      enumerate_simps prog_run)

theorem resolved_registry_wf_witness:
  "wf_registry [(key 7, sample_bank)] \<and>
   set (map (\<lambda>(mint, b). (mint, bi_bank b)) [(key 7, sample_bank)]) = set [(key 7, key 17)]"
  by (rule resolved_registry_wf [OF sample_resolves [of "start ()"]]) simp

text \<open>The chain now reports another bank for a known mint, and a new mint.\<close>

theorem merge_never_overwrites_witness:
  "registry_get (merge_from [(key 7, sample_bank)]
      [(key 7, sample_bank\<lparr>bi_bank := key 99\<rparr>), (key 8, sample_bank\<lparr>bi_mint := key 8\<rparr>)]) (key 7) = Some sample_bank"
proof -
  have "wf_registry [(key 7, sample_bank)]" by (simp add: wf_registry_def wf_sample_bank)
  moreover have "wf_registry [(key 7, sample_bank\<lparr>bi_bank := key 99\<rparr>), (key 8, sample_bank\<lparr>bi_mint := key 8\<rparr>)]"
    by (simp add: wf_registry_def wf_info_def sample_bank_def key_eq)
  ultimately show ?thesis using merge_never_overwrites by (simp add: registry_get_def)
qed

definition single_mint_ydelta :: ydelta where
  "single_mint_ydelta = sample_ydelta\<lparr>cast_market := \<lambda>b. Some
     (sample_market\<lparr>mf_collateral_mint := key 7, mf_collateral_lending_pool := key 17\<rparr>)\<rparr>"

definition sample_handlers :: handlers_config where
  "sample_handlers =
     \<lparr>promoter_enabled = True, claimer_enabled = True, liquidator_enabled = True,
      curator_fee_claimer_enabled = True, match_cranker_enabled = False, promoter_interval = 5,
      claimer_interval = 30, liquidator_interval = 10, curator_fee_claimer_interval = 3600,
      match_cranker_interval = 15, match_cranker_max_fills = 8\<rparr>"

definition sample_config :: config where
  "sample_config =
     \<lparr>cfg_network = Localhost, cfg_rpc_url = ''http://localhost:8899'', cfg_program_id = key 1,
      cfg_marginfi_program_id = key 6, cfg_marginfi_group = key 19,
      cfg_fee_payer_keypair = PathSource ''id.json'', cfg_fee_payer_expected_pubkey = Some (key 30),
      cfg_handlers = sample_handlers,
      cfg_thresholds = \<lparr>min_liquidation_profit_atoms = 1000000, maturity_extra_buffer = 30,
        min_curator_fee_claim_atoms = 100000\<rparr>,
      cfg_priority_fee_micro_lamports = 1000, cfg_compute_unit_limit = 400000,
      cfg_min_signer_balance_lamports = 50000000, cfg_banks_refresh_interval = 300,
      cfg_curator_keypairs_base58 = [''curator'']\<rparr>"

definition other_bank :: bank_info where
  "other_bank = sample_bank\<lparr>bi_bank := key 99\<rparr>"

definition with_banks :: "bank_registry \<Rightarrow> (nat, 'h) sys \<Rightarrow> (nat, 'h) sys" where
  "with_banks reg s = s\<lparr>shm := (shm s)\<lparr>banks := Healthy reg\<rparr>\<rparr>"

theorem refresh_banks_keeps_known_witness:
  "knows [key 7 \<mapsto> other_bank] (shm (snd (refresh_banks bank_client sample_sdk single_mint_ydelta sample_config
      (with_banks [(key 7, other_bank)] (start ())))))"
proof -
  have "rely bank_client (knows [key 7 \<mapsto> other_bank])"
    by (simp add: rely_def bank_client_def sample_client_def)
  moreover have "knows [key 7 \<mapsto> other_bank] (shm (with_banks [(key 7, other_bank)] (start ())))"
    using wf_sample_bank by (simp add: knows_def with_banks_def wf_registry_def other_bank_def wf_info_def)
  ultimately show ?thesis by (rule refresh_banks_keeps_known [OF _ _ prod.collapse [symmetric]])
qed

text \<open>The token account of the one bank is missing and is created.\<close>

theorem ensure_atas_creates_missing_witness:
  "\<exists>tx. EvSend tx \<in> set (trace (snd (ensure_atas_for bank_client sample_sdk sample_rpc
        [(key 7, sample_bank)] sample_keypair (start ())))) \<and>
     tx_ixs tx = priority_fee_preamble sample_sdk sample_rpc (compute_unit_limit sample_rpc) @
       [create_ix sample_sdk sample_keypair (key 7, key 11, spl_token_legacy_id)]"
proof -
  let ?run = "ensure_atas_for bank_client sample_sdk sample_rpc [(key 7, sample_bank)] sample_keypair (start ())"
  have row: "derived_atas sample_sdk sample_keypair [(key 7, sample_bank)] = [(key 7, key 11, spl_token_legacy_id)]"
    by (simp add: derived_atas_def ata_for_def sample_bank_def sample_sdk_def)
  have read: "c_get_multiple_accounts bank_client [key 11] (world (start ())) = (Inr [None], 0)"
    by (simp add: bank_client_def chain_entries start_def)
  have "\<exists>tx. EvSend tx \<in> set (trace (snd ?run))"
    unfolding ensure_atas_for_def row
    by (simp add: missing_atas_def index_or_panic_def send_with_retry_def count_ix_def
        stopped_def check_previous_def legacy_tx_def first_signature.simps bank_client_def chain_entries
        sample_client_def sample_rpc_def sample_sdk_def sample_shared_def start_def enumerate_simps prog_run)
  moreover have "\<exists>es. trace (snd ?run) = trace (start ()) @ es \<and>
    ([(key 7, key 11, spl_token_legacy_id)] = [] \<longrightarrow> es = [] \<and> fst ?run = Ok ()) \<and>
    (\<forall>tx. EvSend tx \<in> set es \<longrightarrow>
       tx_ixs tx = priority_fee_preamble sample_sdk sample_rpc (compute_unit_limit sample_rpc) @
         map (create_ix sample_sdk sample_keypair) [(key 7, key 11, spl_token_legacy_id)] \<and>
       tx_payer tx = kp_pubkey sample_sdk sample_keypair \<and>
       map (\<lambda>ix. meta_pubkey (ix_accounts ix ! 1))
         (map (create_ix sample_sdk sample_keypair) [(key 7, key 11, spl_token_legacy_id)])
         = map (fst \<circ> snd) [(key 7, key 11, spl_token_legacy_id)])"
    by (rule ensure_atas_creates_missing [OF _ _ prod.collapse [symmetric], where existing = "[None]" and w = 0])
      (use read in \<open>simp_all add: row\<close>)
  ultimately show ?thesis by (force simp: start_def)
qed

section \<open>Handlers\<close>

text \<open>The first gateway is dead, the second answers.\<close>

definition gateway_verdict :: "nat \<Rightarrow> string + instruction list \<times> lookup_table list" where
  "gateway_verdict g = (if g = 0 then Inl ''down'' else Inr ([sample_ix], []))"

definition gateway_client :: "nat client" where
  "gateway_client = sample_client\<lparr>c_fetch_update := \<lambda>feeds payer g w. (gateway_verdict g, w)\<rparr>"

theorem fetch_update_failover_witness:
  "fst (fetch_update_ixs gateway_client sample_sdk \<lparr>gateways = [0, 1], swb_payer = sample_keypair\<rparr> [key 5] (start ()))
     = Ok ([sample_ix], [])"
  using fetch_update_failover [of gateway_client "[key 5]" sample_sdk
      "\<lparr>gateways = [0, 1], swb_payer = sample_keypair\<rparr>" gateway_verdict "start ()"]
  by (simp add: gateway_client_def gateway_verdict_def)

definition curator_keypair :: keypair where
  "curator_keypair = Keypair (replicate 32 31)"

definition sample_context :: handler_context where
  "sample_context =
     \<lparr>hc_cfg = sample_config, hc_rpc = sample_rpc,
      hc_signers = \<lparr>fee_payer = sample_keypair, curators = [(key 31, curator_keypair)]\<rparr>, hc_swb = None\<rparr>"

definition sample_entry :: pending_matched_loan where
  "sample_entry =
     \<lparr>pm_market = key 4, pm_sequence = 1, pm_flags = 1, pm_loan_type = 0, pm_lender_seat_index = 3,
      pm_borrower_seat_index = 4, pm_principal_atoms = 1000, pm_origination_atoms = 10\<rparr>"

lemma sample_settle:
  "\<exists>a s'. assemble_vault_settle market_client sample_ydelta sample_context (key 4) sample_entry (key 7) sample_bank
     (start ()) = (Ok (Some a), s')"
  by (simp add: assemble_vault_settle_def build_vault_settle_addrs_def require_account_def get_account_data_def
      read_seat_at_def seat_view_from_def has_vault_lender_def is_vault_presettled_def pending_is_p2pool_def
      sample_entry_def sample_seat_def sample_ydelta_def market_client_def sample_client_def start_def prog_run)

theorem vault_settle_only_when_needed_witness:
  "\<exists>a. fst (assemble_vault_settle market_client sample_ydelta sample_context (key 4) sample_entry (key 7) sample_bank
       (start ())) = Ok (Some a) \<and> vs_global_vault a = key 20 \<and> vs_debt_oracles a = [key 5]"
proof -
  obtain a s' where run: "assemble_vault_settle market_client sample_ydelta sample_context (key 4) sample_entry (key 7)
      sample_bank (start ()) = (Ok (Some a), s')" using sample_settle by blast
  from vault_settle_only_when_needed [OF this] show ?thesis
    by (simp add: run) (simp add: sample_ydelta_def primary_oracle_def sample_bank_def)
qed

definition sample_sub_vault :: sub_vault_view where
  "sample_sub_vault =
     \<lparr>sv_vault = key 20, sv_vault_mint = key 7, sv_vault_bank = key 17, sv_sub_vault_id = 4, sv_curator = key 31,
      sv_accumulated_curator_fee_atoms = 200000, sv_vault_is_paused = False, sv_pending_claim_atoms = 0,
      sv_is_sunset = False\<rparr>"

theorem curator_claims_rightful_witness:
  "\<exists>tx. EvSend tx \<in> set (trace (snd (curator_scan sample_client sample_sdk sample_ydelta sample_context
        [sample_sub_vault] (with_banks [(key 7, sample_bank)] (start {}))))) \<and>
     rightful_claim sample_sdk sample_ydelta sample_context [(key 7, sample_bank)] [sample_sub_vault] tx"
proof -
  let ?run = "curator_scan sample_client sample_sdk sample_ydelta sample_context [sample_sub_vault]
      (with_banks [(key 7, sample_bank)] (start {}))"
  have "\<exists>tx. EvSend tx \<in> set (trace (snd ?run))"
    by (simp add: curator_scan_def curator_step_def attempt_one_def guarded_def claim_inflight_def
        release_inflight_def claim_one_def bank_for_def registry_get_def banks_snapshot_def curator_key_def
        send_with_retry_def count_ix_def stopped_def check_previous_def legacy_tx_def first_signature.simps
        with_banks_def sample_sub_vault_def sample_context_def sample_config_def sample_bank_def
        sample_client_def sample_sdk_def sample_rpc_def sample_shared_def start_def prog_run)
  then show ?thesis
    using curator_claims_rightful [OF prod.collapse [symmetric], of sample_client sample_sdk sample_ydelta
        sample_context "[sample_sub_vault]" "with_banks [(key 7, sample_bank)] (start {})"]
    by (auto simp: with_banks_def start_def registry_now_def)
qed

definition sample_loan :: loan_view where
  "sample_loan =
     \<lparr>lv_address = key 40, lv_market = key 4, lv_state = 0, lv_loan_type = 1, lv_principal_debt_atoms = 950,
      lv_outstanding_debt_atoms = 950, lv_matures_at_unix = 1000000, lv_matched_loan_sequence = 1,
      lv_lender_kind = 1, lv_lender_global_vault = key 20, lv_lender_sub_vault_id = 4,
      lv_borrower_rate_bps = 200, lv_lender_rate_bps = 100\<rparr>"

text \<open>A Fixed loan at par, one day before its maturity.\<close>

theorem healthy_loan_untouched_witness:
  "scan_loan sample_client sample_sdk sample_ydelta sample_context sample_view 913600
     (sample_loan\<lparr>lv_loan_type := 0\<rparr>) 0 (start {}) = (Ok 0, start {})"
  by (rule healthy_loan_untouched)
    (simp_all add: loan_is_p2pool_def sample_loan_def sample_ydelta_def sample_context_def sample_config_def
      sample_view_def market_view_from_fixed_def sample_market_def)

definition log_sdk :: "u32 \<Rightarrow> sdk" where
  "log_sdk fills = sample_sdk\<lparr>base64_decode := \<lambda>tok.
     if tok = ''QQ=='' then Some (match_crank_record sample_ydelta (replicate 32 1) (replicate 32 2) fills (replicate 4 0))
     else None\<rparr>"

theorem fills_roundtrip_witness:
  "parse_match_crank_fills (log_sdk 3) sample_ydelta
     ([''Program log: x'', ''Program data: ##''] @ (''Program data: '' @ ''QQ=='') # [''Program data: QQ=='']) = Some 3"
proof (rule fills_roundtrip)
  show "base64_decode (log_sdk 3) ''QQ=='' =
      Some (match_crank_record sample_ydelta (replicate 32 1) (replicate 32 2) 3 (replicate 4 0))"
    by (simp add: log_sdk_def)
  show "\<forall>line\<in>set [''Program log: x'', ''Program data: ##'']. fills_of_line (log_sdk 3) sample_ydelta line = None"
    by (simp add: fills_of_line_def strip_prefix_def first_token_def is_space_def log_sdk_def sample_sdk_def)
qed (simp_all add: is_space_def sample_ydelta_def)

definition zero_fill_client :: "nat client" where
  "zero_fill_client = sample_client\<lparr>c_simulate := \<lambda>tx w.
     (Inr \<lparr>sv_err = None, sv_logs = Some [''Program data: QQ=='']\<rparr>, w)\<rparr>"

definition two_banks :: bank_registry where
  "two_banks = [(key 7, sample_bank), (key 8, sample_bank\<lparr>bi_mint := key 8, bi_bank := key 18\<rparr>)]"

theorem zero_fill_not_submitted_witness:
  "fst (crank_one zero_fill_client (log_sdk 0) sample_ydelta sample_context sample_view
      (with_banks two_banks (start ()))) \<noteq> Ok True \<and>
   sends (trace (snd (crank_one zero_fill_client (log_sdk 0) sample_ydelta sample_context sample_view
      (with_banks two_banks (start ()))))) = []"
proof -
  let ?s = "with_banks two_banks (start ())"
  let ?run = "crank_one zero_fill_client (log_sdk 0) sample_ydelta sample_context sample_view ?s"
  have parse: "parse_match_crank_fills (log_sdk 0) sample_ydelta [''Program data: QQ==''] = Some 0"
    by (simp add: fills_of_line_def strip_prefix_def first_token_def is_space_def log_sdk_def sample_sdk_def
        match_crank_record_def sample_ydelta_def from_to_le_bytes [of 4])
  have sim: "fst (c_simulate zero_fill_client tx w)
      = Inr \<lparr>sv_err = None, sv_logs = Some [''Program data: QQ=='']\<rparr>" for tx w
    by (simp add: zero_fill_client_def)
  obtain es where "trace (snd ?run) = trace ?s @ es" "sends es = []" "fst ?run \<noteq> Ok True"
    using zero_fill_not_submitted [OF sim parse prod.collapse [symmetric]] by blast
  moreover have "trace ?s = []" by (simp add: with_banks_def start_def)
  ultimately show ?thesis by simp
qed

section \<open>Supervision\<close>

lemma sample_clock: "clock_law sample_client"
  by (simp add: clock_law_def sample_client_def)

theorem sleep_terminates_witness:
  "\<exists>b. fst (sleep_until_or_stop sample_client 7 (5 * 10 ^ 9) (start ())) = Some b"
  by (rule sleep_terminates [OF sample_clock]) simp

definition sample_claimer :: "(nat, (pubkey \<times> pubkey \<times> u16) set) handler" where
  "sample_claimer = claimer_handler sample_client sample_sdk sample_ydelta sample_context"

lemma sample_claimer_simps:
  "handler_name sample_claimer = ''claimer''" "requires_fee_payer sample_claimer"
  "tick sample_claimer = claimer_tick sample_client sample_sdk sample_ydelta sample_context"
  by (simp_all add: sample_claimer_def claimer_handler_def)

lemma sample_claimer_tick:
  "claimer_tick sample_client sample_sdk sample_ydelta sample_context s
     = (Err (Context ''getProgramAccounts'' (ClientErr down)), s\<lparr>steps := steps s @ [Switched (shm s) (shm s)]\<rparr>)"
  by (cases s) (simp add: claimer_tick_def list_sub_vaults_def program_accounts_def sample_client_def prog_run)

lemma sample_clock_simps:
  "c_instant sample_client w = (w, w)" "c_sleep sample_client n w = w + n" "c_interfere sample_client w sh = sh"
  by (simp_all add: sample_client_def)

lemma sample_sleep:
  "\<not> stop (shm s) \<Longrightarrow>
   sleep_until_or_stop sample_client 3 1000000000 s = (Some False, s\<lparr>world := world s + 1000000000, steps := steps s @ [Switched (shm s) (shm s)]\<rparr>)"
  by (simp add: sleep_until_or_stop_def sample_clock_simps numeral_3_eq_3 prog_run)


definition low_start :: "(nat, (pubkey \<times> pubkey \<times> u16) set) sys" where
  "low_start = (start {})\<lparr>shm := sample_shared\<lparr>fee_payer_low := True\<rparr>\<rparr>"

definition claimer_failed :: "unit res \<times> (nat, (pubkey \<times> pubkey \<times> u16) set) sys" where
  "claimer_failed = claimer_tick sample_client sample_sdk sample_ydelta sample_context low_start"

text \<open>A claimer without a node fails at its listing.\<close>

theorem ticks_fail_only_in_listing_witness:
  "\<exists>e s'. claimer_failed = (Err e, s') \<and>
     (list_sub_vaults sample_client sample_ydelta (cfg_program_id (hc_cfg sample_context)) low_start = (Err e, s') \<or>
      (\<exists>s. list_markets sample_client sample_ydelta (cfg_program_id (hc_cfg sample_context)) s = (Err e, s')) \<or>
      (\<exists>s ms. list_pending_vault_claims sample_client sample_ydelta ms s = (Err e, s')))"
proof -
  obtain e s' where run: "claimer_tick sample_client sample_sdk sample_ydelta sample_context low_start = (Err e, s')"
    using sample_claimer_tick by blast
  note ticks_fail_only_in_listing [THEN conjunct2, THEN conjunct2, THEN conjunct2, THEN conjunct2, THEN mp, OF run]
  with run show ?thesis unfolding claimer_failed_def by blast
qed

text \<open>Two paused rounds.\<close>

theorem low_balance_pauses_witness:
  "\<exists>n. n \<le> 2 \<and> trace (snd (supervise sample_client (\<lambda>e. ''rpc'') sample_claimer 1000000000 3 2 low_start)) =
     replicate n (EvTick ''claimer'' ''paused_low_balance'')"
proof -
  have "rely sample_client fee_payer_low" by (simp add: rely_def sample_client_def)
  moreover have "fee_payer_low (shm low_start)" "trace low_start = []" by (simp_all add: low_start_def start_def)
  ultimately show ?thesis
    using low_balance_pauses [of low_start sample_claimer sample_client 2 "\<lambda>e. ''rpc''" 1000000000 3]
    by (force simp: sample_claimer_simps)
qed

definition token_client :: "nat client" where
  "token_client = sample_client\<lparr>c_get_multiple_accounts := \<lambda>ks w.
     (Inr (map (\<lambda>pk. Some \<lparr>acct_data = replicate 64 0 @ to_le_bytes (5 :: u64), acct_owner = key 1\<rparr>) ks), w)\<rparr>"

theorem token_balances_track_witness:
  "\<exists>bal. ata_balances (shm (snd (ata_balance_round token_client sample_sdk (hc_signers sample_context) [0]
       (with_banks [(key 7, sample_bank)] (start ()))))) = Healthy bal \<and> map_of bal (key 7) = Some 5"
proof -
  let ?run = "ata_balance_round token_client sample_sdk (hc_signers sample_context) [0]
       (with_banks [(key 7, sample_bank)] (start ()))"
  let ?f = "\<lambda>pk. Some \<lparr>acct_data = replicate 64 0 @ to_le_bytes (5 :: u64), acct_owner = key 1\<rparr>"
  have answers: "fst (c_get_multiple_accounts token_client ks w) = Inr (map ?f ks)" for ks w
    by (simp add: token_client_def)
  have "wf_registry [(key 7, sample_bank)]" using wf_sample_bank by (simp add: wf_registry_def)
  moreover have "set [0] = {i. i * CHUNK_SIZE < length [(key 7, sample_bank)]}" by (auto simp: CHUNK_SIZE_def)
  moreover have "token_balance (?f pk) = 5" for pk
    by (simp add: token_balance_def spl_token_amount_def get_slice_def from_to_le_bytes [of 8])
  ultimately have "\<forall>bal. ata_balances (shm (snd ?run)) = Healthy bal \<longrightarrow> map_of bal (key 7) = Some 5"
    using token_balances_track [OF answers _ _ _ _ prod.collapse [symmetric], of "[0]" "[(key 7, sample_bank)]"
        "with_banks [(key 7, sample_bank)] (start ())" sample_sdk "hc_signers sample_context"]
    by (simp add: with_banks_def)
  moreover have "\<exists>bal. ata_balances (shm (snd ?run)) = Healthy bal"
    by (simp add: ata_balance_round_def banks_snapshot_def batch_get_multiple_accounts_def prog_run
        token_client_def sample_client_def with_banks_def start_def registry_get_def chunks.simps CHUNK_SIZE_def
        sample_shared_def split: lock.splits)
  ultimately show ?thesis by blast
qed

definition poor_client :: "nat client" where
  "poor_client = sample_client\<lparr>c_get_balance := \<lambda>pk w. (Inr 10, w)\<rparr>"

lemma balance_flag_tracks_example:
  "fee_payer_low (shm (snd (sol_balance_round poor_client sample_sdk (hc_signers sample_context) 50000000 (start ()))))"
  using balance_flag_tracks [OF _ prod.collapse [symmetric], of poor_client sample_sdk "hc_signers sample_context"
      "start ()" "Inr 10" 0 50000000]
  by (simp add: poor_client_def start_def)

section \<open>Configuration and start-up\<close>

definition sample_env :: env where
  "sample_env = map_of
     [(''NETWORK'', ''LOCALHOST''), (''RPC_URL'', ''http://localhost:8899''), (''MARGINFI_PROGRAM_ID'', ''m''),
      (''MARGINFI_GROUP'', ''g''), (''FEE_PAYER_KEYPAIR'', ''id.json'')]"

definition env_config :: config where
  "env_config =
     \<lparr>cfg_network = Localhost, cfg_rpc_url = ''http://localhost:8899'', cfg_program_id = key 13,
      cfg_marginfi_program_id = key 6, cfg_marginfi_group = key 13,
      cfg_fee_payer_keypair = PathSource ''id.json'', cfg_fee_payer_expected_pubkey = None,
      cfg_handlers = sample_handlers\<lparr>curator_fee_claimer_enabled := False, match_cranker_enabled := True\<rparr>,
      cfg_thresholds = cfg_thresholds sample_config,
      cfg_priority_fee_micro_lamports = 1000, cfg_compute_unit_limit = 400000,
      cfg_min_signer_balance_lamports = 50000000, cfg_banks_refresh_interval = 300,
      cfg_curator_keypairs_base58 = []\<rparr>"

lemma sample_env_loads: "from_env sample_sdk ''y'' (\<lambda>raw. Inr []) sample_env = Ok env_config"
proof -
  have net: "network_from_str ''LOCALHOST'' = Ok Localhost" by code_simp
  have vals: "sample_env ''NETWORK'' = Some ''LOCALHOST''" "sample_env ''RPC_URL'' = Some ''http://localhost:8899''"
    "sample_env ''MARGINFI_PROGRAM_ID'' = Some ''m''" "sample_env ''MARGINFI_GROUP'' = Some ''g''"
    "sample_env ''FEE_PAYER_KEYPAIR'' = Some ''id.json''" "sample_env ''FEE_PAYER_KEYPAIR_BASE58'' = None"
    by (simp_all add: sample_env_def)
  show ?thesis
    by (simp add: from_env_def require_var_def net vals parse_pubkey_def fee_payer_source_def handlers_from_env_def
        thresholds_from_env_def bool_var_def u64_var_def u32_var_def sample_sdk_def)
      (simp add: sample_env_def env_config_def sample_handlers_def sample_config_def)
qed

theorem from_env_correct_witness:
  "setting read_u64 (sample_env ''PRIORITY_FEE_MICRO_LAMPORTS'') 1000 (cfg_priority_fee_micro_lamports env_config) \<and>
   sample_env ''RPC_URL'' = Some (cfg_rpc_url env_config) \<and> handlers_settings sample_env (cfg_handlers env_config)"
  using from_env_correct [of sample_sdk "''y''" "\<lambda>raw. Inr []" sample_env env_config] sample_env_loads by blast

theorem config_debug_hides_secrets_witness:
  "redact_url ''https://rpc.example.com?api-key=secret'' = ''https://rpc.example.com'' \<and>
   redact_url ''https://user:p@ss@rpc.example.com'' = ''https://ss@rpc.example.com'' \<and>
   debug_config (Healthy []) (env_config
      \<lparr>cfg_fee_payer_keypair := Base58Source ''4NMw'', cfg_curator_keypairs_base58 := [''2x''],
       cfg_rpc_url := ''https://rpc.example.com?api-key=secret''\<rparr>) =
   debug_config (Healthy []) (env_config
      \<lparr>cfg_fee_payer_keypair := Base58Source ''5Kd3'', cfg_curator_keypairs_base58 := [''3y''],
       cfg_rpc_url := ''https://me:pw@rpc.example.com''\<rparr>)"
  using config_debug_hides_secrets [where scheme = "''https''" and cred = "[]" and cred' = "''me:pw@''"
      and host = "''rpc.example.com''" and keys = "[''2x'']" and keys' = "[''3y'']" and user = "''user:p''"
      and pass = "''ss''" and query = "''?api-key=secret''" and query' = "[]" and cfg = env_config]
    config_debug_hides_secrets [where scheme = "''https''" and cred = "[]" and cred' = "[]"
      and host = "''rpc.example.com''" and user = "''user:p''" and pass = "''ss''" and query = "[]" and query' = "[]"]
  by (simp add: credentials_def query_string_def)

definition sample_io :: key_io where
  "sample_io =
     \<lparr>stat_mode = \<lambda>path. Inr 33152, read_file = \<lambda>path. Inr [], json_bytes = \<lambda>bs. Inr (replicate 64 30),
      bs58_decode = \<lambda>s. Inr (replicate 64 31), keypair_try_from = \<lambda>bs. Inr (Keypair (take 32 bs))\<rparr>"

text \<open>A regular file of mode \<open>0o600\<close>.\<close>

theorem loaded_signers_sound_witness:
  "signers_load sample_sdk sample_io sample_config = Ok (hc_signers sample_context) \<and>
   kp_pubkey sample_sdk (fee_payer (hc_signers sample_context)) = key 30"
proof -
  have load: "signers_load sample_sdk sample_io sample_config = Ok (hc_signers sample_context)"
    by (simp add: signers_load_def load_keypair_from_file_def load_keypair_from_base58_def sample_io_def
        sample_config_def sample_handlers_def sample_context_def sample_sdk_def sample_keypair_def
        curator_keypair_def key_def)
  from loaded_signers_sound [OF this] load show ?thesis by (simp add: sample_config_def)
qed

text \<open>An HTTP/1.0 request, one without a path whose next line has one, and bytes that are no text.\<close>

theorem health_endpoints_witness:
  "handle_conn (ascii (''GET /readyz HTTP/1.0'' @ CHR 0x0A # ''Host: x'')) False
     = Some (render_response (respond ''/readyz'' False)) \<and>
   handle_conn (ascii (''GET '' @ CHR 0x0A # ''/healthz'')) False = Some (render_response (respond [] False)) \<and>
   status_line (respond ''/readyz'' False) = ''503 Service Unavailable'' \<and>
   handle_conn [0xFF] False = Some (render_response (respond [] False))"
proof -
  let ?l = "''GET /readyz HTTP/1.0''" and ?m = "''GET ''"
  have asc: "\<forall>ch \<in> set (?l @ ''Host: x''). of_char ch < (128 :: nat)" "\<forall>ch \<in> set (?m @ ''/healthz''). of_char ch < (128 :: nat)"
    and nl: "CHR 0x0A \<notin> set ?l" "CHR 0x0A \<notin> set ?m" and len: "length ?l < 1024" "length ?m < 1024"
    by simp_all
  note l = health_endpoints [where ready = False and data = "[0xFF]", OF asc(1) nl(1) len(1) disjI1 [OF refl]]
  note m = health_endpoints [where ready = False and data = "[0xFF]", OF asc(2) nl(2) len(2) disjI1 [OF refl]]
  have "?l = [] @ ''GET'' @ '' '' @ ''/readyz'' @ '' HTTP/1.0'' \<and> gap [] \<and> unbroken ''GET'' \<and> ''GET'' \<noteq> [] \<and>
      gap '' '' \<and> '' '' \<noteq> [] \<and> unbroken ''/readyz'' \<and> ''/readyz'' \<noteq> [] \<and>
      ('' HTTP/1.0'' = [] \<or> is_space (hd '' HTTP/1.0''))"
    by (simp add: unbroken_def is_space_def)
  note 1 = l [THEN conjunct1, rule_format, OF this]
  have "?m = [] @ ''GET'' @ '' '' \<and> gap [] \<and> unbroken ''GET'' \<and> gap '' ''"
    by (simp add: unbroken_def is_space_def)
  note 2 = m [THEN conjunct2, THEN conjunct1, rule_format, OF this]
  have 3: "status_line (respond ''/readyz'' False) = ''503 Service Unavailable''"
    using l [THEN conjunct2, THEN conjunct2, THEN conjunct1, THEN spec [of _ "''/readyz''"]] by simp
  have "\<not> valid_utf8 (take 1024 [0xFF])" by simp
  note 4 = l [THEN conjunct2, THEN conjunct2, THEN conjunct2, THEN conjunct1, rule_format, OF this]
  show ?thesis by (intro conjI 1 2 3 4)
qed

text \<open>A market whose two sides name one mint and two banks.\<close>

definition torn_ydelta :: ydelta where
  "torn_ydelta = sample_ydelta\<lparr>cast_market := \<lambda>b. Some (sample_market\<lparr>mf_collateral_mint := key 7\<rparr>)\<rparr>"

theorem boot_refuses_conflict_witness:
  "\<exists>e s'. boot bank_client sample_sdk torn_ydelta sample_env sample_config (hc_signers sample_context) (Ok ())
      (Inr ()) (Inr [0]) (start ()) = (Err e, s') \<and> trace s' = []"
proof -
  let ?view = "market_view_from_fixed (key 4) (sample_market\<lparr>mf_collateral_mint := key 7\<rparr>)"
  have "fetch_markets bank_client torn_ydelta (cfg_program_id sample_config) (start ()) = (Ok [?view], (start ())\<lparr>steps := [Switched sample_shared sample_shared]\<rparr>)"
    by (simp add: fetch_markets_def program_accounts_def decode_markets_def decode_market_fixed_def torn_ydelta_def
        sample_ydelta_def sample_market_def bank_client_def sample_client_def start_def prog_run)
  moreover have "\<not> single_valued (market_bindings [?view])"
    by (auto simp: single_valued_def market_bindings_def market_view_from_fixed_def sample_market_def key_eq)
  ultimately show ?thesis using boot_refuses_conflict by (fastforce simp: start_def)
qed

lemma sample_discovers:
  "\<exists>s. discover_banks_from_markets bank_client sample_sdk single_mint_ydelta env_config (start ()) = (Ok (), s) \<and>
     banks (shm s) = Healthy [(key 7, sample_bank)] \<and> \<not> stop (shm s)"
proof -
  let ?view = "market_view_from_fixed (key 4)
    (sample_market\<lparr>mf_collateral_mint := key 7, mf_collateral_lending_pool := key 17\<rparr>)"
  let ?s = "(start ())\<lparr>shm := sample_shared\<lparr>markets_cache :=
    Healthy (Some \<lparr>fetched_at = 0, cached_markets = [?view]\<rparr>)\<rparr>, steps := [Switched sample_shared sample_shared]\<rparr>"
  have "refresh_markets bank_client single_mint_ydelta (key 13) (start ()) = (Ok [?view], ?s)"
    by (simp add: refresh_markets_def markets_cache_put_def fetch_markets_def program_accounts_def decode_markets_def
        decode_market_fixed_def single_mint_ydelta_def sample_ydelta_def sample_market_def bank_client_def
        sample_client_def start_def sample_shared_def prog_run)
  moreover have "bind_markets [?view] [] = Ok [(key 7, key 17)]"
    by (simp add: bind_mint_def market_view_from_fixed_def sample_market_def)
  ultimately show ?thesis
    using sample_resolves [of ?s]
    by (simp add: discover_banks_from_markets_def discover_from_markets_def env_config_def write_banks_def
        sample_shared_def prog_run)
qed

lemma sample_ensures:
  assumes "\<not> stop (shm s)"
  shows "\<exists>s'. ensure_atas_for bank_client sample_sdk r [(key 7, sample_bank)] kp s = (Ok (), s') \<and> shm s' = shm s"
proof -
  have row: "derived_atas sample_sdk kp [(key 7, sample_bank)] = [(key 7, key 11, spl_token_legacy_id)]"
    by (simp add: derived_atas_def ata_for_def sample_bank_def sample_sdk_def)
  show ?thesis
    unfolding ensure_atas_for_def row
    using assms
    by (simp add: missing_atas_def index_or_panic_def send_with_retry_def count_ix_def
        stopped_def check_previous_def legacy_tx_def first_signature.simps bank_client_def chain_entries
        sample_client_def sample_sdk_def enumerate_simps prog_run)
qed

lemma sample_boot:
  "\<exists>b s'. main_boot bank_client sample_sdk single_mint_ydelta sample_io ''y'' (\<lambda>raw. Inr []) sample_env (Ok ())
      (Inr ()) (Inr [0]) (start ()) = (Ok b, s') \<and> bt_handlers b = handlers_spawned (cfg_handlers env_config) \<and>
     banks (shm s') = Healthy [(key 7, sample_bank)]"
proof -
  let ?sg = "\<lparr>fee_payer = sample_keypair, curators = []\<rparr>"
  obtain s1 where s1: "discover_banks_from_markets bank_client sample_sdk single_mint_ydelta env_config (start ()) = (Ok (), s1)"
    "banks (shm s1) = Healthy [(key 7, sample_bank)]" "\<not> stop (shm s1)" using sample_discovers by blast
  obtain s2 where s2: "ensure_atas_for bank_client sample_sdk (rpc_of_config env_config) [(key 7, sample_bank)]
      sample_keypair s1 = (Ok (), s2)" "shm s2 = shm s1" using sample_ensures [OF s1(3)] by blast
  have sg: "signers_load sample_sdk sample_io env_config = Ok ?sg"
    by (simp add: signers_load_def load_keypair_from_file_def sample_io_def env_config_def sample_handlers_def
        sample_keypair_def)
  have slot: "c_get_slot bank_client w = (Inr 5, w)" "c_interfere bank_client w sh = sh" for w sh
    by (simp_all add: bank_client_def sample_client_def)
  have "\<exists>b s'. boot bank_client sample_sdk single_mint_ydelta sample_env env_config ?sg (Ok ()) (Inr ()) (Inr [0]) (start ())
      = (Ok b, s') \<and> bt_handlers b = handlers_spawned (cfg_handlers env_config) \<and>
        banks (shm s') = Healthy [(key 7, sample_bank)]"
    using s1 s2 by (simp add: boot_def banks_snapshot_def slot prog_run)
  then show ?thesis
    by (auto simp: main_boot_def sample_env_loads sg pbind_run pdone_def)
qed

lemma sample_handlers_spawned:
  "handlers_spawned (cfg_handlers env_config) = [(''promoter'', 5), (''claimer'', 30), (''liquidator'', 10), (''match_cranker'', 15)]"
  by (simp add: handlers_spawned_def env_config_def sample_handlers_def)

theorem boot_wires_context_witness:
  "\<exists>b. fst (main_boot bank_client sample_sdk single_mint_ydelta sample_io ''y'' (\<lambda>raw. Inr []) sample_env (Ok ())
      (Inr ()) (Inr [0]) (start ())) = Ok b \<and>
     bt_handlers b = [(''promoter'', 5), (''claimer'', 30), (''liquidator'', 10), (''match_cranker'', 15)] \<and>
     stop_wired (hc_rpc (bt_ctx b)) \<and> \<not> bt_warmkeeper b"
proof -
  obtain b s' where b: "main_boot bank_client sample_sdk single_mint_ydelta sample_io ''y'' (\<lambda>raw. Inr []) sample_env
      (Ok ()) (Inr ()) (Inr [0]) (start ()) = (Ok b, s')" using sample_boot by blast
  have off: "\<not> warmkeeper_enabled sample_env" by (simp add: warmkeeper_enabled_def sample_env_def)
  have bools: "setting read_bool None d v \<longleftrightarrow> v = d" "setting read_u64 None e u \<longleftrightarrow> u = e" for d v e u
    by (simp_all add: setting_def)
  have vars: "sample_env v = None" if "v \<in> {''PROMOTER_ENABLED'', ''CLAIMER_ENABLED'', ''LIQUIDATOR_ENABLED'',
      ''CURATOR_FEE_CLAIMER_ENABLED'', ''MATCH_CRANKER_ENABLED'', ''PROMOTER_INTERVAL_SEC'', ''CLAIMER_INTERVAL_SEC'',
      ''LIQUIDATOR_INTERVAL_SEC'', ''CURATOR_FEE_CLAIMER_INTERVAL_SEC'', ''MATCH_CRANKER_INTERVAL_SEC''}" for v
    using that by (auto simp: sample_env_def)
  have "stop_wired (hc_rpc (bt_ctx b)) \<and> \<not> bt_warmkeeper b \<and>
      map fst (bt_handlers b) = [''promoter'', ''claimer'', ''liquidator'', ''match_cranker''] \<and>
      set (bt_handlers b) \<subseteq> {(''promoter'', 5), (''claimer'', 30), (''liquidator'', 10),
        (''curator_fee_claimer'', 3600), (''match_cranker'', 15)}"
    using boot_wires_context [OF b] off
    by (auto simp: vars bools list_all2_Cons1 split: option.splits)
  then show ?thesis by (auto simp: b map_eq_Cons_conv)
qed

section \<open>The process\<close>

text \<open>
  One claimer without a node, over one round: it is suspended once, and then counts the
  failure. The registry has one bank, the snapshot one market.
\<close>

definition healthy_start :: "'h \<Rightarrow> (nat, 'h) sys" where
  "healthy_start h = (start h)\<lparr>shm := sample_shared
     \<lparr>banks := Healthy [(key 7, sample_bank)],
      markets_cache := Healthy (Some \<lparr>fetched_at = 0, cached_markets = [sample_view]\<rparr>)\<rparr>\<rparr>"

definition healthy_memory :: shared where
  "healthy_memory = shm (healthy_start ())"

lemma healthy_memory_data: "healthy_data [key 7 \<mapsto> sample_bank] healthy_memory"
  by (simp add: healthy_memory_def healthy_data_def knows_def has_snapshot_def healthy_start_def wf_registry_def
      wf_info_def samples sample_bank_def map_le_def)

definition sample_booted :: booted where
  "sample_booted = \<lparr>bt_ctx = sample_context, bt_warmkeeper = False, bt_handlers = [(''claimer'', 30)]\<rparr>"

definition claimer_run_program :: "(nat, (pubkey \<times> pubkey \<times> u16) set, bool res) prog" where
  "claimer_run_program = supervise sample_client (\<lambda>e. ''rpc'')
     (claimer_handler sample_client sample_sdk sample_ydelta sample_context) (unat (30 :: u64) * 10 ^ 9) 0 1"

definition claimer_process :: process where
  "claimer_process =
     \<lparr>memory = healthy_memory, pending = [thread claimer_run_program (healthy_start {})], history = []\<rparr>"

lemma claimer_thread:
  "thread claimer_run_program (healthy_start {}) =
     [(healthy_memory, [], healthy_memory),
      (healthy_memory, [EvFailure ''claimer'' ''rpc_error'', EvTick ''claimer'' ''err''], healthy_memory)]"
proof -
  have label: "classify_handler_error ''rpc'' = ''rpc_error''" by code_simp
  show ?thesis
    unfolding claimer_run_program_def sample_claimer_def [symmetric]
    by (simp add: thread_def label supervise_round_def sample_claimer_simps sample_claimer_tick
        sleep_until_or_stop_def sample_clock_simps healthy_memory_def healthy_start_def start_def
        sample_shared_def prog_run)
qed

lemma claimer_spawned:
  "handler_thread sample_sdk sample_ydelta (\<lambda>e. ''rpc'') sample_booted sample_client ''claimer''
     (pending claimer_process ! 0)"
proof -
  have "handler_task sample_sdk sample_ydelta (\<lambda>e. ''rpc'') sample_booted sample_client ''claimer''
    (task_of (supervise sample_client (\<lambda>e. ''rpc'') (claimer_handler sample_client sample_sdk sample_ydelta
       (bt_ctx sample_booted)) (unat (30 :: u64) * 10 ^ 9) 0 1) (healthy_start {}))"
    by (rule handler_task.claimer) (simp_all add: sample_booted_def healthy_start_def start_def)
  then show ?thesis by (auto simp: handler_thread_def task_of_def claimer_process_def claimer_run_program_def
      sample_booted_def)
qed

lemma claimer_process_ends:
  "\<exists>p'. process_step\<^sup>*\<^sup>* claimer_process p' \<and> pending p' = [[]] \<and>
     history p' = [(0, EvFailure ''claimer'' ''rpc_error''), (0, EvTick ''claimer'' ''err'')]"
  using runs_alone [of 0 claimer_process]
  by (simp add: claimer_process_def claimer_thread left_over_def)

text \<open>
  A claimer that finds atoms waiting: the vault at \<open>key 20\<close> has them in its sub-vault 4, and the
  market has that sub-vault's seat. The sweep is simulated and then submitted.
\<close>

definition sweep_client :: "nat client" where
  "sweep_client = sample_client
     \<lparr>c_get_program_accounts := \<lambda>pid fs w. (Inr [(key 20, \<lparr>acct_data = [3], acct_owner = key 1\<rparr>)], w),
      c_get_account := \<lambda>pk w. (Inr \<lparr>acct_data = [1], acct_owner = key 1\<rparr>, w),
      c_simulate := \<lambda>tx w. (Inr \<lparr>sv_err = None, sv_logs = None\<rparr>, w)\<rparr>"

definition sweep_ydelta :: ydelta where
  "sweep_ydelta = sample_ydelta
     \<lparr>cast_global_vault := \<lambda>b. Some \<lparr>gv_discriminator = 3, gv_sub_vaults_root_index = 0, gv_mint = key 7,
        gv_lending_pool = key 17, gv_is_paused = 0\<rparr>,
      iter_sub_vaults := \<lambda>d root nl. Some [(0, \<lparr>sub_id = 4, sub_curator = key 31,
        sub_accumulated_curator_fee_atoms = 0, sub_pending_claim_atoms = 9, sub_is_sunset = 0\<rparr>)]\<rparr>"

definition sweep_program :: "(nat, (pubkey \<times> pubkey \<times> u16) set, bool res) prog" where
  "sweep_program = supervise sweep_client (\<lambda>e. ''rpc'')
     (claimer_handler sweep_client sample_sdk sweep_ydelta sample_context) (unat (30 :: u64) * 10 ^ 9) 0 1"

definition sweep_process :: process where
  "sweep_process =
     \<lparr>memory = healthy_memory, pending = [thread sweep_program (healthy_start {})], history = []\<rparr>"

definition sweep_bundle :: "instruction list" where
  "sweep_bundle = priority_fee_preamble sample_sdk sample_rpc 400000 @ [sample_ix]"

definition sweep_events :: "event list" where
  "sweep_events = [EvSim sweep_bundle [] (key 30) True, EvSend (LegacyTx sweep_bundle (key 30) [9] [[1]]),
     EvIxMetric ''claim_repayment_for_sub_vault'' True, EvTick ''claimer'' ''ok'']"

lemma sweep_lists:
  "list_sub_vaults sweep_client sweep_ydelta pid s = (Ok [\<lparr>sv_vault = key 20, sv_vault_mint = key 7,
     sv_vault_bank = key 17, sv_sub_vault_id = 4, sv_curator = key 31, sv_accumulated_curator_fee_atoms = 0,
     sv_vault_is_paused = False, sv_pending_claim_atoms = 9, sv_is_sunset = False\<rparr>],
     s\<lparr>steps := steps s @ [Switched (shm s) (shm s)]\<rparr>)"
  "list_pending_vault_claims sweep_client sweep_ydelta [sample_view] s = (Ok [\<lparr>pc_market = key 4, pc_debt_mint = key 7,
     pc_debt_bank = key 17, pc_lender_global_vault = key 20, pc_sub_vault_id = 4, pc_debt_withdrawable_shares = 700\<rparr>],
     s\<lparr>steps := steps s @ [Switched (shm s) (shm s)]\<rparr>)"
  by (simp_all add: list_sub_vaults_def program_accounts_def sub_vaults_of_account_def sub_vault_view_from_def
      list_pending_vault_claims_def get_account_data_def claims_of_market_def split_market_def decode_market_fixed_def
      sweep_client_def sweep_ydelta_def sample_view_def market_view_from_fixed_def sample_client_def sample_ydelta_def
      sample_market_def sample_seat_def prog_run)

lemma sweep_simps:
  "c_get_latest_blockhash sweep_client w = (Inr [9], w)" "c_simulate sweep_client tx w = (Inr \<lparr>sv_err = None, sv_logs = None\<rparr>, w)"
  "c_send_and_confirm sweep_client tx w = (Inr [1], w)" "c_interfere sweep_client w sh = sh" "c_instant sweep_client w = (w, w)"
  "build_ix sweep_ydelta ix = sample_ix"
  by (simp_all add: sweep_client_def sample_client_def sweep_ydelta_def sample_ydelta_def)

lemma sweep_thread:
  "chained healthy_memory (thread sweep_program (healthy_start {})) \<and>
   left_over (thread sweep_program (healthy_start {})) = sweep_events"
  by (simp add: thread_def sweep_program_def claimer_handler_def supervise_round_def claimer_tick_def sweep_lists
      list_markets_def markets_cache_get_def MARKET_CACHE_TTL_def claimable_def to_sweep_def attempt_one_def guarded_def
      claim_inflight_def release_inflight_def sweep_one_def banks_snapshot_def bank_for_def registry_get_def
      sim_then_send_def simulate_def simulate_v0_def send_with_retry_def count_ix_def stopped_def check_previous_def
      legacy_tx_def first_signature.simps sweep_simps sleep_until_or_stop_def healthy_memory_def healthy_start_def
      start_def sample_shared_def sample_context_def sample_sdk_def sample_keypair_def sample_rpc_def key_def
      sweep_events_def sweep_bundle_def left_over_def claimer_key_def prog_run)

theorem process_submissions_gated_witness:
  "\<exists>p'. process_step\<^sup>*\<^sup>* sweep_process p' \<and> pending p' = [[]] \<and> events_of 0 (history p') = sweep_events \<and>
     EvSend (LegacyTx sweep_bundle (key 30) [9] [[1]]) \<in> set sweep_events \<and> self_gated [] sweep_events"
proof -
  obtain p' where p': "process_step\<^sup>*\<^sup>* sweep_process p'" "pending p' = [[]]" "history p' = map (Pair 0) sweep_events"
    using runs_alone [of 0 sweep_process] sweep_thread by (auto simp: sweep_process_def)
  have "handler_task sample_sdk sweep_ydelta (\<lambda>e. ''rpc'') sample_booted sweep_client ''claimer''
    (task_of (supervise sweep_client (\<lambda>e. ''rpc'') (claimer_handler sweep_client sample_sdk sweep_ydelta
       (bt_ctx sample_booted)) (unat (30 :: u64) * 10 ^ 9) 0 1) (healthy_start {}))"
    by (rule handler_task.claimer) (simp_all add: sample_booted_def healthy_start_def start_def)
  then have "handler_thread sample_sdk sweep_ydelta (\<lambda>e. ''rpc'') sample_booted sweep_client ''claimer''
      (pending sweep_process ! 0)"
    by (auto simp: handler_thread_def task_of_def sweep_process_def sweep_program_def sample_booted_def)
  from process_submissions_gated [OF p'(1) _ _ this]
  have "submission_rule sample_sdk (bt_ctx sample_booted) ''claimer'' (events_of 0 (history p'))"
    by (simp add: sweep_process_def)
  moreover have "events_of 0 (history p') = sweep_events" by (simp add: p'(3) events_of_def comp_def)
  ultimately show ?thesis using p'(1,2) by (auto simp: submission_rule_names sweep_events_def)
qed

lemma process_keeps_data_example:
  "\<exists>p'. process_step\<^sup>*\<^sup>* claimer_process p' \<and> pending p' = [[]] \<and>
     healthy_data [key 7 \<mapsto> sample_bank] (memory p')"
proof -
  obtain p' where p': "process_step\<^sup>*\<^sup>* claimer_process p'" "pending p' = [[]]"
    using claimer_process_ends by blast
  have "\<forall>t \<in> set (pending claimer_process). \<exists>c :: nat client.
      spawned sample_sdk sample_ydelta (\<lambda>e. ''rpc'') sample_booted c t"
    using claimer_spawned by (auto simp: spawned_def claimer_process_def)
  from process_keeps_data [OF this p'(1)] healthy_memory_data p' show ?thesis
    by (auto simp: claimer_process_def)
qed

text \<open>The signal arrives before the claimer of a started bot is first scheduled.\<close>

definition stopping_run :: "booted \<Rightarrow> (nat, (pubkey \<times> pubkey \<times> u16) set, bool res) prog" where
  "stopping_run b = supervise sample_client (\<lambda>e. ''rpc'') (claimer_handler sample_client sample_sdk single_mint_ydelta
      (bt_ctx b)) (unat (30 :: u64) * 10 ^ 9) 0 1"

definition stopping_task :: "booted \<Rightarrow> task" where
  "stopping_task b = task_of (stopping_run b) ((start {})\<lparr>shm := on_signal sample_shared\<rparr>)"

lemma stopping_task: "stopping_task b = (Ok True, [(on_signal sample_shared, [], on_signal sample_shared)])"
  by (simp add: stopping_task_def stopping_run_def task_of_def thread_def on_signal_def start_def prog_run)

lemma stopping_spawned:
  assumes "(''claimer'', 30) \<in> set (bt_handlers b)"
  shows "handler_task sample_sdk single_mint_ydelta (\<lambda>e. ''rpc'') b sample_client ''claimer'' (stopping_task b)"
  unfolding stopping_task_def stopping_run_def
  using assms by (rule handler_task.claimer) (simp add: start_def)

definition waiting :: "segment list \<Rightarrow> process" where
  "waiting t = \<lparr>memory = sample_shared, pending = [t], history = []\<rparr>"

definition stopping :: "segment list \<Rightarrow> process" where
  "stopping t = \<lparr>memory = on_signal sample_shared, pending = [t], history = []\<rparr>"

lemma stopping_steps:
  "process_step (waiting t) (stopping t)" "process_step (stopping (snd (stopping_task b))) (stopping [])"
  using process_step.signalled [of "waiting t"]
    process_step.resumed [of 0 "stopping (snd (stopping_task b))" "[]" "on_signal sample_shared" "[]"]
  by (simp_all add: waiting_def stopping_def stopping_task)

theorem process_winds_down_witness:
  "\<exists>p p1 p2. process_step p p1 \<and> process_step p1 p2 \<and> \<not> stop (memory p) \<and> stop (memory p1) \<and> pending p2 = [[]] \<and>
     tally_of is_send (events_of 0 (history p2)) \<le> 1 \<and> tally_of is_tick (events_of 0 (history p2)) \<le> 1"
proof -
  obtain b s' where b: "main_boot bank_client sample_sdk single_mint_ydelta sample_io ''y'' (\<lambda>raw. Inr []) sample_env
      (Ok ()) (Inr ()) (Inr [0]) (start ()) = (Ok b, s')" "(''claimer'', 30) \<in> set (bt_handlers b)"
    using sample_boot by (auto simp: sample_handlers_spawned)
  let ?t = "snd (stopping_task b)"
  have thr: "handler_thread sample_sdk single_mint_ydelta (\<lambda>e. ''rpc'') b sample_client ''claimer'' ?t"
    unfolding handler_thread_def using stopping_spawned [OF b(2)] by (metis prod.collapse)
  then have all: "\<forall>t \<in> set (pending (waiting ?t)). \<exists>c :: nat client.
      spawned sample_sdk single_mint_ydelta (\<lambda>e. ''rpc'') b c t"
    by (auto simp: spawned_def waiting_def)
  note steps = stopping_steps(1) [of ?t] stopping_steps(2) [of b]
  then have "process_step\<^sup>*\<^sup>* (waiting ?t) (stopping ?t)" "process_step\<^sup>*\<^sup>* (stopping ?t) (stopping [])"
    by (simp_all add: r_into_rtranclp [where r = process_step])
  from process_winds_down [OF b(1) all _ _ this(1) _ this(2), of 0 sample_client "''claimer''"] thr
  have "tally_of is_send (events_of 0 (history (stopping []))) \<le> 1 \<and>
      tally_of is_tick (events_of 0 (history (stopping []))) \<le> 1"
    by (auto simp: waiting_def stopping_def on_signal_def)
  with steps show ?thesis
    by (intro exI [of _ "waiting ?t"] exI [of _ "stopping ?t"] exI [of _ "stopping []"])
      (simp add: waiting_def stopping_def on_signal_def sample_shared_def)
qed

text \<open>The same run to its exit.\<close>

definition stopping_program :: program where
  "stopping_program = \<lparr>running = waiting (snd (stopping_task sample_booted)),
     results = [fst (stopping_task sample_booted)], joined = 1, exit_code = None\<rparr>"

theorem process_exits_rightly_witness:
  "\<exists>pr. program_step\<^sup>*\<^sup>* stopping_program pr \<and> exit_code pr = Some 0 \<and> task_over pr 0 \<and> stop (memory (running pr)) \<and>
     (\<nexists>q. program_step pr q)"
proof -
  let ?t = "snd (stopping_task sample_booted)"
  let ?pr = "stopping_program\<lparr>running := stopping []\<rparr>"
  have "launched sample_sdk single_mint_ydelta (\<lambda>e. ''rpc'') sample_booted [sample_client] stopping_program"
    using stopping_spawned [of sample_booted]
    by (simp add: launched_def stopping_program_def waiting_def sample_booted_def)
  moreover have "program_step stopping_program (stopping_program\<lparr>running := stopping ?t\<rparr>)"
    using program_step.works [of stopping_program "stopping ?t"] stopping_steps(1) [of ?t]
    by (simp add: stopping_program_def)
  moreover have "program_step (stopping_program\<lparr>running := stopping ?t\<rparr>) ?pr"
    using program_step.works [of "stopping_program\<lparr>running := stopping ?t\<rparr>" "stopping []"]
      stopping_steps(2) [of sample_booted]
    by (simp add: stopping_program_def)
  moreover have "program_step ?pr (?pr\<lparr>exit_code := Some 0\<rparr>)"
    by (rule program_step.returns)
      (simp_all add: stopping_program_def main_returns_def task_over_def stopping_def stopping_task)
  ultimately have run: "launched sample_sdk single_mint_ydelta (\<lambda>e. ''rpc'') sample_booted [sample_client] stopping_program"
    "program_step\<^sup>*\<^sup>* stopping_program (?pr\<lparr>exit_code := Some 0\<rparr>)"
    by (simp_all add: converse_rtranclp_into_rtranclp [where r = program_step] r_into_rtranclp [where r = program_step])
  from process_exits_rightly [OF this] this(2) show ?thesis
    by (intro exI [of _ "?pr\<lparr>exit_code := Some 0\<rparr>"]) (simp add: sample_booted_def)
qed

text \<open>The started bot with its four handlers, none of them scheduled yet, and then a signal.\<close>

definition idle_program :: "shared \<Rightarrow> program" where
  "idle_program sh = \<lparr>running = \<lparr>memory = sh, pending = replicate 4 [(sh, [], sh)], history = []\<rparr>,
     results = replicate 4 (Ok False), joined = 4, exit_code = None\<rparr>"

lemma idle_task:
  "task_of (supervise c disp h interval fuel 0) \<lparr>world = w, shm = sh, own = o1, steps = []\<rparr> =
   (Ok False, [(sh, [], sh)])"
  by (simp add: task_of_def thread_def pdone_def)

lemmas idle_handlers =
  handler_task.promoter [where s = "\<lparr>world = 0 :: nat, shm = sh, own = {}, steps = []\<rparr>" and fuel = 0 and rounds = 0,
    unfolded idle_task sys.select_convs, OF _ refl]
  handler_task.claimer [where s = "\<lparr>world = 0 :: nat, shm = sh, own = {}, steps = []\<rparr>" and fuel = 0 and rounds = 0,
    unfolded idle_task sys.select_convs, OF _ refl]
  handler_task.liquidator [where s = "\<lparr>world = 0 :: nat, shm = sh, own = {}, steps = []\<rparr>" and fuel = 0 and rounds = 0,
    unfolded idle_task sys.select_convs, OF _ refl]
  handler_task.match_cranker [where s = "\<lparr>world = 0 :: nat, shm = sh, own = {}, steps = []\<rparr>" and fuel = 0 and rounds = 0,
    unfolded idle_task sys.select_convs, OF _ refl]
  for sh :: shared

theorem bot_keeps_data_witness:
  "\<exists>b s' pr. main_boot bank_client sample_sdk single_mint_ydelta sample_io ''y'' (\<lambda>raw. Inr []) sample_env (Ok ())
      (Inr ()) (Inr [0]) (start ()) = (Ok b, s') \<and>
     program_step\<^sup>*\<^sup>* (idle_program (shm s')) pr \<and> stop (memory (running pr)) \<and>
     knows [key 7 \<mapsto> sample_bank] (memory (running pr)) \<and> has_snapshot (memory (running pr))"
proof -
  obtain b s' where b: "main_boot bank_client sample_sdk single_mint_ydelta sample_io ''y'' (\<lambda>raw. Inr []) sample_env
      (Ok ()) (Inr ()) (Inr [0]) (start ()) = (Ok b, s')"
    "bt_handlers b = handlers_spawned (cfg_handlers env_config)" "banks (shm s') = Healthy [(key 7, sample_bank)]"
    using sample_boot by blast
  let ?pr = "(idle_program (shm s'))\<lparr>running := (running (idle_program (shm s')))\<lparr>memory := on_signal (shm s')\<rparr>\<rparr>"
  have four: "i < 4 \<longleftrightarrow> i \<in> {0, 1, 2, 3}" for i :: nat by auto
  have hs: "bt_handlers b = [(''promoter'', 5), (''claimer'', 30), (''liquidator'', 10), (''match_cranker'', 15)]"
    by (simp add: b(2) sample_handlers_spawned)
  have "handler_task sample_sdk single_mint_ydelta (\<lambda>e. ''rpc'') b (sample_client :: nat client)
      (fst (bt_handlers b ! i)) (Ok False, [(shm s', [], shm s')])" if "i < 4" for i
    using that idle_handlers by (auto simp: four hs)
  then have "launched sample_sdk single_mint_ydelta (\<lambda>e. ''rpc'') b (replicate 4 (sample_client :: nat client))
      (idle_program (shm s'))"
    by (auto simp: launched_def idle_program_def hs)
  moreover have step: "program_step (idle_program (shm s')) ?pr"
    using process_step.signalled [of "running (idle_program (shm s'))"]
    by (intro program_step.works) (simp_all add: idle_program_def)
  moreover have "alone_but_for_signals bank_client"
    by (simp add: alone_but_for_signals_def bank_client_def sample_client_def)
  moreover have "shm (start ()) = initial_memory" by (simp add: start_def sample_shared_def initial_memory_def)
  ultimately have "\<exists>reg. banks (shm s') = Healthy reg \<and> knows (map_of reg) (memory (running ?pr)) \<and>
      (reg \<noteq> [] \<longrightarrow> has_snapshot (memory (running ?pr)))"
    using bot_keeps_data [OF _ _ b(1), where disp = "\<lambda>e. ''rpc''" and cs = "replicate 4 sample_client"
        and pr = "idle_program (shm s')" and pr' = ?pr]
    by (simp add: idle_program_def r_into_rtranclp [where r = program_step])
  then have "knows [key 7 \<mapsto> sample_bank] (memory (running ?pr)) \<and> has_snapshot (memory (running ?pr))"
    using b(3) by (auto simp: fun_upd_def)
  then show ?thesis
    using b(1) step by (intro exI [of _ b] exI [of _ s'] exI [of _ ?pr]) (auto simp: on_signal_def)
qed

end
