(* ===== verification/Spec2Isabelle.thy ===== *)
theory Spec2Isabelle
  imports Crank_Witnesses
begin

text \<open>
  Verification of the yDelta crankers, a Rust service that keeps the \<open>ydelta\<close> lending
  program moving: five handlers scan the chain and submit transactions (promote matched
  loans, sweep vault claims, settle and liquidate loans, claim curator fees, crank
  matches), each under a supervisor, over a shared RPC client, a shared registry of
  marginfi banks and a few background loops.

  \<^bold>\<open>Modelling.\<close> A program step is a function on a state (\<open>sys\<close>): the external world, the
  memory the tasks share (stop flag, low-balance flag, bank registry, market cache, token
  balances), the handler's own in-flight set, and the trace of observable events
  (simulations, submissions, status queries, sleeps, counters) and of suspensions. Results
  are \<open>Ok\<close>, \<open>Err\<close> or \<open>Panic\<close>. The Solana client, its SDK, the \<open>ydelta\<close> and \<open>hypertree\<close> crates, the Switchboard
  gateways, the file system and JSON and Base58 decoding are records of functions, and every
  theorem holds for all of them, or names what it relies on. Each awaited call lets the
  other tasks change the shared memory in any way (\<open>c_interfere\<close>), so the theorems on one
  task cover every interleaving at the await points; in \<open>Crank_Process\<close> the interference is
  what the other tasks really did. Code between two awaits counts as one step; finer
  interleavings of its lock and flag accesses on several worker threads are not modelled.
  Integers keep their width and wrap or saturate as the release build does.

  \<^bold>\<open>Theories and sources\<close> (under \<open>src/src/\<close>).
  \<^item> \<open>Crank_Prelude\<close>, \<open>Crank_Types\<close>, \<open>Crank_World\<close>: words, bytes, text, results; the structs
    and errors of all files; the external crates, states, programs, and the rules for
    trace properties (\<open>emits\<close>), framing (\<open>keeps_own\<close>) and invariants under interference
    (\<open>rely\<close>, \<open>preserves\<close>).
  \<^item> \<open>Crank_F64\<close>, \<open>Crank_Util\<close>: IEEE double rounding; \<open>handlers/util.rs\<close> and the LTV
    prefilter of \<open>handlers/liquidator.rs\<close>.
  \<^item> \<open>Marginfi_Bank\<close>: \<open>marginfi_bank.rs\<close>. \<open>Crank_Rpc\<close>: \<open>rpc.rs\<close>. \<open>Chain_Reader\<close>:
    \<open>chain_reader.rs\<close>. \<open>Bank_Registry\<close>: \<open>bank_registry.rs\<close> and the registry operations of
    \<open>config.rs\<close>. \<open>Swb_Cranker\<close>: \<open>swb_cranker.rs\<close>.
  \<^item> \<open>Handler_Kit\<close>: what the handlers repeat, as definitions and as the contracts
    \<open>inflight_handler\<close> and \<open>gated_handler\<close>; \<open>Promoter\<close>, \<open>Claimer\<close>, \<open>Curator_Fee_Claimer\<close>,
    \<open>Liquidator\<close>, \<open>Match_Cranker\<close>: the files of \<open>handlers/\<close>, each interpreting its contract.
  \<^item> \<open>Supervisor\<close>: \<open>handlers/mod.rs\<close> and \<open>metrics.rs\<close>, with the contract \<open>supervised\<close>.
  \<^item> \<open>Crank_Rounds\<close>: what a round survives (failing candidates) and what pauses it, and the
    balance gauge.
  \<^item> \<open>Crank_Steps\<close>, \<open>Crank_Runs\<close>: laws of the segments between suspensions, as the contracts
    \<open>step_law\<close>, \<open>task_contract\<close> and \<open>supervision_contract\<close>, interpreted on the registry, the
    shared data and shutdown.
  \<^item> \<open>Crank_Process\<close>: the spawned tasks of \<open>main.rs\<close> as threads of segments, interleaved over
    one memory by the step relation \<open>process_step\<close>, with signals. \<open>Crank_Exit\<close>: how the process
    ends, by the join of the handler tasks or by the panic hook.
  \<^item> \<open>Crank_Config\<close>: the rest of \<open>config.rs\<close>. \<open>Crank_Boot\<close>: \<open>signer.rs\<close>,
    \<open>health_server.rs\<close> and \<open>main.rs\<close>. \<open>Crank_Life\<close>: the bot from the memory \<open>main\<close>
    allocates, through start-up and the run of the tasks, to its exit.
  \<^item> \<open>Crank_Witnesses\<close>: concrete instances of the external crates, and the theorems with
    hypotheses applied to runs in which these hold.

  \<^bold>\<open>What is shown.\<close>
  \<^item> Spending: in every interleaving the handlers submit only what their last simulation
    approved, and at most one transaction each once the stop flag is set; a
    liquidation is simulated twice and meets the profit threshold; healthy loans cost
    nothing; zero-fill cranks are not sent; curators pay only for their own
    sub-vaults, to a bank the registry knows; a submission sends at most three
    transactions. The warm-keeper submits through a plain client and looks at the flag between rounds only.
  \<^item> Data: the bank decoder is total and inverts the documented layout; market listings
    are sorted, exact and never wiped by an empty answer; the batch read does not depend
    on scheduling; the \<open>f64\<close> prefilter is the exact comparison up to \<open>2^45\<close> atoms.
  \<^item> State: the registry is well formed and only grows, contradictory markets are refused,
    every interleaving from start-up to exit keeps the registry and the market snapshot,
    in-flight sets are restored, the balance flag and the balance gauge follow the node; a configuration is
    exactly what the environment says, and \<open>Debug\<close> output hides its keys and, with an
    exception it names, the credentials and the query string of its RPC URL.
  \<^item> Runs: the supervisor's trace refines its round-by-round accounting; a failing candidate
    never ends a tick, a low balance pauses the fee-payer handlers; sleeps
    end; start-up wires what the configuration says.
  \<^item> End: after the stop flag a handler finishes at most the round it is in; the process exits
    with 0 only after every handler has returned and with 1 only after a panic.
  \<^item> Deviations, proved as they are: a landed but failed transaction counts as success on
    retry; small P2Pool loans get a partial repayment below the floor; the 503 answer
    declares a wrong length.

  \<^bold>\<open>Bounds and fuel.\<close> The supervised and background loops run until the stop flag is set;
  they take a number of rounds, and their theorems hold for every number. The sleep between
  rounds takes fuel; \<open>duration div 10^9 + 2\<close> is proved enough, since it sleeps a second or
  the rest at a time. The retry loop of the submission runs over the attempts 0, 1, 2.

  \<^bold>\<open>Not modelled.\<close> Logging and its set-up, gauges and histograms; the Prometheus exporter
  and sockets; the threads of the panic hook itself (it ends the process, so a poisoned
  in-flight mutex is never seen); constructors that only store their arguments; the \<open>.env\<close> file; the text layout of \<open>Debug\<close>;
  the transport encodings of RPC filters. Text is ASCII. A clock reading is unbounded: the panic of \<open>Instant + Duration\<close> for
  absurd intervals is left out. A \<open>HashMap\<close> is an association list
  and its iteration order is arbitrary: no theorem depends on it. The order in which the
  chunks of a batch read are joined is an argument. The program ids written in Base58 in
  the source are given as their 32 bytes.
\<close>

end
